(* ===== verification/Prelude.thy ===== *)
theory Prelude
  imports Main "HOL-Library.State_Monad" "HOL-Library.Word"
begin

text \<open>
  The shared base of the development: Go's \<open>error\<close> values, the machine integers the API types
  use, and a small postcondition calculus over the state monad of \<open>HOL-Library.State_Monad\<close>.

  \<open>post m Q s\<close> says that running \<open>m\<close> from \<open>s\<close> ends in a result and a state related by \<open>Q\<close>.
  The collection \<open>post_simps\<close> rewrites \<open>post\<close> of a compound command into \<open>post\<close> of its parts, so
  the simplifier executes a handler symbolically, one branch of the code at a time.
\<close>

section \<open>Go values\<close>

type_synonym int64 = "64 word"
type_synonym int32 = "32 word"

text \<open>
  An \<open>error\<close> is either a value made by code outside the repository (its message, and an
  uninterpreted tag for whatever else that code can find out about it, such as
  \<open>errors.IsNotFound\<close>), or the result of \<open>fmt.Errorf("prefix%w", err)\<close>.
\<close>

datatype go_error = Opaque nat string | Wrapped string go_error

fun Error :: "go_error \<Rightarrow> string" where
  "Error (Opaque tag msg) = msg"
| "Error (Wrapped prefix e) = prefix @ Error e"

text \<open>
  A Go map of strings: \<open>None\<close> is the nil map, \<open>Some kvs\<close> an allocated map with the entries
  \<open>kvs\<close>. \<open>len\<close> of a nil map is 0.
\<close>

type_synonym string_map = "(string \<times> string) list option"

definition map_len :: "string_map \<Rightarrow> nat" where
  "map_len m = (case m of None \<Rightarrow> 0 | Some kvs \<Rightarrow> length kvs)"

lemma map_len_simps [simp]:
  "map_len None = 0"
  "map_len (Some kvs) = length kvs"
  by (simp_all add: map_len_def)

text \<open>A Go slice that starts out nil: \<open>None\<close> is nil, which \<open>append\<close> turns into an allocated slice.\<close>

type_synonym 'a slice = "'a list option"

definition elems :: "'a slice \<Rightarrow> 'a list" where
  "elems xs = (case xs of None \<Rightarrow> [] | Some ys \<Rightarrow> ys)"

definition append_slice :: "'a slice \<Rightarrow> 'a \<Rightarrow> 'a slice" where
  "append_slice xs x = Some (elems xs @ [x])"

lemma elems_simps [simp]:
  "elems None = []" "elems (Some ys) = ys" "elems (append_slice xs x) = elems xs @ [x]"
  "append_slice xs x \<noteq> None"
  by (simp_all add: elems_def append_slice_def)

section \<open>Postconditions of state-passing code\<close>

named_theorems post_simps "equations that execute post of a command"

definition post :: "('s, 'a) state \<Rightarrow> ('a \<Rightarrow> 's \<Rightarrow> bool) \<Rightarrow> 's \<Rightarrow> bool" where
  "post m Q s = (case run_state m s of (a, s') \<Rightarrow> Q a s')"

text \<open>The equations leave the state out, so they also rewrite a \<open>post\<close> under a binder.\<close>

lemma post_return [post_simps, simp]: "post (State_Monad.return a) Q = Q a"
  by (simp add: post_def fun_eq_iff)

lemma post_bind [post_simps, simp]:
  "post (State_Monad.bind m f) Q = post m (\<lambda>a. post (f a) Q)"
  by (simp add: post_def fun_eq_iff split: prod.splits)

lemma post_State [post_simps]: "post (State f) Q = (\<lambda>s. case f s of (a, s') \<Rightarrow> Q a s')"
  by (simp add: post_def fun_eq_iff)

lemma post_if [post_simps, simp]:
  "post (if b then m else n) Q = (if b then post m Q else post n Q)"
  by simp

lemma post_case_sum [post_simps, simp]:
  "post (case r of Inl e \<Rightarrow> f e | Inr x \<Rightarrow> g x) Q =
     (case r of Inl e \<Rightarrow> post (f e) Q | Inr x \<Rightarrow> post (g x) Q)"
  by (cases r) simp_all

lemma post_case_option [post_simps, simp]:
  "post (case r of None \<Rightarrow> m | Some x \<Rightarrow> g x) Q =
     (case r of None \<Rightarrow> post m Q | Some x \<Rightarrow> post (g x) Q)"
  by (cases r) simp_all

lemma post_case_prod [post_simps, simp]:
  "post (case p of (x, y) \<Rightarrow> f x y) Q = (case p of (x, y) \<Rightarrow> post (f x y) Q)"
  by (cases p) simp

lemma post_mono: "post m P s \<Longrightarrow> (\<And>a t. P a t \<Longrightarrow> Q a t) \<Longrightarrow> post m Q s"
  by (auto simp: post_def split: prod.splits)

end
