(* ===== verification/Kube.thy ===== *)
theory Kube
  imports Prelude
begin

text \<open>
  What the operator sees of its surroundings, and the state it runs on.

  Everything outside the repository is a parameter: the Kubernetes client (\<open>Client\<close>), the
  helpers of controller-runtime and apimachinery, the constructor of the OCI SDK client and the
  clock (\<open>Ext\<close>). Each is a function on a state \<open>'w\<close> of the outside world, which may change in any
  way whenever it is called, so other writers of the API server, stale caches and the cloud moving
  on its own are all instances. The type parameters are \<open>'w\<close> (outside world), \<open>'r\<close> (the custom
  resource), \<open>'o\<close> (an OCI call with its answer) and \<open>'c\<close> (the OCI client interface).

  \<open>Sys\<close> is the state of one reconciler: the outside world, the \<open>ComputeClient\<close> or
  \<open>VirtualNetworkClient\<close> field of the reconciler struct, the three Prometheus collectors of
  \<open>metrics.go\<close>, and a ghost history \<open>calls\<close> of the calls that left the process with their answers,
  oldest first. No operation reads \<open>calls\<close>; the properties are stated over it.
\<close>

section \<open>Kubernetes data\<close>

type_synonym Time = int

record TypeMeta =
  Kind :: string
  APIVersion :: string

text \<open>The fields of \<open>metav1.ObjectMeta\<close> that the operator or its generated code depends on.\<close>

record ObjectMeta =
  Name :: string
  Namespace :: string
  ResourceVersion :: string
  Generation :: int64
  DeletionTimestamp :: "Time option"
  Finalizers :: "string list"

record NamespacedName =
  NN_Namespace :: string
  NN_Name :: string

record Condition =
  CondType :: string
  CondStatus :: string
  CondObservedGeneration :: int64
  CondReason :: string
  CondMessage :: string

section \<open>Results of a reconcile\<close>

text \<open>\<open>time.Duration\<close> counts nanoseconds; \<open>ctrl.Result{}\<close> has \<open>RequeueAfter = 0\<close>.\<close>

type_synonym Duration = int

definition Second :: Duration where "Second = 1000000000"

definition Minute :: Duration where "Minute = 60 * Second"

record Result =
  RequeueAfter :: Duration

definition zeroResult :: Result where "zeroResult = \<lparr>RequeueAfter = 0\<rparr>"

text \<open>A handler returns \<open>(ctrl.Result, error)\<close> or panics (a nil pointer is dereferenced).\<close>

datatype Outcome = Returned Result "go_error option" | Panicked

section \<open>The outside world as parameters\<close>

text \<open>
  \<open>client.Client\<close>, for one resource type. A write that succeeds returns the object as the server
  answered it: the client decodes the answer into the object it was given, so the variable of the
  code holds the answer from then on.
\<close>

record ('w, 'r) Client =
  Get :: "NamespacedName \<Rightarrow> 'w \<Rightarrow> (go_error + 'r) \<times> 'w"
  Update :: "'r \<Rightarrow> 'w \<Rightarrow> (go_error + 'r) \<times> 'w"
  StatusUpdate :: "'r \<Rightarrow> 'w \<Rightarrow> (go_error + 'r) \<times> 'w"

text \<open>
  \<open>IsNotFound\<close> is \<open>errors.IsNotFound\<close>, \<open>IsZero\<close> the method of \<open>*metav1.Time\<close>, the three finalizer
  functions those of \<open>controllerutil\<close>, \<open>ObjectKeyFromObject\<close> that of the client package,
  \<open>NewSdkClient\<close> the SDK constructor applied to \<open>common.DefaultConfigProvider()\<close>, and \<open>Now\<close> the
  clock that \<open>time.Now\<close> and \<open>time.Since\<close> read.
\<close>

record ('w, 'r, 'c) Ext =
  K8s :: "('w, 'r) Client"
  IsNotFound :: "go_error \<Rightarrow> bool"
  IsZero :: "Time option \<Rightarrow> bool"
  ContainsFinalizer :: "'r \<Rightarrow> string \<Rightarrow> bool"
  AddFinalizer :: "'r \<Rightarrow> string \<Rightarrow> 'r"
  RemoveFinalizer :: "'r \<Rightarrow> string \<Rightarrow> 'r"
  ObjectKeyFromObject :: "'r \<Rightarrow> NamespacedName"
  NewSdkClient :: "'w \<Rightarrow> (go_error + 'c) \<times> 'w"
  Now :: "'w \<Rightarrow> Time \<times> 'w"

section \<open>The state of a reconciler\<close>

datatype ('r, 'o) Event =
  KGet NamespacedName "go_error + 'r"
| KUpdate 'r "go_error + 'r"
| KStatusUpdate 'r "go_error + 'r"
| SdkClient "go_error option"
| Oci 'o

record ('w, 'r, 'o, 'c) Sys =
  world :: 'w
  calls :: "('r, 'o) Event list"
  ociClient :: "'c option"
  reconcileTotal :: "string \<times> string \<Rightarrow> nat"
  ociAPICallDuration :: "((string \<times> string \<times> string) \<times> Duration) list"
  phaseTransitions :: "string \<times> string \<Rightarrow> nat"

section \<open>Calls that leave the process\<close>

text \<open>Run \<open>f\<close> on the outside world and append the event it makes to the history.\<close>

definition ext_call ::
    "('w \<Rightarrow> 'a \<times> 'w) \<Rightarrow> ('a \<Rightarrow> ('r, 'o) Event) \<Rightarrow> (('w, 'r, 'o, 'c) Sys, 'a) state" where
  "ext_call f ev = State (\<lambda>s. case f (world s) of
     (a, w) \<Rightarrow> (a, s\<lparr>world := w, calls := calls s @ [ev a]\<rparr>))"

definition k8s_get ::
    "('w, 'r, 'c) Ext \<Rightarrow> NamespacedName \<Rightarrow> (('w, 'r, 'o, 'c) Sys, go_error + 'r) state" where
  "k8s_get ext key = ext_call (Get (K8s ext) key) (KGet key)"

definition k8s_update ::
    "('w, 'r, 'c) Ext \<Rightarrow> 'r \<Rightarrow> (('w, 'r, 'o, 'c) Sys, go_error + 'r) state" where
  "k8s_update ext obj = ext_call (Update (K8s ext) obj) (KUpdate obj)"

definition k8s_status_update ::
    "('w, 'r, 'c) Ext \<Rightarrow> 'r \<Rightarrow> (('w, 'r, 'o, 'c) Sys, go_error + 'r) state" where
  "k8s_status_update ext obj = ext_call (StatusUpdate (K8s ext) obj) (KStatusUpdate obj)"

definition new_sdk_client ::
    "('w, 'r, 'c) Ext \<Rightarrow> (('w, 'r, 'o, 'c) Sys, go_error + 'c) state" where
  "new_sdk_client ext = ext_call (NewSdkClient ext)
     (\<lambda>r. SdkClient (case r of Inl e \<Rightarrow> Some e | Inr _ \<Rightarrow> None))"

definition oci_call ::
    "('w \<Rightarrow> 'a \<times> 'w) \<Rightarrow> ('a \<Rightarrow> 'o) \<Rightarrow> (('w, 'r, 'o, 'c) Sys, 'a) state" where
  "oci_call f ev = ext_call f (\<lambda>a. Oci (ev a))"

definition read_clock :: "('w, 'r, 'c) Ext \<Rightarrow> (('w, 'r, 'o, 'c) Sys, Time) state" where
  "read_clock ext = State (\<lambda>s. case Now ext (world s) of (t, w) \<Rightarrow> (t, s\<lparr>world := w\<rparr>))"

definition get_client :: "(('w, 'r, 'o, 'c) Sys, 'c option) state" where
  "get_client = State (\<lambda>s. (ociClient s, s))"

definition put_client :: "'c \<Rightarrow> (('w, 'r, 'o, 'c) Sys, unit) state" where
  "put_client c = State (\<lambda>s. ((), s\<lparr>ociClient := Some c\<rparr>))"

section \<open>Executing the calls\<close>

lemma post_ext_call [post_simps, simp]:
  "post (ext_call f ev) Q = (\<lambda>s.
     case f (world s) of (a, w) \<Rightarrow> Q a (s\<lparr>world := w, calls := calls s @ [ev a]\<rparr>))"
  by (simp add: ext_call_def post_State fun_eq_iff split: prod.splits)

lemma post_read_clock [post_simps, simp]:
  "post (read_clock ext) Q = (\<lambda>s. case Now ext (world s) of (t, w) \<Rightarrow> Q t (s\<lparr>world := w\<rparr>))"
  by (simp add: read_clock_def post_State fun_eq_iff split: prod.splits)

lemma post_get_client [post_simps, simp]: "post get_client Q = (\<lambda>s. Q (ociClient s) s)"
  by (simp add: get_client_def post_State)

lemma post_put_client [post_simps, simp]: "post (put_client c) Q = (\<lambda>s. Q () (s\<lparr>ociClient := Some c\<rparr>))"
  by (simp add: put_client_def post_State)

lemmas call_defs =
  k8s_get_def k8s_update_def k8s_status_update_def new_sdk_client_def oci_call_def

text \<open>The history only grows: \<open>emits m P\<close> bounds what one run of \<open>m\<close> adds to it.\<close>

definition emits ::
    "(('w, 'r, 'o, 'c) Sys, 'a) state \<Rightarrow> ('w, 'r, 'o, 'c) Sys \<Rightarrow>
     ('a \<Rightarrow> ('r, 'o) Event list \<Rightarrow> bool) \<Rightarrow> bool" where
  "emits m s P \<longleftrightarrow> post m (\<lambda>a t. \<exists>evs. calls t = calls s @ evs \<and> P a evs) s"

text \<open>One run of \<open>m\<close> from \<open>s\<close>: what it returns, where it ends, and the events it adds to the history.\<close>

definition outcome :: "(('w, 'r, 'o, 'c) Sys, 'a) state \<Rightarrow> ('w, 'r, 'o, 'c) Sys \<Rightarrow> 'a" where
  "outcome m s = fst (run_state m s)"

definition final :: "(('w, 'r, 'o, 'c) Sys, 'a) state \<Rightarrow> ('w, 'r, 'o, 'c) Sys \<Rightarrow> ('w, 'r, 'o, 'c) Sys" where
  "final m s = snd (run_state m s)"

definition events :: "(('w, 'r, 'o, 'c) Sys, 'a) state \<Rightarrow> ('w, 'r, 'o, 'c) Sys \<Rightarrow> ('r, 'o) Event list" where
  "events m s = drop (length (calls s)) (calls (final m s))"

lemma post_outcome: "post m Q s \<longleftrightarrow> Q (outcome m s) (final m s)"
  by (simp add: post_def outcome_def final_def split: prod.splits)

lemma emits_run: "emits m s P \<Longrightarrow> P (outcome m s) (events m s)"
  by (auto simp: emits_def post_outcome events_def)

lemma emits_calls: "emits m s P \<Longrightarrow> calls (final m s) = calls s @ events m s"
  by (auto simp: emits_def post_outcome events_def)

section \<open>Reading a history\<close>

definition oci_calls :: "('r, 'o) Event list \<Rightarrow> 'o list" where
  "oci_calls evs = [c. Oci c \<leftarrow> evs]"

lemma oci_calls_simps [simp]:
  "oci_calls [] = []"
  "oci_calls (Oci c # evs) = c # oci_calls evs"
  "oci_calls (KGet k r # evs) = oci_calls evs"
  "oci_calls (KUpdate x a # evs) = oci_calls evs"
  "oci_calls (KStatusUpdate x a # evs) = oci_calls evs"
  "oci_calls (SdkClient e # evs) = oci_calls evs"
  "oci_calls (evs @ evs') = oci_calls evs @ oci_calls evs'"
  by (simp_all add: oci_calls_def)

end
