(* ===== verification/Metrics.thy ===== *)
theory Metrics
  imports Kube
begin

text \<open>
  \<open>internal/controller/metrics.go\<close>: the three collectors are fields of \<open>Sys\<close>. A counter vector is
  a function from its label values to a count; the histogram vector is the list of its
  observations, each with its labels and its duration (the code observes the duration in seconds).
\<close>

definition metricResultSuccess :: string where "metricResultSuccess = ''success''"

definition metricResultError :: string where "metricResultError = ''error''"

text \<open>\<open>reconcileTotal.WithLabelValues(controller, result).Inc()\<close>\<close>

definition inc_reconcileTotal :: "string \<Rightarrow> string \<Rightarrow> (('w, 'r, 'o, 'c) Sys, unit) state" where
  "inc_reconcileTotal controller result = State (\<lambda>s. ((), s\<lparr>reconcileTotal :=
     (reconcileTotal s)((controller, result) := Suc (reconcileTotal s (controller, result)))\<rparr>))"

text \<open>\<open>phaseTransitions.WithLabelValues(controller, phase).Inc()\<close>\<close>

definition inc_phaseTransitions :: "string \<Rightarrow> string \<Rightarrow> (('w, 'r, 'o, 'c) Sys, unit) state" where
  "inc_phaseTransitions controller phase = State (\<lambda>s. ((), s\<lparr>phaseTransitions :=
     (phaseTransitions s)((controller, phase) := Suc (phaseTransitions s (controller, phase)))\<rparr>))"

text \<open>\<open>ociAPICallDuration.WithLabelValues(controller, operation, result).Observe(d)\<close>\<close>

definition observe_duration ::
    "string \<Rightarrow> string \<Rightarrow> string \<Rightarrow> Duration \<Rightarrow> (('w, 'r, 'o, 'c) Sys, unit) state" where
  "observe_duration controller operation result d = State (\<lambda>s. ((), s\<lparr>ociAPICallDuration :=
     ociAPICallDuration s @ [((controller, operation, result), d)]\<rparr>))"

text \<open>The label that \<open>measureOCICall\<close> derives from the error of the call.\<close>

definition result_label :: "go_error + 'a \<Rightarrow> string" where
  "result_label r = (case r of Inl err \<Rightarrow> metricResultError | Inr _ \<Rightarrow> metricResultSuccess)"

lemma result_label_simps [simp]:
  "result_label (Inl err) = metricResultError"
  "result_label (Inr x) = metricResultSuccess"
  by (simp_all add: result_label_def)

text \<open>
  \<open>measureOCICall(controller, operation, fn)\<close>. The closures passed to it return the error and
  assign the response to a captured variable; here \<open>fn\<close> returns both as a sum.
\<close>

definition measureOCICall ::
    "('w, 'r, 'c) Ext \<Rightarrow> string \<Rightarrow> string \<Rightarrow> (('w, 'r, 'o, 'c) Sys, go_error + 'a) state \<Rightarrow>
     (('w, 'r, 'o, 'c) Sys, go_error + 'a) state" where
  "measureOCICall ext controller operation fn = do {
     start \<leftarrow> read_clock ext;
     r \<leftarrow> fn;
     let result = result_label r;
     stop \<leftarrow> read_clock ext;
     observe_duration controller operation result (stop - start);
     State_Monad.return r
   }"

text \<open>The label of an outcome in \<open>reconcileTotal\<close>, as the deferred function of both reconcilers
  computes it from the named result \<open>err\<close>: a panicking handler has not set \<open>err\<close>.\<close>

definition outcome_label :: "Outcome \<Rightarrow> string" where
  "outcome_label out = (case out of
     Returned res (Some err) \<Rightarrow> metricResultError
   | _ \<Rightarrow> metricResultSuccess)"

lemma outcome_label_simps [simp]:
  "outcome_label (Returned res (Some err)) = metricResultError"
  "outcome_label (Returned res None) = metricResultSuccess"
  "outcome_label Panicked = metricResultSuccess"
  by (simp_all add: outcome_label_def)

section \<open>Executing the instrumentation\<close>

lemma post_inc_reconcileTotal [post_simps, simp]:
  "post (inc_reconcileTotal c l) Q = (\<lambda>s. Q () (s\<lparr>reconcileTotal :=
     (reconcileTotal s)((c, l) := Suc (reconcileTotal s (c, l)))\<rparr>))"
  by (simp add: inc_reconcileTotal_def post_State)

lemma post_inc_phaseTransitions [post_simps, simp]:
  "post (inc_phaseTransitions c p) Q = (\<lambda>s. Q () (s\<lparr>phaseTransitions :=
     (phaseTransitions s)((c, p) := Suc (phaseTransitions s (c, p)))\<rparr>))"
  by (simp add: inc_phaseTransitions_def post_State)

lemma post_observe_duration [post_simps, simp]:
  "post (observe_duration c op l d) Q =
     (\<lambda>s. Q () (s\<lparr>ociAPICallDuration := ociAPICallDuration s @ [((c, op, l), d)]\<rparr>))"
  by (simp add: observe_duration_def post_State)

lemma post_measureOCICall [post_simps, simp]:
  "post (measureOCICall ext c op fn) Q = (\<lambda>s.
     case Now ext (world s) of (start, w) \<Rightarrow>
        post fn (\<lambda>r t. case Now ext (world t) of (stop, w') \<Rightarrow>
          Q r (t\<lparr>world := w', ociAPICallDuration := ociAPICallDuration t @
            [((c, op, result_label r), stop - start)]\<rparr>))
          (s\<lparr>world := w\<rparr>))"
  by (simp add: measureOCICall_def Let_def)

end
