(* ===== verification/Protocol.thy ===== *)
theory Protocol
  imports Metrics
begin

text \<open>
  The abstract contract of a reconciler: which calls one run may make, in which order, with which
  objects, and what it then returns. It says nothing of how the code gets there. A resource type is
  described by a \<open>Descriptor\<close>; the relations \<open>deletion_run\<close>, \<open>active_run\<close> and \<open>reconcile_run\<close> list the
  permitted runs, one rule for each. The locale \<open>reconciler\<close> collects what follows from the contract
  alone; both controllers are shown to refine it and interpret the locale.
\<close>

section \<open>Descriptions of a resource type\<close>

text \<open>What an OCI call does to the remote object, with the outcome the operator sees.\<close>

datatype oci_kind =
  Create "go_error + string option"
| Read "string option" "go_error option"
| Destroy "string option" "go_error option"

text \<open>The error of an answer, if it is one.\<close>

fun answer_err :: "go_error + 'a \<Rightarrow> go_error option" where
  "answer_err (Inl err) = Some err"
| "answer_err (Inr x) = None"

text \<open>
  \<open>d_id\<close> is the remote id in the status, \<open>d_gave_up\<close> the guard of failed resources, \<open>d_start\<close> the status
  written before the remote object is created, \<open>d_record\<close> the status that records its id, \<open>d_fail\<close> the
  status of a failure, \<open>d_sync c x y\<close> that \<open>y\<close> is \<open>x\<close> with its status synced to what the read \<open>c\<close> was answered,
  \<open>d_again c z\<close> when to come back once the API server has answered that write with \<open>z\<close>, and \<open>d_request x c\<close>
  that \<open>c\<close> is a creation as the spec of \<open>x\<close> asks for.
\<close>

record ('r, 'o) Descriptor =
  d_finalizer :: string
  d_deleted_at :: "'r \<Rightarrow> Time option"
  d_gave_up :: "'r \<Rightarrow> bool"
  d_id :: "'r \<Rightarrow> string"
  d_kind :: "'o \<Rightarrow> oci_kind"
  d_request :: "'r \<Rightarrow> 'o \<Rightarrow> bool"
  d_start :: "'r \<Rightarrow> 'r"
  d_record :: "string \<Rightarrow> 'r \<Rightarrow> 'r"
  d_fail :: "string \<Rightarrow> 'r \<Rightarrow> 'r"
  d_sync :: "'o \<Rightarrow> 'r \<Rightarrow> 'r \<Rightarrow> bool"
  d_again :: "'o \<Rightarrow> 'r \<Rightarrow> Duration"

text \<open>The outcome of a run whose last call is a write answered with \<open>a\<close>.\<close>

fun written :: "Result \<Rightarrow> go_error + 'a \<Rightarrow> Outcome" where
  "written res (Inl err) = Returned zeroResult (Some err)"
| "written res (Inr x) = Returned res None"

lemma written_case:
  "written res a = (case a of Inl err \<Rightarrow> Returned zeroResult (Some err) | Inr x \<Rightarrow> Returned res None)"
  by (cases a) simp_all

text \<open>An OCI client may have been made just before.\<close>

definition sdk_prefix :: "('r, 'o) Event list \<Rightarrow> bool" where
  "sdk_prefix pre \<longleftrightarrow> pre = [] \<or> pre = [SdkClient None]"

lemma sdk_prefixI [simp, intro]: "sdk_prefix []" "sdk_prefix [SdkClient None]"
  by (simp_all add: sdk_prefix_def)

section \<open>Permitted runs\<close>

inductive deletion_run ::
    "('r, 'o) Descriptor \<Rightarrow> ('w, 'r, 'c) Ext \<Rightarrow> 'r \<Rightarrow> Outcome \<Rightarrow> ('r, 'o) Event list \<Rightarrow> bool"
  for D ext x where
  no_finalizer: "\<not> ContainsFinalizer ext x (d_finalizer D) \<Longrightarrow>
    deletion_run D ext x (Returned zeroResult None) []"
| deletion_no_client: "ContainsFinalizer ext x (d_finalizer D) \<Longrightarrow> d_id D x \<noteq> '''' \<Longrightarrow>
    deletion_run D ext x (Returned zeroResult (Some err)) [SdkClient (Some err')]"
| destroy_failed: "ContainsFinalizer ext x (d_finalizer D) \<Longrightarrow> d_id D x \<noteq> '''' \<Longrightarrow> sdk_prefix pre \<Longrightarrow>
    d_kind D c = Destroy (Some (d_id D x)) (Some err) \<Longrightarrow> RequeueAfter res = 30 * Second \<Longrightarrow>
    deletion_run D ext x (Returned res (Some err)) (pre @ [Oci c])"
| destroyed: "ContainsFinalizer ext x (d_finalizer D) \<Longrightarrow> d_id D x \<noteq> '''' \<Longrightarrow> sdk_prefix pre \<Longrightarrow>
    d_kind D c = Destroy (Some (d_id D x)) None \<Longrightarrow>
    deletion_run D ext x (written zeroResult a)
      (pre @ [Oci c, KUpdate (RemoveFinalizer ext x (d_finalizer D)) a])"
| nothing_to_destroy: "ContainsFinalizer ext x (d_finalizer D) \<Longrightarrow> d_id D x = '''' \<Longrightarrow>
    deletion_run D ext x (written zeroResult a) [KUpdate (RemoveFinalizer ext x (d_finalizer D)) a]"

text \<open>Marking the object as failed: it is fetched again, then its status is written.\<close>

inductive failing_run ::
    "('r, 'o) Descriptor \<Rightarrow> ('w, 'r, 'c) Ext \<Rightarrow> 'r \<Rightarrow> string \<Rightarrow> Outcome \<Rightarrow> ('r, 'o) Event list \<Rightarrow> bool"
  for D ext x reason where
  refetch_failed: "failing_run D ext x reason (Returned zeroResult (Some err))
    [KGet (ObjectKeyFromObject ext x) (Inl err)]"
| marked: "failing_run D ext x reason (written zeroResult a)
    [KGet (ObjectKeyFromObject ext x) (Inr y), KStatusUpdate (d_fail D reason y) a]"

text \<open>A remote object that exists: one read, and one status write if the read succeeded.\<close>

inductive existing_run ::
    "('r, 'o) Descriptor \<Rightarrow> 'r \<Rightarrow> Outcome \<Rightarrow> ('r, 'o) Event list \<Rightarrow> bool"
  for D x where
  read_failed: "d_kind D c = Read (Some (d_id D x)) (Some err) \<Longrightarrow> RequeueAfter res = 30 * Second \<Longrightarrow>
    existing_run D x (Returned res (Some err)) [Oci c]"
| sync_failed: "d_kind D c = Read (Some (d_id D x)) None \<Longrightarrow> d_sync D c x y \<Longrightarrow>
    existing_run D x (Returned zeroResult (Some err)) [Oci c, KStatusUpdate y (Inl err)]"
| synced: "d_kind D c = Read (Some (d_id D x)) None \<Longrightarrow> d_sync D c x y \<Longrightarrow> 0 < RequeueAfter res \<Longrightarrow>
    RequeueAfter res = d_again D c z \<Longrightarrow>
    existing_run D x (Returned res None) [Oci c, KStatusUpdate y (Inr z)]"

text \<open>A remote object to be made: one status write, one creation as the answered object asks for, and
  one status write that records the id, or the failure.\<close>

inductive new_run ::
    "('r, 'o) Descriptor \<Rightarrow> ('w, 'r, 'c) Ext \<Rightarrow> 'r \<Rightarrow> Outcome \<Rightarrow> ('r, 'o) Event list \<Rightarrow> bool"
  for D ext x where
  start_failed: "new_run D ext x (Returned zeroResult (Some err)) [KStatusUpdate (d_start D x) (Inl err)]"
| create_failed: "d_request D y c \<Longrightarrow> d_kind D c = Create (Inl err) \<Longrightarrow>
    failing_run D ext y reason out evs \<Longrightarrow>
    new_run D ext x out (KStatusUpdate (d_start D x) (Inr y) # Oci c # evs)"
| created_without_id: "d_request D y c \<Longrightarrow> d_kind D c = Create (Inr None) \<Longrightarrow>
    new_run D ext x Panicked [KStatusUpdate (d_start D x) (Inr y), Oci c]"
| created: "d_request D y c \<Longrightarrow> d_kind D c = Create (Inr (Some i)) \<Longrightarrow> 0 < RequeueAfter res \<Longrightarrow>
    new_run D ext x (written res a)
      [KStatusUpdate (d_start D x) (Inr y), Oci c, KStatusUpdate (d_record D i y) a]"

inductive active_run ::
    "('r, 'o) Descriptor \<Rightarrow> ('w, 'r, 'c) Ext \<Rightarrow> 'r \<Rightarrow> Outcome \<Rightarrow> ('r, 'o) Event list \<Rightarrow> bool"
  for D ext x where
  no_client: "failing_run D ext x reason out evs \<Longrightarrow>
    active_run D ext x out (SdkClient (Some err) # evs)"
| existing: "d_id D x \<noteq> '''' \<Longrightarrow> sdk_prefix pre \<Longrightarrow> existing_run D x out evs \<Longrightarrow>
    active_run D ext x out (pre @ evs)"
| new: "d_id D x = '''' \<Longrightarrow> sdk_prefix pre \<Longrightarrow> new_run D ext x out evs \<Longrightarrow>
    active_run D ext x out (pre @ evs)"

inductive reconcile_run ::
    "('r, 'o) Descriptor \<Rightarrow> ('w, 'r, 'c) Ext \<Rightarrow> NamespacedName \<Rightarrow> Outcome \<Rightarrow> ('r, 'o) Event list \<Rightarrow> bool"
  for D ext req where
  not_found: "IsNotFound ext err \<Longrightarrow>
    reconcile_run D ext req (Returned zeroResult None) [KGet req (Inl err)]"
| fetch_failed: "\<not> IsNotFound ext err \<Longrightarrow>
    reconcile_run D ext req (Returned zeroResult (Some err)) [KGet req (Inl err)]"
| deleting: "\<not> IsZero ext (d_deleted_at D x) \<Longrightarrow> deletion_run D ext x out evs \<Longrightarrow>
    reconcile_run D ext req out (KGet req (Inr x) # evs)"
| add_finalizer: "IsZero ext (d_deleted_at D x) \<Longrightarrow> \<not> ContainsFinalizer ext x (d_finalizer D) \<Longrightarrow>
    reconcile_run D ext req (written zeroResult a)
      [KGet req (Inr x), KUpdate (AddFinalizer ext x (d_finalizer D)) a]"
| gave_up: "IsZero ext (d_deleted_at D x) \<Longrightarrow> ContainsFinalizer ext x (d_finalizer D) \<Longrightarrow>
    d_gave_up D x \<Longrightarrow>
    reconcile_run D ext req (Returned zeroResult None) [KGet req (Inr x)]"
| active: "IsZero ext (d_deleted_at D x) \<Longrightarrow> ContainsFinalizer ext x (d_finalizer D) \<Longrightarrow>
    \<not> d_gave_up D x \<Longrightarrow> active_run D ext x out evs \<Longrightarrow>
    reconcile_run D ext req out (KGet req (Inr x) # evs)"

inductive_cases reconcile_runE: "reconcile_run D ext req out evs"
inductive_cases deletion_runE: "deletion_run D ext x out evs"
inductive_cases failing_runE: "failing_run D ext x reason out evs"
inductive_cases existing_runE: "existing_run D x out evs"
inductive_cases new_runE: "new_run D ext x out evs"
inductive_cases active_runE: "active_run D ext x out evs"

text \<open>
  The same rules with the client prefix and the answers of the last write spelled out, so that their
  conclusions match the explicit lists of events that executing a handler leaves.
\<close>

lemmas deletion_rules =
  no_finalizer deletion_no_client
  destroy_failed [where pre = "[]", simplified]
  destroy_failed [where pre = "[SdkClient None]", simplified]
  destroyed [where pre = "[]" and a = "Inl e" for e, simplified]
  destroyed [where pre = "[SdkClient None]" and a = "Inl e" for e, simplified]
  destroyed [where pre = "[]" and a = "Inr x" for x, simplified]
  destroyed [where pre = "[SdkClient None]" and a = "Inr x" for x, simplified]
  nothing_to_destroy [where a = "Inl e" for e, simplified]
  nothing_to_destroy [where a = "Inr x" for x, simplified]

lemmas failing_rules =
  refetch_failed
  marked [where a = "Inl e" for e, simplified]
  marked [where a = "Inr x" for x, simplified]

lemmas existing_rules = read_failed sync_failed synced

lemmas new_rules =
  start_failed created_without_id
  create_failed [OF _ _ refetch_failed]
  create_failed [OF _ _ marked [where a = "Inl e" for e], simplified]
  create_failed [OF _ _ marked [where a = "Inr x" for x], simplified]
  created [where a = "Inl e" and res = "\<lparr>RequeueAfter = 1\<rparr>" for e, simplified]
  created [where a = "Inr x" for x, simplified]

lemmas reconcile_rules =
  not_found fetch_failed deleting gave_up active
  add_finalizer [where a = "Inl e" for e, simplified]
  add_finalizer [where a = "Inr x" for x, simplified]

section \<open>Composing bounds on the history\<close>

text \<open>A bound on a handler, used after the caller has already added \<open>evs0\<close> to the history.\<close>

lemma emits_after:
  assumes "emits m s' P" and "calls s' = calls s @ evs0"
    and "\<And>out evs. P out evs \<Longrightarrow> Q out (evs0 @ evs)"
  shows "post m (\<lambda>out t. \<exists>evs. calls t = calls s @ evs \<and> Q out evs) s'"
  using assms(1) unfolding emits_def
  by (rule post_mono) (auto simp: assms(2) intro: assms(3))

section \<open>What a permitted run contains\<close>

text \<open>Facts about \<open>reconcile_run\<close>, by inversion of its rules.\<close>

lemma sdk_prefix_no_events [simp]:
  "sdk_prefix pre \<Longrightarrow> oci_calls pre = []"
  "sdk_prefix pre \<Longrightarrow> Oci c \<notin> set pre"
  "sdk_prefix pre \<Longrightarrow> KUpdate y a \<notin> set pre"
  "sdk_prefix pre \<Longrightarrow> KStatusUpdate y a \<notin> set pre"
  by (auto simp: sdk_prefix_def)

lemma failing_run_no_oci:
  "failing_run D ext x reason out evs \<Longrightarrow> oci_calls evs = []"
  "failing_run D ext x reason out evs \<Longrightarrow> Oci c \<notin> set evs"
  "failing_run D ext x reason out evs \<Longrightarrow> KUpdate y a \<notin> set evs"
  by (auto elim!: failing_runE)

lemma deletion_run_oci:
  "deletion_run D ext x out evs \<Longrightarrow> Oci c \<in> set evs \<Longrightarrow>
   \<exists>r. d_kind D c = Destroy (Some (d_id D x)) r \<and> d_id D x \<noteq> '''' \<and> ContainsFinalizer ext x (d_finalizer D)"
  by (auto elim!: deletion_runE)

lemma new_run_oci:
  assumes "new_run D ext x out evs" "Oci c \<in> set evs"
  shows "\<exists>r y rest. d_kind D c = Create r \<and> d_request D y c \<and> oci_calls rest = [] \<and>
     evs = KStatusUpdate (d_start D x) (Inr y) # Oci c # rest"
  using assms by cases (auto simp: failing_run_no_oci)

lemma active_run_oci:
  assumes "active_run D ext x out evs" "Oci c \<in> set evs"
  shows "(\<exists>r. d_kind D c = Read (Some (d_id D x)) r \<and> d_id D x \<noteq> '''') \<or>
   (\<exists>r pre y rest. d_kind D c = Create r \<and> d_id D x = '''' \<and> sdk_prefix pre \<and> d_request D y c \<and>
      oci_calls rest = [] \<and> evs = pre @ [KStatusUpdate (d_start D x) (Inr y), Oci c] @ rest)"
  using assms(1)
proof cases
  case (no_client reason evs' err)
  then show ?thesis using assms(2) by (simp add: failing_run_no_oci)
next
  case (existing pre evs')
  then show ?thesis using assms(2) by (auto elim!: existing_runE)
next
  case (new pre evs')
  then have "Oci c \<in> set evs'" using assms(2) by simp
  from new_run_oci [OF new(4) this] new show ?thesis by fastforce
qed

lemma run_create:
  assumes "reconcile_run D ext req out evs" "Oci c \<in> set evs" "d_kind D c = Create r"
  shows "\<exists>x pre y rest. sdk_prefix pre \<and> oci_calls rest = [] \<and>
     evs = KGet req (Inr x) # pre @ [KStatusUpdate (d_start D x) (Inr y), Oci c] @ rest \<and>
     d_id D x = '''' \<and> d_request D y c \<and> IsZero ext (d_deleted_at D x) \<and>
     ContainsFinalizer ext x (d_finalizer D) \<and> \<not> d_gave_up D x"
  using assms(1)
proof cases
  case (deleting x evs')
  then show ?thesis using assms deletion_run_oci [of D ext x out evs' c] by auto
next
  case (active x evs')
  then show ?thesis using assms active_run_oci [of D ext x out evs' c] by auto
qed (use assms in auto)

lemma run_destroy:
  assumes "reconcile_run D ext req out evs" "Oci c \<in> set evs" "d_kind D c = Destroy i r"
  shows "\<exists>x evs'. evs = KGet req (Inr x) # evs' \<and> i = Some (d_id D x) \<and> d_id D x \<noteq> '''' \<and>
     \<not> IsZero ext (d_deleted_at D x) \<and> ContainsFinalizer ext x (d_finalizer D)"
  using assms(1)
proof cases
  case (deleting x evs')
  then show ?thesis using assms deletion_run_oci [of D ext x out evs' c] by auto
next
  case (active x evs')
  then show ?thesis using assms active_run_oci [of D ext x out evs' c] by auto
qed (use assms in auto)

lemma run_update:
  assumes "reconcile_run D ext req out evs" "KUpdate y a \<in> set evs"
  shows "\<exists>x. hd evs = KGet req (Inr x) \<and>
     (IsZero ext (d_deleted_at D x) \<and> \<not> ContainsFinalizer ext x (d_finalizer D) \<and>
        y = AddFinalizer ext x (d_finalizer D) \<or>
      \<not> IsZero ext (d_deleted_at D x) \<and> ContainsFinalizer ext x (d_finalizer D) \<and>
        y = RemoveFinalizer ext x (d_finalizer D) \<and>
        (d_id D x = '''' \<or> (\<exists>c. Oci c \<in> set evs \<and> d_kind D c = Destroy (Some (d_id D x)) None)))"
  using assms(1)
proof cases
  case (deleting x evs')
  then show ?thesis using assms by (auto elim!: deletion_runE)
next
  case (active x evs')
  then show ?thesis using assms
    by (auto elim!: active_runE existing_runE new_runE dest: failing_run_no_oci)
qed (use assms in auto)

text \<open>A run that reads the remote object.\<close>

lemma run_read:
  assumes "reconcile_run D ext req out evs" "Oci c \<in> set evs" "d_kind D c = Read i r"
  shows "\<exists>x pre. sdk_prefix pre \<and> i = Some (d_id D x) \<and> d_id D x \<noteq> '''' \<and>
    IsZero ext (d_deleted_at D x) \<and> ContainsFinalizer ext x (d_finalizer D) \<and> \<not> d_gave_up D x \<and>
    (case r of Some err \<Rightarrow> evs = KGet req (Inr x) # pre @ [Oci c] \<and>
        (\<exists>res. RequeueAfter res = 30 * Second \<and> out = Returned res (Some err))
     | None \<Rightarrow> \<exists>y a. d_sync D c x y \<and> evs = KGet req (Inr x) # pre @ [Oci c, KStatusUpdate y a] \<and>
        (case a of Inl err \<Rightarrow> out = Returned zeroResult (Some err)
         | Inr z \<Rightarrow> \<exists>res. RequeueAfter res = d_again D c z \<and> out = Returned res None))"
  using assms(1)
proof cases
  case (deleting x evs')
  then show ?thesis using assms deletion_run_oci [of D ext x out evs' c] by auto
next
  case (active x evs')
  from active(5) show ?thesis
  proof cases
    case (no_client reason evs'' err)
    then show ?thesis using assms(2) active(1) by (simp add: failing_run_no_oci)
  next
    case (existing pre evs'')
    then have c: "Oci c \<in> set evs''" using assms(2) active(1) by simp
    from existing(4) show ?thesis
      by cases (use c assms(3) active(1-4) existing(1-3) in \<open>auto intro!: exI [of _ x] exI [of _ pre]\<close>)
  next
    case (new pre evs'')
    then have "Oci c \<in> set evs''" using assms(2) active(1) by simp
    from new_run_oci [OF new(4) this] assms(3) show ?thesis by auto
  qed
qed (use assms in auto)

lemma run_one_oci_call: "reconcile_run D ext req out evs \<Longrightarrow> length (oci_calls evs) \<le> 1"
  by (auto simp: failing_run_no_oci
      elim!: reconcile_runE deletion_runE active_runE existing_runE new_runE)

lemma run_created_id:
  assumes "reconcile_run D ext req out evs" "Oci c \<in> set evs" "d_kind D c = Create (Inr (Some i))"
  shows "\<exists>y a res. last evs = KStatusUpdate (d_record D i y) a \<and> d_request D y c \<and>
     out = written res a \<and> 0 < RequeueAfter res"
  using assms(1)
proof cases
  case (deleting x evs')
  then show ?thesis using assms deletion_run_oci [of D ext x out evs' c] by auto
next
  case (active x evs')
  then show ?thesis using assms
    by (auto elim!: active_runE existing_runE new_runE dest: failing_run_no_oci)
qed (use assms in auto)

lemma run_created_without_id:
  assumes "reconcile_run D ext req out evs" "Oci c \<in> set evs" "d_kind D c = Create (Inr None)"
  shows "out = Panicked \<and> last evs = Oci c"
  using assms(1)
proof cases
  case (deleting x evs')
  then show ?thesis using assms deletion_run_oci [of D ext x out evs' c] by auto
next
  case (active x evs')
  then show ?thesis using assms
    by (auto elim!: active_runE existing_runE new_runE dest: failing_run_no_oci)
qed (use assms in auto)

lemma run_gave_up:
  assumes "reconcile_run D ext req out evs" "hd evs = KGet req (Inr x)" "d_gave_up D x"
    "IsZero ext (d_deleted_at D x)" "ContainsFinalizer ext x (d_finalizer D)"
  shows "evs = [KGet req (Inr x)] \<and> out = Returned zeroResult None"
  using assms by (auto elim!: reconcile_runE)

text \<open>An object that records a remote id is only ever read or destroyed under that id.\<close>

lemma run_existing_calls:
  assumes "reconcile_run D ext req out evs" "hd evs = KGet req (Inr x)" "d_id D x \<noteq> ''''" "Oci c \<in> set evs"
  shows "\<exists>r. d_kind D c = Read (Some (d_id D x)) r \<or> d_kind D c = Destroy (Some (d_id D x)) r"
  using assms(1)
proof cases
  case (deleting z evs')
  then show ?thesis using assms(2-) deletion_run_oci [of D ext z out evs' c] by auto
next
  case (active z evs')
  then show ?thesis using assms(2-) active_run_oci [of D ext z out evs' c] by auto
qed (use assms in auto)

text \<open>Every status written comes from an object that the API server answered in the same run.\<close>

definition held :: "('r, 'o) Event list \<Rightarrow> 'r \<Rightarrow> bool" where
  "held evs x \<longleftrightarrow> (\<exists>k. KGet k (Inr x) \<in> set evs) \<or> (\<exists>y. KStatusUpdate y (Inr x) \<in> set evs)"

lemma heldI: "KGet k (Inr x) \<in> set evs \<Longrightarrow> held evs x" "KStatusUpdate y (Inr x) \<in> set evs \<Longrightarrow> held evs x"
  by (auto simp: held_def)

lemma failing_run_status:
  "failing_run D ext x reason out evs \<Longrightarrow> KStatusUpdate y a \<in> set evs \<Longrightarrow>
   \<exists>z k. KGet k (Inr z) \<in> set evs \<and> y = d_fail D reason z"
  by (auto elim!: failing_runE)

lemma run_status_writes:
  assumes "reconcile_run D ext req out evs" "KStatusUpdate y a \<in> set evs"
  shows "\<exists>x. held evs x \<and> (y = d_start D x \<or> (\<exists>i. y = d_record D i x) \<or> (\<exists>r. y = d_fail D r x) \<or> (\<exists>c. d_sync D c x y) \<and> d_id D x \<noteq> '''')"
  using assms(1)
proof cases
  case (deleting x evs')
  then show ?thesis using assms by (auto elim!: deletion_runE)
next
  case (active x evs')
  from active(5) show ?thesis
  proof cases
    case (no_client reason evs'' err)
    then show ?thesis
      using assms(2) active(1) failing_run_status [OF no_client(2)] by (fastforce intro: heldI)
  next
    case (existing pre evs'')
    from existing(4) show ?thesis
      by cases (use assms(2) active(1) existing in \<open>auto intro!: exI [of _ x] heldI(1)\<close>)
  next
    case (new pre evs'')
    from new(4) show ?thesis
    proof cases
      case (create_failed z c err reason evs3)
      then show ?thesis
        using assms(2) active(1) new failing_run_status [OF create_failed(4)] by (fastforce intro: heldI)
    qed (use assms(2) active(1) new in \<open>fastforce intro: heldI\<close>)+
  qed
qed (use assms(2) in auto)

text \<open>A fetched object that is to be created is.\<close>

lemma run_attempts:
  assumes "reconcile_run D ext req out evs" "hd evs = KGet req (Inr x)" "IsZero ext (d_deleted_at D x)"
    "ContainsFinalizer ext x (d_finalizer D)" "\<not> d_gave_up D x" "d_id D x = ''''"
  shows "(\<exists>err rest. evs = KGet req (Inr x) # SdkClient (Some err) # rest) \<or>
    (\<exists>pre. sdk_prefix pre \<and>
       ((\<exists>err. evs = KGet req (Inr x) # pre @ [KStatusUpdate (d_start D x) (Inl err)]) \<or>
        (\<exists>y c k rest. evs = KGet req (Inr x) # pre @ KStatusUpdate (d_start D x) (Inr y) # Oci c # rest \<and>
           d_request D y c \<and> d_kind D c = Create k)))"
proof -
  from assms obtain evs' where e: "evs = KGet req (Inr x) # evs'" "active_run D ext x out evs'"
    by (cases rule: reconcile_run.cases) auto
  from e(2) show ?thesis
  proof cases
    case (new pre evs'')
    from new(4) show ?thesis using new(1,3) e(1) by cases blast+
  qed (use e(1) assms(6) in auto)
qed

text \<open>When a run ends quietly (no error, no retry), the reason is on record: the object is gone, its
  finalizers were written, the guard held, or its failure was written to the API server.\<close>

lemma run_quiet:
  assumes "reconcile_run D ext req (Returned res None) evs" "RequeueAfter res = 0"
  shows "(\<exists>err. evs = [KGet req (Inl err)] \<and> IsNotFound ext err) \<or>
    (\<exists>x. hd evs = KGet req (Inr x) \<and>
       (evs = [KGet req (Inr x)] \<and> (d_gave_up D x \<or> \<not> ContainsFinalizer ext x (d_finalizer D)) \<or>
        (\<exists>y z. last evs = KUpdate y (Inr z)) \<or>
        (\<exists>reason y z. last evs = KStatusUpdate (d_fail D reason y) (Inr z))))"
proof -
  have w: "Returned res None = written res' a \<longleftrightarrow> res' = res \<and> (\<exists>x. a = Inr x)" for res' and a :: "go_error + 'z"
    by (cases a) auto
  show ?thesis using assms
    by (auto simp: w elim!: reconcile_runE deletion_runE active_runE existing_runE new_runE failing_runE)
      blast+
qed

section \<open>Bookkeeping\<close>

text \<open>How a metric is to call an answer and the end of a run; a run that panics has reported no error.\<close>

fun answer_label :: "go_error + 'a \<Rightarrow> string" where
  "answer_label (Inl err) = ''error''"
| "answer_label (Inr x) = ''success''"

lemma result_label_answer [simp]: "result_label = answer_label"
proof
  show "result_label a = answer_label a" for a :: "go_error + 'a"
    by (cases a) (simp_all add: metricResultError_def metricResultSuccess_def)
qed

fun run_failed :: "Outcome \<Rightarrow> bool" where
  "run_failed (Returned res (Some err)) = True"
| "run_failed (Returned res None) = False"
| "run_failed Panicked = False"

lemma outcome_label_run: "outcome_label out = (if run_failed out then ''error'' else ''success'')"
  by (cases out rule: run_failed.cases) (simp_all add: metricResultError_def metricResultSuccess_def)

text \<open>\<open>kept labels s t\<close>: from \<open>s\<close> to \<open>t\<close> the history grew, each OCI call in it was measured once, a
  client once held was kept, and no reconcile was counted yet.\<close>

definition kept ::
    "('o \<Rightarrow> string \<times> string \<times> string) \<Rightarrow> ('w, 'r, 'o, 'c) Sys \<Rightarrow> ('w, 'r, 'o, 'c) Sys \<Rightarrow> bool" where
  "kept labels s t \<longleftrightarrow>
     (\<exists>evs obs. calls t = calls s @ evs \<and> ociAPICallDuration t = ociAPICallDuration s @ obs \<and>
        map fst obs = map labels (oci_calls evs)) \<and>
     (\<forall>c. ociClient s = Some c \<longrightarrow> ociClient t = Some c) \<and> reconcileTotal t = reconcileTotal s"

lemma kept_trans: "kept labels s t \<Longrightarrow> kept labels t u \<Longrightarrow> kept labels s u"
  unfolding kept_def
proof (elim conjE exE)
  fix evs obs evs' obs'
  assume "calls t = calls s @ evs" "ociAPICallDuration t = ociAPICallDuration s @ obs"
    "map fst obs = map labels (oci_calls evs)"
    "calls u = calls t @ evs'" "ociAPICallDuration u = ociAPICallDuration t @ obs'"
    "map fst obs' = map labels (oci_calls evs')"
    "\<forall>c. ociClient s = Some c \<longrightarrow> ociClient t = Some c" "reconcileTotal t = reconcileTotal s"
    "\<forall>c. ociClient t = Some c \<longrightarrow> ociClient u = Some c" "reconcileTotal u = reconcileTotal t"
  then show "(\<exists>evs obs. calls u = calls s @ evs \<and> ociAPICallDuration u = ociAPICallDuration s @ obs \<and>
        map fst obs = map labels (oci_calls evs)) \<and>
     (\<forall>c. ociClient s = Some c \<longrightarrow> ociClient u = Some c) \<and> reconcileTotal u = reconcileTotal s"
    by (intro conjI exI [of _ "evs @ evs'"] exI [of _ "obs @ obs'"]) simp_all
qed

lemma kept_after:
  "post m (\<lambda>_ t. kept labels s' t) s' \<Longrightarrow> kept labels s s' \<Longrightarrow> post m (\<lambda>_ t. kept labels s t) s'"
  by (erule post_mono) (rule kept_trans)

lemma kept_counter: "kept labels s t \<Longrightarrow> reconcileTotal t = reconcileTotal s"
  by (simp add: kept_def)

text \<open>The deferred count of a reconciler, after a body that keeps the books.\<close>

lemma kept_then_counted:
  assumes "post m (\<lambda>_ t. kept labels s t) s"
  shows "post (do { out \<leftarrow> m; inc_reconcileTotal l (outcome_label out); State_Monad.return out })
    (\<lambda>out t. \<exists>u. kept labels s u \<and> t = u\<lparr>reconcileTotal := (reconcileTotal s)
        ((l, outcome_label out) := Suc (reconcileTotal s (l, outcome_label out)))\<rparr>) s"
proof -
  have "post m (\<lambda>out t. \<exists>u. kept labels s u \<and>
      t\<lparr>reconcileTotal := (reconcileTotal t)((l, outcome_label out) :=
        Suc (reconcileTotal t (l, outcome_label out)))\<rparr> =
      u\<lparr>reconcileTotal := (reconcileTotal s)((l, outcome_label out) :=
        Suc (reconcileTotal s (l, outcome_label out)))\<rparr>) s"
    using assms
  proof (rule post_mono)
    fix out t
    assume k: "kept labels s t"
    show "\<exists>u. kept labels s u \<and>
      t\<lparr>reconcileTotal := (reconcileTotal t)((l, outcome_label out) :=
        Suc (reconcileTotal t (l, outcome_label out)))\<rparr> =
      u\<lparr>reconcileTotal := (reconcileTotal s)((l, outcome_label out) :=
        Suc (reconcileTotal s (l, outcome_label out)))\<rparr>"
      by (rule exI [of _ t]) (simp add: k kept_counter [OF k])
  qed
  then show ?thesis by simp
qed

section \<open>What follows from the contract alone\<close>

locale reconciler =
  fixes D :: "('r, 'o) Descriptor"
    and reconcile :: "('w, 'r, 'c) Ext \<Rightarrow> NamespacedName \<Rightarrow> (('w, 'r, 'o, 'c) Sys, Outcome) state"
    and label :: string
    and labels :: "'o \<Rightarrow> string \<times> string \<times> string"
  assumes refines: "emits (reconcile ext req) s (reconcile_run D ext req)"
    and books: "post (reconcile ext req) (\<lambda>out t. \<exists>u. kept labels s u \<and>
      t = u\<lparr>reconcileTotal := (reconcileTotal s)
        ((label, outcome_label out) := Suc (reconcileTotal s (label, outcome_label out)))\<rparr>) s"
begin

lemma run_of: "reconcile_run D ext req (outcome (reconcile ext req) s) (events (reconcile ext req) s)"
  by (rule emits_run [OF refines])

lemma history_grows: "calls (final (reconcile ext req) s) = calls s @ events (reconcile ext req) s"
  by (rule emits_calls [OF refines])

lemma create_guarded:
  assumes "Oci c \<in> set (events (reconcile ext req) s)" "d_kind D c = Create r"
  shows "\<exists>x pre y rest. sdk_prefix pre \<and> oci_calls rest = [] \<and>
     events (reconcile ext req) s =
       KGet req (Inr x) # pre @ [KStatusUpdate (d_start D x) (Inr y), Oci c] @ rest \<and>
     d_id D x = '''' \<and> d_request D y c \<and> IsZero ext (d_deleted_at D x) \<and>
     ContainsFinalizer ext x (d_finalizer D) \<and> \<not> d_gave_up D x"
  using run_create [OF run_of assms] .

lemma destroy_guarded:
  assumes "Oci c \<in> set (events (reconcile ext req) s)" "d_kind D c = Destroy i r"
  shows "\<exists>x evs. events (reconcile ext req) s = KGet req (Inr x) # evs \<and> i = Some (d_id D x) \<and>
     d_id D x \<noteq> '''' \<and> \<not> IsZero ext (d_deleted_at D x) \<and> ContainsFinalizer ext x (d_finalizer D)"
  using run_destroy [OF run_of assms] .

lemma updates_guarded:
  assumes "KUpdate y a \<in> set (events (reconcile ext req) s)"
  shows "\<exists>x. hd (events (reconcile ext req) s) = KGet req (Inr x) \<and>
     (IsZero ext (d_deleted_at D x) \<and> \<not> ContainsFinalizer ext x (d_finalizer D) \<and>
        y = AddFinalizer ext x (d_finalizer D) \<or>
      \<not> IsZero ext (d_deleted_at D x) \<and> ContainsFinalizer ext x (d_finalizer D) \<and>
        y = RemoveFinalizer ext x (d_finalizer D) \<and>
        (d_id D x = '''' \<or>
         (\<exists>c. Oci c \<in> set (events (reconcile ext req) s) \<and> d_kind D c = Destroy (Some (d_id D x)) None)))"
  using run_update [OF run_of assms] .

lemma created_id:
  assumes "Oci c \<in> set (events (reconcile ext req) s)" "d_kind D c = Create (Inr (Some i))"
  shows "\<exists>y a res. last (events (reconcile ext req) s) = KStatusUpdate (d_record D i y) a \<and>
     d_request D y c \<and> outcome (reconcile ext req) s = written res a \<and> 0 < RequeueAfter res"
  using run_created_id [OF run_of assms] .

lemma created_without_id:
  "Oci c \<in> set (events (reconcile ext req) s) \<Longrightarrow> d_kind D c = Create (Inr None) \<Longrightarrow>
   outcome (reconcile ext req) s = Panicked \<and> last (events (reconcile ext req) s) = Oci c"
  by (rule run_created_without_id [OF run_of])

lemma given_up:
  assumes "hd (events (reconcile ext req) s) = KGet req (Inr x)" "d_gave_up D x"
    "IsZero ext (d_deleted_at D x)" "ContainsFinalizer ext x (d_finalizer D)"
  shows "events (reconcile ext req) s = [KGet req (Inr x)] \<and>
    outcome (reconcile ext req) s = Returned zeroResult None"
  using run_gave_up [OF run_of assms] .

lemma remote_read:
  assumes "Oci c \<in> set (events (reconcile ext req) s)" "d_kind D c = Read i r"
  shows "\<exists>x pre. sdk_prefix pre \<and> i = Some (d_id D x) \<and> d_id D x \<noteq> '''' \<and>
    IsZero ext (d_deleted_at D x) \<and> ContainsFinalizer ext x (d_finalizer D) \<and> \<not> d_gave_up D x \<and>
    (case r of Some err \<Rightarrow> events (reconcile ext req) s = KGet req (Inr x) # pre @ [Oci c] \<and>
        (\<exists>res. RequeueAfter res = 30 * Second \<and> outcome (reconcile ext req) s = Returned res (Some err))
     | None \<Rightarrow> \<exists>y a. d_sync D c x y \<and> events (reconcile ext req) s = KGet req (Inr x) # pre @ [Oci c, KStatusUpdate y a] \<and>
        (case a of Inl err \<Rightarrow> outcome (reconcile ext req) s = Returned zeroResult (Some err)
         | Inr z \<Rightarrow> \<exists>res. RequeueAfter res = d_again D c z \<and> outcome (reconcile ext req) s = Returned res None))"
  by (rule run_read [OF run_of assms])

lemma existing_calls:
  "hd (events (reconcile ext req) s) = KGet req (Inr x) \<Longrightarrow> d_id D x \<noteq> '''' \<Longrightarrow>
   Oci c \<in> set (events (reconcile ext req) s) \<Longrightarrow>
   \<exists>r. d_kind D c = Read (Some (d_id D x)) r \<or> d_kind D c = Destroy (Some (d_id D x)) r"
  by (rule run_existing_calls [OF run_of])

lemma status_writes:
  "KStatusUpdate y a \<in> set (events (reconcile ext req) s) \<Longrightarrow>
   \<exists>x. held (events (reconcile ext req) s) x \<and>
     (y = d_start D x \<or> (\<exists>i. y = d_record D i x) \<or> (\<exists>r. y = d_fail D r x) \<or> (\<exists>c. d_sync D c x y) \<and> d_id D x \<noteq> '''')"
  by (rule run_status_writes [OF run_of])

lemma creation_attempted:
  assumes "hd (events (reconcile ext req) s) = KGet req (Inr x)" "IsZero ext (d_deleted_at D x)"
    "ContainsFinalizer ext x (d_finalizer D)" "\<not> d_gave_up D x" "d_id D x = ''''"
  shows "(\<exists>err rest. events (reconcile ext req) s = KGet req (Inr x) # SdkClient (Some err) # rest) \<or>
    (\<exists>pre. sdk_prefix pre \<and>
       ((\<exists>err. events (reconcile ext req) s = KGet req (Inr x) # pre @ [KStatusUpdate (d_start D x) (Inl err)]) \<or>
        (\<exists>y c k rest. events (reconcile ext req) s =
             KGet req (Inr x) # pre @ KStatusUpdate (d_start D x) (Inr y) # Oci c # rest \<and>
           d_request D y c \<and> d_kind D c = Create k)))"
  using run_attempts [OF run_of assms] .

lemma quiet:
  assumes "outcome (reconcile ext req) s = Returned res None" "RequeueAfter res = 0"
  shows "(\<exists>err. events (reconcile ext req) s = [KGet req (Inl err)] \<and> IsNotFound ext err) \<or>
    (\<exists>x. hd (events (reconcile ext req) s) = KGet req (Inr x) \<and>
       (events (reconcile ext req) s = [KGet req (Inr x)] \<and>
          (d_gave_up D x \<or> \<not> ContainsFinalizer ext x (d_finalizer D)) \<or>
        (\<exists>y z. last (events (reconcile ext req) s) = KUpdate y (Inr z)) \<or>
        (\<exists>reason y z. last (events (reconcile ext req) s) = KStatusUpdate (d_fail D reason y) (Inr z))))"
proof (rule run_quiet [OF _ assms(2)])
  show "reconcile_run D ext req (Returned res None) (events (reconcile ext req) s)"
    using run_of [of ext req s] by (simp add: assms(1))
qed

lemma counted:
  "\<exists>obs. calls (final (reconcile ext req) s) = calls s @ events (reconcile ext req) s \<and>
     length (oci_calls (events (reconcile ext req) s)) \<le> 1 \<and>
     ociAPICallDuration (final (reconcile ext req) s) = ociAPICallDuration s @ obs \<and>
     map fst obs = map labels (oci_calls (events (reconcile ext req) s)) \<and>
     reconcileTotal (final (reconcile ext req) s) = (reconcileTotal s)
       ((label, outcome_label (outcome (reconcile ext req) s)) :=
         Suc (reconcileTotal s (label, outcome_label (outcome (reconcile ext req) s))))"
proof -
  from books [of ext req s] obtain u where
    u: "kept labels s u" and t: "final (reconcile ext req) s = u\<lparr>reconcileTotal := (reconcileTotal s)
        ((label, outcome_label (outcome (reconcile ext req) s)) :=
           Suc (reconcileTotal s (label, outcome_label (outcome (reconcile ext req) s))))\<rparr>"
    unfolding post_outcome by blast
  from u obtain evs obs where "calls u = calls s @ evs" "ociAPICallDuration u = ociAPICallDuration s @ obs"
    "map fst obs = map labels (oci_calls evs)" unfolding kept_def by blast
  moreover from this t history_grows [of ext req s] have "events (reconcile ext req) s = evs" by simp
  ultimately show ?thesis using t run_one_oci_call [OF run_of] by auto
qed

lemma client_kept: "ociClient s = Some c \<Longrightarrow> ociClient (final (reconcile ext req) s) = Some c"
  using books [of ext req s] unfolding post_outcome kept_def by auto

end

end
