(* ===== verification/Histories.thy ===== *)
theory Histories
  imports Protocol
begin

text \<open>
  Sequences of reconciles of one object, and what an API server with optimistic concurrency answers
  to them. \<open>served\<close> is a law about histories: reads may be stale, other clients may write in between,
  but a write goes through only if it carries the resource version of the current object. The locale
  \<open>tracked_reconciler\<close> extends \<open>reconciler\<close> by what its status writes do to resource version and remote
  id, and bounds the number of remote objects that any sequence of reconciles creates.
\<close>

section \<open>Sequences of reconciles\<close>

text \<open>The work queue hands one key to \<open>Reconcile\<close> again and again, never twice at the same time.\<close>

fun reconciles :: "('s, 'a) state \<Rightarrow> nat \<Rightarrow> ('s, 'a list) state" where
  "reconciles m 0 = State_Monad.return []"
| "reconciles m (Suc n) = do { out \<leftarrow> m; outs \<leftarrow> reconciles m n; State_Monad.return (out # outs) }"

lemma final_reconciles [simp]:
  "final (reconciles m 0) s = s"
  "final (reconciles m (Suc n)) s = final (reconciles m n) (final m s)"
  by (simp_all add: final_def split: prod.splits)

lemma outcome_reconciles [simp]:
  "outcome (reconciles m 0) s = []"
  "outcome (reconciles m (Suc n)) s = outcome m s # outcome (reconciles m n) (final m s)"
  by (simp_all add: outcome_def final_def split: prod.splits)

declare reconciles.simps [simp del]

section \<open>Optimistic concurrency\<close>

text \<open>
  \<open>vs\<close> lists the versions of the object so far, the current one last; \<open>rv\<close> reads the resource version,
  \<open>rid\<close> what is kept of the status (the remote id, or all of it). Other clients never write
  the status. A write that changes nothing is answered with the current version. A status write that is
  answered with an error may have gone through all the same: its answer was lost. (For a write of the object
  this is no different from a write of another client.)
\<close>

definition others_write :: "('r \<Rightarrow> string) \<Rightarrow> ('r \<Rightarrow> 'k) \<Rightarrow> 'r list \<Rightarrow> 'r list \<Rightarrow> bool" where
  "others_write rv rid vs vs' \<longleftrightarrow> (\<exists>ws. vs' = vs @ ws \<and> distinct (map rv vs') \<and>
     (\<forall>w\<in>set ws. rid w = rid (last vs)))"

definition committed :: "('r \<Rightarrow> string) \<Rightarrow> 'r list \<Rightarrow> 'r \<Rightarrow> 'r list \<Rightarrow> bool" where
  "committed rv vs z vs' \<longleftrightarrow> z = last vs \<and> vs' = vs \<or> rv z \<notin> rv ` set vs \<and> vs' = vs @ [z]"

fun answered ::
    "('r \<Rightarrow> string) \<Rightarrow> ('r \<Rightarrow> 'k) \<Rightarrow> 'r list \<Rightarrow> ('r, 'o) Event \<Rightarrow> 'r list \<Rightarrow> bool" where
  "answered rv rid vs (KGet k (Inr x)) vs' \<longleftrightarrow> x \<in> set vs \<and> vs' = vs"
| "answered rv rid vs (KStatusUpdate y (Inr z)) vs' \<longleftrightarrow>
     rv y = rv (last vs) \<and> rid z = rid y \<and> committed rv vs z vs'"
| "answered rv rid vs (KUpdate y (Inr z)) vs' \<longleftrightarrow>
     rv y = rv (last vs) \<and> rid z = rid (last vs) \<and> committed rv vs z vs'"
| "answered rv rid vs (KStatusUpdate y (Inl err)) vs' \<longleftrightarrow>
     vs' = vs \<or> rv y = rv (last vs) \<and> (\<exists>z. rid z = rid y \<and> committed rv vs z vs')"
| "answered rv rid vs _ vs' \<longleftrightarrow> vs' = vs"

fun served ::
    "('r \<Rightarrow> string) \<Rightarrow> ('r \<Rightarrow> 'k) \<Rightarrow> 'r list \<Rightarrow> ('r, 'o) Event list \<Rightarrow> 'r list \<Rightarrow> bool" where
  "served rv rid vs [] vs' \<longleftrightarrow> others_write rv rid vs vs'"
| "served rv rid vs (e # es) vs' \<longleftrightarrow>
     (\<exists>vs1 vs2. others_write rv rid vs vs1 \<and> answered rv rid vs1 e vs2 \<and> served rv rid vs2 es vs')"

definition proper :: "('r \<Rightarrow> string) \<Rightarrow> 'r list \<Rightarrow> bool" where
  "proper rv vs \<longleftrightarrow> vs \<noteq> [] \<and> distinct (map rv vs)"

lemma proper_same: "proper rv vs \<Longrightarrow> x \<in> set vs \<Longrightarrow> y \<in> set vs \<Longrightarrow> rv x = rv y \<Longrightarrow> x = y"
  by (auto simp: proper_def distinct_map dest: inj_onD)

lemma others_write_proper:
  "others_write rv rid vs vs' \<Longrightarrow> proper rv vs \<Longrightarrow>
   proper rv vs' \<and> set vs \<subseteq> set vs' \<and> rid (last vs') = rid (last vs)"
  by (auto simp: others_write_def proper_def last_append)

lemma others_write_refl: "proper rv vs \<Longrightarrow> others_write rv rid vs vs"
  by (simp add: others_write_def proper_def)

lemma committed_proper:
  "committed rv vs z vs' \<Longrightarrow> proper rv vs \<Longrightarrow>
   proper rv vs' \<and> set vs \<subseteq> set vs' \<and> last vs' = z \<and> z \<in> set vs'"
  by (auto simp: committed_def proper_def)

lemma answered_proper:
  "answered rv rid vs e vs' \<Longrightarrow> proper rv vs \<Longrightarrow> proper rv vs' \<and> set vs \<subseteq> set vs'"
  by (induction rv rid vs e vs' rule: answered.induct) (auto dest: committed_proper)

lemma served_proper:
  "served rv rid vs es vs' \<Longrightarrow> proper rv vs \<Longrightarrow> proper rv vs' \<and> set vs \<subseteq> set vs'"
proof (induction es arbitrary: vs)
  case Nil
  then show ?case by (auto dest: others_write_proper)
next
  case (Cons e es)
  then obtain vs1 vs2 where "others_write rv rid vs vs1" "answered rv rid vs1 e vs2"
    "served rv rid vs2 es vs'" by auto
  then show ?case
    using others_write_proper [of rv rid vs vs1] answered_proper [of rv rid vs1 e vs2] Cons by blast
qed

lemma served_append:
  assumes "served rv rid vs (es @ fs) vs'" "proper rv vs"
  shows "\<exists>vm. served rv rid vs es vm \<and> served rv rid vm fs vs'"
  using assms
proof (induction es arbitrary: vs)
  case Nil
  then show ?case by (auto intro!: exI [of _ vs] others_write_refl)
next
  case (Cons e es)
  then show ?case by (fastforce dest: others_write_proper answered_proper)
qed

lemma served_step:
  "proper rv vs \<Longrightarrow> answered rv rid vs e vs2 \<Longrightarrow> served rv rid vs2 es vs' \<Longrightarrow> served rv rid vs (e # es) vs'"
  by (auto intro: others_write_refl)

lemma served_get: "proper rv vs \<Longrightarrow> x \<in> set vs \<Longrightarrow> served rv rid vs es vs' \<Longrightarrow>
    served rv rid vs (KGet k (Inr x) # es) vs'"
  by (rule served_step) simp_all

lemma served_status: "proper rv vs \<Longrightarrow> rv y = rv (last vs) \<Longrightarrow> rid z = rid y \<Longrightarrow> rv z \<notin> rv ` set vs \<Longrightarrow>
    served rv rid (vs @ [z]) es vs' \<Longrightarrow> served rv rid vs (KStatusUpdate y (Inr z) # es) vs'"
  by (rule served_step) (simp_all add: committed_def)

lemma served_silent: "proper rv vs \<Longrightarrow> served rv rid vs es vs' \<Longrightarrow> served rv rid vs (SdkClient e # es) vs'"
    "proper rv vs \<Longrightarrow> served rv rid vs es vs' \<Longrightarrow> served rv rid vs (Oci c # es) vs'"
  by (rule served_step; simp)+

lemmas served_intros = served_get served_status served_silent

lemma served_done: "proper rv vs \<Longrightarrow> served rv rid vs [] vs"
  by (simp add: others_write_refl)

section \<open>Histories of the status\<close>

text \<open>
  The new versions follow the old ones by steps of \<open>R\<close> on what \<open>st\<close> reads: from the last old version on,
  each version is a step away from the one before it, or reads the same.
\<close>

definition follows :: "('r \<Rightarrow> 'k) \<Rightarrow> ('k \<Rightarrow> 'k \<Rightarrow> bool) \<Rightarrow> 'r list \<Rightarrow> 'r list \<Rightarrow> bool" where
  "follows st R vs vs' \<longleftrightarrow> (\<exists>ws. vs' = vs @ ws \<and>
     successively (\<lambda>x y. st x = st y \<or> R (st x) (st y)) (last vs # ws))"

lemma follows_refl [simp, intro]: "follows st R vs vs"
  by (simp add: follows_def)

lemma follows_trans:
  assumes "follows st R vs vs'" "follows st R vs' vs''" "vs \<noteq> []"
  shows "follows st R vs vs''"
proof -
  let ?P = "\<lambda>x y. st x = st y \<or> R (st x) (st y)"
  obtain ws us where w: "vs' = vs @ ws" "successively ?P (last vs # ws)"
    and u: "vs'' = vs' @ us" "successively ?P (last vs' # us)" using assms(1,2) by (auto simp: follows_def)
  have "last vs' = last (last vs # ws)" using w(1) assms(3) by simp
  with u(2) have "us = [] \<or> ?P (last (last vs # ws)) (hd us) \<and> successively ?P us" by (simp add: successively_Cons)
  with w(2) have "successively ?P ((last vs # ws) @ us)"
    unfolding successively_append_iff by (cases "us = []") auto
  then show ?thesis using w(1) u(1) by (auto simp: follows_def)
qed

lemma follows_others: "others_write rv st vs vs' \<Longrightarrow> follows st R vs vs'"
proof -
  have "successively (\<lambda>x y. st x = st y \<or> R (st x) (st y)) (x # ws)" if "\<forall>w\<in>set ws. st w = st x" for x ws
    using that by (induction ws arbitrary: x) auto
  then show "others_write rv st vs vs' \<Longrightarrow> follows st R vs vs'" by (auto simp: others_write_def follows_def)
qed

lemma follows_committed:
  "committed rv vs z vs' \<Longrightarrow> st (last vs) = st z \<or> R (st (last vs)) (st z) \<Longrightarrow> follows st R vs vs'"
  by (auto simp: committed_def follows_def)

lemma follows_eq:
  assumes "follows st (=) vs vs'" "vs \<noteq> []"
  shows "st (last vs') = st (last vs)"
proof -
  have same: "st (last (x # ws)) = st x" if "successively (\<lambda>x y. st x = st y \<or> st x = st y) (x # ws)" for x ws
    using that by (induction ws arbitrary: x) auto
  obtain ws where "vs' = vs @ ws" "successively (\<lambda>x y. st x = st y \<or> st x = st y) (last vs # ws)"
    using assms(1) by (auto simp: follows_def)
  then show ?thesis using same [of "last vs" ws] assms(2) by (cases "ws = []") auto
qed

text \<open>
  Every status that \<open>es\<close> writes is one step of \<open>R\<close> away from that of an object answered before (\<open>seen\<close>),
  and goes out under its version. What follows a write may count on it that the server stored it.
\<close>

fun learnt :: "'r set \<Rightarrow> ('r, 'o) Event \<Rightarrow> 'r set" where
  "learnt seen (KGet k (Inr x)) = insert x seen"
| "learnt seen (KStatusUpdate y (Inr z)) = insert z seen"
| "learnt seen _ = seen"

fun derivable :: "('r \<Rightarrow> string) \<Rightarrow> ('r \<Rightarrow> 'k) \<Rightarrow> ('k \<Rightarrow> 'k \<Rightarrow> bool) \<Rightarrow> 'r set \<Rightarrow> ('r, 'o) Event \<Rightarrow> bool" where
  "derivable rv st R seen (KStatusUpdate y a) \<longleftrightarrow> (\<exists>x\<in>seen. rv y = rv x \<and> R (st x) (st y))"
| "derivable rv st R seen _ \<longleftrightarrow> True"

fun stored :: "('r \<Rightarrow> 'k) \<Rightarrow> ('r, 'o) Event \<Rightarrow> bool" where
  "stored st (KStatusUpdate y (Inr z)) \<longleftrightarrow> st z = st y"
| "stored st _ \<longleftrightarrow> True"

fun derived :: "('r \<Rightarrow> string) \<Rightarrow> ('r \<Rightarrow> 'k) \<Rightarrow> ('k \<Rightarrow> 'k \<Rightarrow> bool) \<Rightarrow> 'r set \<Rightarrow> ('r, 'o) Event list \<Rightarrow> bool" where
  "derived rv st R seen [] \<longleftrightarrow> True"
| "derived rv st R seen (e # es) \<longleftrightarrow>
     derivable rv st R seen e \<and> (stored st e \<longrightarrow> derived rv st R (learnt seen e) es)"

declare derivable.simps(1) [simp del]

lemma derivable_status:
  "x \<in> seen \<Longrightarrow> rv y = rv x \<Longrightarrow> R (st x) (st y) \<Longrightarrow> derivable rv st R seen (KStatusUpdate y a)"
  by (auto simp: derivable.simps(1))

lemma derivable_other [simp]: "derivable rv st R seen (KUpdate y a)" "stored st (KUpdate y a)"
  by (cases a; simp)+

lemma written_back:
  assumes "answered rv st vs (KStatusUpdate y (Inr z)) vs'" "proper rv vs" "x \<in> set vs" "rv y = rv x"
  shows "x = last vs \<and> st z = st y \<and> last vs' = z \<and> z \<in> set vs'"
proof -
  have "last vs \<in> set vs" using assms(2) by (simp add: proper_def)
  then have "x = last vs" using assms by (auto intro: proper_same)
  then show ?thesis using assms committed_proper by fastforce
qed

lemma lost_answer:
  assumes "answered rv st vs (KStatusUpdate y (Inl err)) vs'" "proper rv vs" "x \<in> set vs" "rv y = rv x"
  shows "vs' = vs \<or> x = last vs \<and> (\<exists>z. st z = st y \<and> committed rv vs z vs')"
proof -
  have "last vs \<in> set vs" using assms(2) by (simp add: proper_def)
  then show ?thesis using assms by (auto intro: proper_same)
qed

lemma derivable_follows:
  assumes "answered rv st vs e vs'" "proper rv vs" "seen \<subseteq> set vs" "derivable rv st R seen e"
  shows "follows st R vs vs' \<and> learnt seen e \<subseteq> set vs' \<and> stored st e"
  using assms
proof (induction rv st vs e vs' rule: answered.induct)
  case (2 rv st vs y z vs')
  from 2(4) obtain x where x: "x \<in> seen" "rv y = rv x" "R (st x) (st y)" by (auto simp: derivable.simps(1))
  then have "x = last vs \<and> st z = st y \<and> z \<in> set vs'" using written_back [OF 2(1,2), of x] 2(3) by auto
  with x 2(1) answered_proper [OF 2(1,2)] 2(3) show ?case by (auto intro: follows_committed)
next
  case (4 rv st vs y err vs')
  from 4(4) obtain x where x: "x \<in> seen" "rv y = rv x" "R (st x) (st y)" by (auto simp: derivable.simps(1))
  then have "vs' = vs \<or> x = last vs \<and> (\<exists>z. st z = st y \<and> committed rv vs z vs')"
    using lost_answer [OF 4(1,2), of x] 4(3) by auto
  with x answered_proper [OF 4(1,2)] 4(3) show ?case by (auto intro: follows_committed)
qed (auto dest: committed_proper intro: follows_committed)

lemma derived_follows:
  "derived rv st R seen es \<Longrightarrow> served rv st vs es vs' \<Longrightarrow> proper rv vs \<Longrightarrow> seen \<subseteq> set vs \<Longrightarrow>
   follows st R vs vs'"
proof (induction es arbitrary: vs seen)
  case Nil
  then show ?case by (auto intro: follows_others)
next
  case (Cons e es)
  from Cons(3) obtain vs1 vs2 where v: "others_write rv st vs vs1" "answered rv st vs1 e vs2"
    "served rv st vs2 es vs'" by auto
  have p1: "proper rv vs1" "seen \<subseteq> set vs1" using others_write_proper [OF v(1) Cons(4)] Cons(5) by auto
  then have p2: "proper rv vs2" using answered_proper [OF v(2)] by blast
  have d: "follows st R vs1 vs2" "learnt seen e \<subseteq> set vs2" "stored st e"
    using derivable_follows [OF v(2) p1] Cons(2) by auto
  have "follows st R vs2 vs'" using Cons(1) [OF _ v(3) p2 d(2)] Cons(2) d(3) by simp
  from follows_trans [OF d(1) this] have "follows st R vs1 vs'" using p1 by (simp add: proper_def)
  from follows_trans [OF follows_others [OF v(1)] this] show ?case using Cons(4) by (simp add: proper_def)
qed

lemma derived_keeps:
  "derived rv st (=) seen es \<Longrightarrow> served rv st vs es vs' \<Longrightarrow> proper rv vs \<Longrightarrow> seen \<subseteq> set vs \<Longrightarrow>
   st (last vs') = st (last vs)"
  by (rule follows_eq [OF derived_follows]) (auto simp: proper_def)

section \<open>How often a remote object is created\<close>

fun made :: "oci_kind \<Rightarrow> bool" where
  "made (Create (Inr (Some i))) \<longleftrightarrow> i \<noteq> ''''"
| "made _ \<longleftrightarrow> False"

definition creations :: "('r, 'o) Descriptor \<Rightarrow> ('r, 'o) Event list \<Rightarrow> nat" where
  "creations D evs = length (filter (\<lambda>c. made (d_kind D c)) (oci_calls evs))"

lemma creations_append [simp]: "creations D (es @ fs) = creations D es + creations D fs"
  by (simp add: creations_def)

fun failed_write :: "('r, 'o) Event \<Rightarrow> bool" where
  "failed_write (KStatusUpdate y (Inl err)) \<longleftrightarrow> True"
| "failed_write _ \<longleftrightarrow> False"

definition failed_writes :: "('r, 'o) Event list \<Rightarrow> nat" where
  "failed_writes evs = length (filter failed_write evs)"

lemma failed_writes_append [simp]: "failed_writes (es @ fs) = failed_writes es + failed_writes fs"
  by (simp add: failed_writes_def)

definition recorded :: "('r \<Rightarrow> string) \<Rightarrow> 'r list \<Rightarrow> nat" where
  "recorded rid vs = (if rid (last vs) = '''' then 0 else 1)"

lemma sdk_prefix_derived [simp]: "sdk_prefix pre \<Longrightarrow> derived rv st R seen (pre @ es) = derived rv st R seen es"
  by (auto simp: sdk_prefix_def)

lemma sdk_prefix_creations [simp]: "sdk_prefix pre \<Longrightarrow> creations D pre = 0"
  by (simp add: creations_def)

text \<open>A list of runs for one key, each with its outcome and its events.\<close>

definition run_list ::
    "('r, 'o) Descriptor \<Rightarrow> ('w, 'r, 'c) Ext \<Rightarrow> NamespacedName \<Rightarrow> (Outcome \<times> ('r, 'o) Event list) list \<Rightarrow> bool" where
  "run_list D ext req runs \<longleftrightarrow> list_all (\<lambda>(out, evs). reconcile_run D ext req out evs) runs"

lemma run_list_Cons:
  "run_list D ext req (run # runs) \<longleftrightarrow> reconcile_run D ext req (fst run) (snd run) \<and> run_list D ext req runs"
  by (simp add: run_list_def split: prod.splits)

locale tracked_reconciler = reconciler +
  fixes rv :: "'a \<Rightarrow> string"
  assumes start_tracked: "rv (d_start D x) = rv x" "d_id D (d_start D x) = d_id D x"
    and record_tracked: "d_id D (d_record D i x) = i"
    and fail_tracked: "rv (d_fail D reason x) = rv x" "d_id D (d_fail D reason x) = d_id D x"
    and sync_tracked: "d_sync D c x y \<Longrightarrow> rv y = rv x \<and> d_id D y = d_id D x"
begin

lemma fail_derivable: "derivable rv (d_id D) (=) (insert y seen) (KStatusUpdate (d_fail D reason y) a)"
  by (rule derivable_status [of y]) (simp_all add: fail_tracked)

lemma sync_derivable: "d_sync D c x y \<Longrightarrow> x \<in> seen \<Longrightarrow> derivable rv (d_id D) (=) seen (KStatusUpdate y a)"
  by (rule derivable_status [of x]) (simp_all add: sync_tracked)

lemma failing_derived:
  "failing_run D ext x reason out evs \<Longrightarrow> derived rv (d_id D) (=) seen evs \<and> creations D evs = 0"
  by (auto elim!: failing_runE simp: creations_def fail_derivable)

lemma deletion_derived:
  "deletion_run D ext x out evs \<Longrightarrow> derived rv (d_id D) (=) seen evs \<and> creations D evs = 0"
  by (auto elim!: deletion_runE simp: creations_def)

lemma existing_derived:
  "existing_run D x out evs \<Longrightarrow> x \<in> seen \<Longrightarrow> derived rv (d_id D) (=) seen evs \<and> creations D evs = 0"
  by (auto elim!: existing_runE simp: creations_def sync_derivable)

lemma start_derivable: "x \<in> seen \<Longrightarrow> derivable rv (d_id D) (=) seen (KStatusUpdate (d_start D x) a)"
  by (rule derivable_status [of x]) (simp_all add: start_tracked)

text \<open>A run that creates an object and learns its id.\<close>

definition creating :: "'a \<Rightarrow> ('a, 'b) Event list \<Rightarrow> bool" where
  "creating x evs \<longleftrightarrow> (\<exists>pre y c i a. sdk_prefix pre \<and> d_kind D c = Create (Inr (Some i)) \<and> d_id D x = '''' \<and>
     evs = pre @ [KStatusUpdate (d_start D x) (Inr y), Oci c, KStatusUpdate (d_record D i y) a])"

lemma new_derived:
  assumes "new_run D ext x out evs" "x \<in> seen" "d_id D x = ''''" "sdk_prefix pre"
  shows "derived rv (d_id D) (=) seen (pre @ evs) \<and> creations D (pre @ evs) = 0 \<or> creating x (pre @ evs)"
  using assms(1)
proof cases
  case (start_failed err)
  then show ?thesis using assms by (simp add: start_derivable creations_def)
next
  case (create_failed y c err reason evs')
  then show ?thesis
    using assms failing_derived [OF create_failed(4)] by (auto simp: start_derivable start_tracked creations_def)
next
  case (created_without_id y c)
  then show ?thesis using assms by (auto simp: start_derivable start_tracked creations_def)
next
  case (created y c i res a)
  then show ?thesis using assms by (auto simp: creating_def)
qed

lemma run_derived:
  assumes "reconcile_run D ext req out evs"
  shows "derived rv (d_id D) (=) {} evs \<and> creations D evs = 0 \<or>
    (\<exists>x evs'. evs = KGet req (Inr x) # evs' \<and> creating x evs')"
  using assms
proof cases
  case (deleting x evs')
  then show ?thesis using deletion_derived [OF deleting(3)] by (simp add: creations_def)
next
  case (active x evs')
  from active(5) show ?thesis
  proof cases
    case (no_client reason evs'' err)
    then show ?thesis using failing_derived [OF no_client(2)] active(1) by (simp add: creations_def)
  next
    case (existing pre evs'')
    then show ?thesis using existing_derived [OF existing(4), of "{x}"] active(1) by (simp add: creations_def)
  next
    case (new pre evs'')
    then show ?thesis using new_derived [OF new(4) _ new(2,3), of "{x}"] active(1) by (auto simp: creations_def)
  qed
qed (simp_all add: creations_def)

text \<open>The start write goes through only if the object read was current, so no id was recorded.\<close>

lemma start_accepted:
  assumes "served rv (d_id D) vs (pre @ [KStatusUpdate (d_start D x) (Inr y) :: ('a, 'b) Event]) vm"
    "proper rv vs" "x \<in> set vs" "d_id D x = ''''" "sdk_prefix pre"
  shows "proper rv vm \<and> recorded (d_id D) vs = 0"
proof -
  let ?start = "[KStatusUpdate (d_start D x) (Inr y)] :: ('a, 'b) Event list"
  have d: "derived rv (d_id D) (=) {x} (pre @ ?start)" using assms(5) by (simp add: start_derivable)
  have same: "d_id D (last vm) = d_id D (last vs)"
    using derived_keeps [OF d assms(1,2)] assms(3) by simp
  obtain v1 where v1: "served rv (d_id D) vs pre v1" "served rv (d_id D) v1 ?start vm"
    using served_append [OF assms(1,2)] by blast
  with served_proper assms(2,3) have p1: "proper rv v1" "x \<in> set v1" by blast+
  from v1(2) obtain v2 v3 where v: "others_write rv (d_id D) v1 v2"
    "answered rv (d_id D) v2 (KStatusUpdate (d_start D x) (Inr y) :: ('a, 'b) Event) v3"
    "others_write rv (d_id D) v3 vm" by (auto simp del: answered.simps(2))
  have p2: "proper rv v2" "x \<in> set v2" using others_write_proper [OF v(1)] p1 by blast+
  have "d_id D (last v3) = ''''"
    using written_back [OF v(2) p2(1) p2(2)] start_tracked assms(4) by auto
  moreover have "proper rv v3" using answered_proper [OF v(2) p2(1)] by blast
  ultimately show ?thesis
    using others_write_proper [OF v(3)] same by (simp add: recorded_def)
qed

lemma record_accepted:
  assumes "served rv (d_id D) vm [Oci c :: ('a, 'b) Event, KStatusUpdate (d_record D i y) (Inr z)] vs'" "proper rv vm"
  shows "d_id D (last vs') = i"
proof -
  from assms(1) obtain v0 v1 v2 where w: "others_write rv (d_id D) vm v0" "others_write rv (d_id D) v0 v1"
    "answered rv (d_id D) v1 (KStatusUpdate (d_record D i y) (Inr z) :: ('a, 'b) Event) v2"
    "others_write rv (d_id D) v2 vs'"
    by (auto simp del: answered.simps(2))
  have p: "proper rv v1" using others_write_proper [OF w(2)] others_write_proper [OF w(1) assms(2)] by blast
  have "d_id D z = i" "last v2 = z" using w(3) committed_proper [OF _ p] by (auto simp: record_tracked)
  moreover have "proper rv v2" using answered_proper [OF w(3) p] by blast
  ultimately show ?thesis using others_write_proper [OF w(4)] by simp
qed

text \<open>If the answer is an error, the write may have gone through or not.\<close>

lemma recorded_or_not:
  assumes "served rv (d_id D) vm [Oci c :: ('a, 'b) Event, KStatusUpdate (d_record D i y) a] vs'" "proper rv vm"
  shows "d_id D (last vs') \<in> {d_id D (last vm), i}"
proof (cases a)
  case (Inr z)
  then show ?thesis using record_accepted assms by blast
next
  case (Inl err)
  from assms(1) obtain v0 v1 v2 where w: "others_write rv (d_id D) vm v0" "others_write rv (d_id D) v0 v1"
    "answered rv (d_id D) v1 (KStatusUpdate (d_record D i y) (Inl err) :: ('a, 'b) Event) v2"
    "others_write rv (d_id D) v2 vs'"
    unfolding Inl by (auto simp del: answered.simps(4))
  have p: "proper rv v1" "d_id D (last v1) = d_id D (last vm)"
    using others_write_proper [OF w(2)] others_write_proper [OF w(1) assms(2)] by auto
  have "proper rv v2" using answered_proper [OF w(3) p(1)] by blast
  moreover have "d_id D (last v2) \<in> {d_id D (last vm), i}"
    using w(3) p committed_proper [OF _ p(1)] by (auto simp: record_tracked)
  ultimately show ?thesis using others_write_proper [OF w(4)] by simp
qed

lemma creating_bound:
  assumes "creating x evs" "served rv (d_id D) vs evs vs'" "proper rv vs" "x \<in> set vs"
  shows "creations D evs + recorded (d_id D) vs \<le> failed_writes evs + recorded (d_id D) vs'"
proof -
  from assms(1) obtain pre y c i a where e: "sdk_prefix pre" "d_kind D c = Create (Inr (Some i))"
    "d_id D x = ''''" "evs = (pre @ [KStatusUpdate (d_start D x) (Inr y)]) @
      [Oci c, KStatusUpdate (d_record D i y) a]"
    unfolding creating_def by auto
  obtain vm where vm: "served rv (d_id D) vs (pre @ [KStatusUpdate (d_start D x) (Inr y) :: ('a, 'b) Event]) vm"
    "served rv (d_id D) vm [Oci c, KStatusUpdate (d_record D i y) a] vs'"
    using served_append [OF assms(2) [unfolded e(4)] assms(3)] by blast
  note start = start_accepted [OF vm(1) assms(3,4) e(3,1)]
  have many: "creations D evs = (if i = '''' then 0 else 1)" using e by (simp add: creations_def)
  show ?thesis
  proof (cases a)
    case (Inl err)
    then have "failed_writes evs = 1" using e by (auto simp: failed_writes_def sdk_prefix_def)
    then show ?thesis using start many by simp
  next
    case (Inr z)
    then show ?thesis using record_accepted vm(2) start many by (auto simp: recorded_def)
  qed
qed

lemma run_bound:
  assumes "reconcile_run D ext req out evs" "served rv (d_id D) vs evs vs'" "proper rv vs"
  shows "creations D evs + recorded (d_id D) vs \<le> failed_writes evs + recorded (d_id D) vs'"
  using run_derived [OF assms(1)]
proof
  assume a: "derived rv (d_id D) (=) {} evs \<and> creations D evs = 0"
  then have "d_id D (last vs') = d_id D (last vs)" using derived_keeps [OF _ assms(2,3)] by blast
  then show ?thesis using a by (simp add: recorded_def)
next
  assume "\<exists>x evs'. evs = KGet req (Inr x) # evs' \<and> creating x evs'"
  then obtain x evs' where e: "evs = KGet req (Inr x) # evs'" "creating x evs'" by blast
  with assms(2) obtain v1 where v: "others_write rv (d_id D) vs v1" "x \<in> set v1"
    "served rv (d_id D) v1 evs' vs'" by auto
  note p = others_write_proper [OF v(1) assms(3)]
  have "creations D evs' + recorded (d_id D) v1 \<le> failed_writes evs' + recorded (d_id D) vs'"
    using creating_bound [OF e(2) v(3) _ v(2)] p by blast
  then show ?thesis using e p by (simp add: creations_def failed_writes_def recorded_def)
qed

text \<open>A recorded id stays: a creating run starts from an object without one.\<close>

lemma creating_unrecorded:
  assumes "creating x evs" "served rv (d_id D) vs evs vs'" "proper rv vs" "x \<in> set vs"
  shows "d_id D (last vs) = ''''"
proof -
  from assms(1) obtain pre y c i a where e: "sdk_prefix pre" "d_id D x = ''''"
    "evs = (pre @ [KStatusUpdate (d_start D x) (Inr y)]) @ [Oci c, KStatusUpdate (d_record D i y) a]"
    unfolding creating_def by auto
  obtain vm where "served rv (d_id D) vs (pre @ [KStatusUpdate (d_start D x) (Inr y) :: ('a, 'b) Event]) vm"
    using served_append [OF assms(2) [unfolded e(3)] assms(3)] by blast
  from start_accepted [OF this assms(3,4) e(2,1)] show ?thesis by (simp add: recorded_def split: if_splits)
qed

lemma run_keeps_id:
  assumes "reconcile_run D ext req out evs" "served rv (d_id D) vs evs vs'" "proper rv vs" "d_id D (last vs) \<noteq> ''''"
  shows "d_id D (last vs') = d_id D (last vs)"
  using run_derived [OF assms(1)]
proof
  assume "derived rv (d_id D) (=) {} evs \<and> creations D evs = 0"
  then show ?thesis using derived_keeps [OF _ assms(2,3)] by blast
next
  assume "\<exists>x evs'. evs = KGet req (Inr x) # evs' \<and> creating x evs'"
  then obtain x evs' where e: "evs = KGet req (Inr x) # evs'" "creating x evs'" by blast
  with assms(2) obtain v1 where v: "others_write rv (d_id D) vs v1" "x \<in> set v1"
    "served rv (d_id D) v1 evs' vs'" by auto
  note p = others_write_proper [OF v(1) assms(3)]
  then show ?thesis using creating_unrecorded [OF e(2) v(3) _ v(2)] assms(4) by simp
qed

text \<open>
  Over any list of runs for one key, each object created beyond the first is paid for by a status write
  that failed, and a recorded id stays. What happens between the runs does not matter: the process may
  do other work, or be restarted.
\<close>

lemma served_runs:
  assumes "served rv (d_id D) vs (concat (map snd (run # runs))) vs'" "proper rv vs"
  obtains vm where "served rv (d_id D) vs (snd run) vm" "proper rv vm"
    "served rv (d_id D) vm (concat (map snd runs)) vs'"
proof -
  from assms obtain vm where v: "served rv (d_id D) vs (snd run) vm" "served rv (d_id D) vm (concat (map snd runs)) vs'"
    using served_append [of rv "d_id D" vs "snd run"] by auto
  with served_proper [OF v(1) assms(2)] show ?thesis by (intro that) auto
qed

lemma runs_bound:
  "run_list D ext req runs \<Longrightarrow> served rv (d_id D) vs (concat (map snd runs)) vs' \<Longrightarrow> proper rv vs \<Longrightarrow>
   creations D (concat (map snd runs)) + recorded (d_id D) vs \<le>
   failed_writes (concat (map snd runs)) + recorded (d_id D) vs'"
proof (induction runs arbitrary: vs)
  case Nil
  then show ?case by (auto simp: creations_def failed_writes_def recorded_def dest: others_write_proper)
next
  case (Cons run runs)
  obtain vm where v: "served rv (d_id D) vs (snd run) vm" "proper rv vm"
    "served rv (d_id D) vm (concat (map snd runs)) vs'" by (rule served_runs [OF Cons.prems(2,3)])
  from Cons.prems(1) have r: "reconcile_run D ext req (fst run) (snd run)" "run_list D ext req runs"
    by (simp_all add: run_list_Cons)
  from run_bound [OF r(1) v(1) Cons.prems(3)] Cons.IH [OF r(2) v(3,2)] show ?case by simp
qed

lemma runs_created_once:
  assumes "run_list D ext req runs" "served rv (d_id D) vs (concat (map snd runs)) vs'" "proper rv vs"
  shows "creations D (concat (map snd runs)) \<le> Suc (failed_writes (concat (map snd runs)))"
proof -
  have "recorded (d_id D) vs' \<le> 1" by (simp add: recorded_def)
  then show ?thesis using runs_bound [OF assms] by simp
qed

lemma runs_keep_id:
  "run_list D ext req runs \<Longrightarrow> served rv (d_id D) vs (concat (map snd runs)) vs' \<Longrightarrow> proper rv vs \<Longrightarrow>
   d_id D (last vs) \<noteq> '''' \<Longrightarrow> d_id D (last vs') = d_id D (last vs)"
proof (induction runs arbitrary: vs)
  case Nil
  then show ?case by (auto dest: others_write_proper)
next
  case (Cons run runs)
  obtain vm where v: "served rv (d_id D) vs (snd run) vm" "proper rv vm"
    "served rv (d_id D) vm (concat (map snd runs)) vs'" by (rule served_runs [OF Cons.prems(2,3)])
  from Cons.prems(1) have r: "reconcile_run D ext req (fst run) (snd run)" "run_list D ext req runs"
    by (simp_all add: run_list_Cons)
  from run_keeps_id [OF r(1) v(1) Cons.prems(3,4)] Cons.IH [OF r(2) v(3,2)] Cons.prems(4) show ?case by simp
qed

text \<open>In particular for one key reconciled again and again.\<close>

lemma many_history: "\<exists>evs. calls (final (reconciles (reconcile ext req) n) s) = calls s @ evs"
proof (induction n arbitrary: s)
  case 0
  then show ?case by simp
next
  case (Suc n)
  from Suc [of "final (reconcile ext req) s"] show ?case by (auto simp: history_grows)
qed

lemma many_events:
  "events (reconciles (reconcile ext req) (Suc n)) s =
   events (reconcile ext req) s @ events (reconciles (reconcile ext req) n) (final (reconcile ext req) s)"
proof -
  from many_history [of ext req n "final (reconcile ext req) s"] obtain evs where
    "calls (final (reconciles (reconcile ext req) n) (final (reconcile ext req) s)) =
     calls s @ events (reconcile ext req) s @ evs" by (auto simp: history_grows)
  then show ?thesis
    unfolding events_def [of "reconciles m k" for m k] by (simp add: history_grows)
qed

lemma many_runs:
  "\<exists>runs. run_list D ext req runs \<and> events (reconciles (reconcile ext req) n) s = concat (map snd runs)"
proof (induction n arbitrary: s)
  case 0
  show ?case by (rule exI [of _ "[]"]) (simp add: run_list_def events_def)
next
  case (Suc n)
  obtain runs where "run_list D ext req runs"
    "events (reconciles (reconcile ext req) n) (final (reconcile ext req) s) = concat (map snd runs)"
    using Suc by blast
  then show ?case
    by (intro exI [of _ "(outcome (reconcile ext req) s, events (reconcile ext req) s) # runs"])
      (simp add: run_list_Cons many_events run_of)
qed

lemma created_once:
  assumes "served rv (d_id D) vs (events (reconciles (reconcile ext req) n) s) vs'" "proper rv vs"
  shows "creations D (events (reconciles (reconcile ext req) n) s) \<le>
    Suc (failed_writes (events (reconciles (reconcile ext req) n) s))"
  using many_runs [of ext req n s] runs_created_once assms by auto

lemma many_keep_id:
  "served rv (d_id D) vs (events (reconciles (reconcile ext req) n) s) vs' \<Longrightarrow> proper rv vs \<Longrightarrow>
   d_id D (last vs) \<noteq> '''' \<Longrightarrow> d_id D (last vs') = d_id D (last vs)"
  using many_runs [of ext req n s] runs_keep_id by auto

end

end
