(* ===== verification/Strconv.thy ===== *)
theory Strconv
  imports Prelude
begin

text \<open>
  \<open>strconv.ParseFloat(s, 32)\<close> of Go's standard library, which the instance controller applies to the
  \<open>OCPUs\<close> and \<open>MemoryInGBs\<close> strings of a spec. A float32 is its exact value: sign, mantissa and
  binary exponent. The text is read as Go's \<open>readFloat\<close> reads it (sign, decimal or hexadecimal
  digits, underscores between digits, an exponent whose digits stop counting at 10000), its value is
  kept as an exact fraction, and that fraction is rounded once, to the nearest float32 and to the
  even mantissa on a tie. The conversion of the result to \<open>float32\<close> in the controller is exact.
\<close>

section \<open>Float32 values and rounding\<close>

text \<open>\<open>F32_Fin neg m e\<close> is plus or minus \<open>m * 2 ^ e\<close>.\<close>

datatype f32 = F32_NaN | F32_Inf bool | F32_Fin bool nat int

datatype num_error = ErrSyntax | ErrRange

definition f32_zero :: f32 where "f32_zero = F32_Fin False 0 (-149)"

fun bits :: "nat \<Rightarrow> nat" where
  "bits n = (if n = 0 then 0 else Suc (bits (n div 2)))"

declare bits.simps [simp del]

definition round_half_even :: "nat \<Rightarrow> nat \<Rightarrow> nat" where
  "round_half_even n d =
     (let q = n div d; r = n mod d in
      if 2 * r < d then q else if d < 2 * r then Suc q else if even q then q else Suc q)"

text \<open>Numerator and denominator of \<open>n / (d * 2 ^ e)\<close>.\<close>

definition scale_num :: "nat \<Rightarrow> int \<Rightarrow> nat" where
  "scale_num n e = (if 0 \<le> e then n else n * 2 ^ nat (- e))"

definition scale_den :: "nat \<Rightarrow> int \<Rightarrow> nat" where
  "scale_den d e = (if 0 \<le> e then d * 2 ^ nat e else d)"

text \<open>The exponent of the leading binary digit of \<open>n / d\<close>.\<close>

definition log2_frac :: "nat \<Rightarrow> nat \<Rightarrow> int" where
  "log2_frac n d =
     (let g = int (bits n) - int (bits d) in
      if scale_den d g \<le> scale_num n g then g else g - 1)"

definition f32_exponent :: "nat \<Rightarrow> nat \<Rightarrow> int" where
  "f32_exponent n d = max (-149) (log2_frac n d - 23)"

definition round_f32 :: "bool \<Rightarrow> nat \<Rightarrow> nat \<Rightarrow> f32" where
  "round_f32 neg n d =
     (if n = 0 then F32_Fin neg 0 (-149)
      else let e = f32_exponent n d;
               m = round_half_even (scale_num n e) (scale_den d e);
               (m, e) = (if m = 2 ^ 24 then (2 ^ 23, e + 1) else (m, e))
           in if 104 < e then F32_Inf neg else F32_Fin neg m e)"

section \<open>Reading the text\<close>

definition lower :: "char \<Rightarrow> char" where
  "lower c = (if 65 \<le> (of_char c :: nat) \<and> (of_char c :: nat) \<le> 90
              then char_of ((of_char c :: nat) + 32) else c)"

definition dec_digit :: "char \<Rightarrow> nat option" where
  "dec_digit c = (let n = (of_char c :: nat) in if 48 \<le> n \<and> n \<le> 57 then Some (n - 48) else None)"

definition hex_digit :: "char \<Rightarrow> nat option" where
  "hex_digit c = (case dec_digit c of Some v \<Rightarrow> Some v | None \<Rightarrow>
     (let n = (of_char (lower c) :: nat) in if 97 \<le> n \<and> n \<le> 102 then Some (n - 87) else None))"

text \<open>The mantissa: digits seen, their value, how many stand after the point, and the rest.\<close>

fun scan_mantissa ::
    "bool \<Rightarrow> bool \<Rightarrow> bool \<Rightarrow> nat \<Rightarrow> nat \<Rightarrow> string \<Rightarrow> bool \<times> nat \<times> nat \<times> string" where
  "scan_mantissa hex dot seen m frac [] = (seen, m, frac, [])"
| "scan_mantissa hex dot seen m frac (c # cs) =
     (if c = CHR ''_'' then scan_mantissa hex dot seen m frac cs
      else if c = CHR ''.'' then
        (if dot then (seen, m, frac, c # cs) else scan_mantissa hex True seen m frac cs)
      else case (if hex then hex_digit c else dec_digit c) of
        None \<Rightarrow> (seen, m, frac, c # cs)
      | Some v \<Rightarrow> scan_mantissa hex dot True ((if hex then 16 else 10) * m + v)
          (if dot then Suc frac else frac) cs)"

fun scan_exp_digits :: "nat \<Rightarrow> string \<Rightarrow> nat \<times> string" where
  "scan_exp_digits e [] = (e, [])"
| "scan_exp_digits e (c # cs) =
     (if c = CHR ''_'' then scan_exp_digits e cs
      else case dec_digit c of
        None \<Rightarrow> (e, c # cs)
      | Some v \<Rightarrow> scan_exp_digits (if e < 10000 then 10 * e + v else e) cs)"

text \<open>The optional exponent: \<open>None\<close> is a syntax error.\<close>

definition scan_exponent :: "bool \<Rightarrow> string \<Rightarrow> (int \<times> string) option" where
  "scan_exponent hex cs = (case cs of
     [] \<Rightarrow> if hex then None else Some (0, [])
   | c # cs' \<Rightarrow>
       if lower c \<noteq> (if hex then CHR ''p'' else CHR ''e'') then (if hex then None else Some (0, cs))
       else
         (let (sgn, ds) = (case cs' of
             [] \<Rightarrow> (1, [])
           | x # xs \<Rightarrow> if x = CHR ''+'' then (1, xs) else if x = CHR ''-'' then (-1, xs) else (1, cs'))
          in case ds of
            [] \<Rightarrow> None
          | d # _ \<Rightarrow> if dec_digit d = None then None
              else (let (e, rest) = scan_exp_digits 0 ds in Some (sgn * int e, rest))))"

text \<open>\<open>underscoreOK\<close>: underscores separate digits only, or follow the base prefix. \<open>saw\<close> is the
  previous class of character: \<open>CHR ''0''\<close> a digit, \<open>CHR ''_''\<close> an underscore, else other.\<close>

fun underscore_scan :: "bool \<Rightarrow> char \<Rightarrow> string \<Rightarrow> bool" where
  "underscore_scan hex saw [] \<longleftrightarrow> saw \<noteq> CHR ''_''"
| "underscore_scan hex saw (c # cs) \<longleftrightarrow>
     (if (if hex then hex_digit c else dec_digit c) \<noteq> None then underscore_scan hex (CHR ''0'') cs
      else if c = CHR ''_'' then saw = CHR ''0'' \<and> underscore_scan hex (CHR ''_'') cs
      else saw \<noteq> CHR ''_'' \<and> underscore_scan hex (CHR ''!'') cs)"

definition strip_sign :: "string \<Rightarrow> bool \<times> string" where
  "strip_sign s = (case s of
     [] \<Rightarrow> (False, [])
   | c # cs \<Rightarrow> if c = CHR ''-'' then (True, cs) else if c = CHR ''+'' then (False, cs) else (False, s))"

definition hex_prefix :: "string \<Rightarrow> bool" where
  "hex_prefix s = (case s of
     a # b # _ # _ \<Rightarrow> a = CHR ''0'' \<and> lower b = CHR ''x''
   | _ \<Rightarrow> False)"

definition underscoreOK :: "string \<Rightarrow> bool" where
  "underscoreOK s = (let (_, body) = strip_sign s in
     case body of
       a # b # cs \<Rightarrow>
         (if a = CHR ''0'' \<and> lower b \<in> {CHR ''b'', CHR ''o'', CHR ''x''}
          then underscore_scan (lower b = CHR ''x'') (CHR ''0'') cs
          else underscore_scan False (CHR ''^'') body)
     | _ \<Rightarrow> underscore_scan False (CHR ''^'') body)"

text \<open>The text as an exact fraction: sign, numerator, denominator. \<open>None\<close> is a syntax error.\<close>

definition read_float :: "string \<Rightarrow> (bool \<times> nat \<times> nat) option" where
  "read_float s =
     (let (neg, body) = strip_sign s;
          hex = hex_prefix body;
          (seen, m, frac, rest) = scan_mantissa hex False False 0 0 (if hex then drop 2 body else body)
      in if \<not> seen then None
         else case scan_exponent hex rest of
           None \<Rightarrow> None
         | Some (e, rest') \<Rightarrow>
             if rest' \<noteq> [] \<or> (CHR ''_'' \<in> set s \<and> \<not> underscoreOK s) then None
             else if m = 0 then Some (neg, 0, 1)
             else (let b = (if hex then 2 else 10) :: nat;
                       k = e - int (if hex then 4 * frac else frac)
                   in Some (neg, m * b ^ nat k, b ^ nat (- k))))"

text \<open>\<open>special\<close>: infinities and NaN, in any case of letters.\<close>

definition special_float :: "string \<Rightarrow> f32 option" where
  "special_float s =
     (let (neg, body) = strip_sign s; l = map lower body in
      if l = ''inf'' \<or> l = ''infinity'' then Some (F32_Inf neg)
      else if map lower s = ''nan'' then Some F32_NaN
      else None)"

definition ParseFloat32 :: "string \<Rightarrow> f32 \<times> num_error option" where
  "ParseFloat32 s = (case special_float s of
     Some v \<Rightarrow> (v, None)
   | None \<Rightarrow> (case read_float s of
       None \<Rightarrow> (f32_zero, Some ErrSyntax)
     | Some (neg, n, d) \<Rightarrow>
         (case round_f32 neg n d of
            F32_Inf b \<Rightarrow> (F32_Inf b, Some ErrRange)
          | v \<Rightarrow> (v, None))))"

section \<open>Rounding is correct\<close>

lemma bits_0 [simp]: "bits 0 = 0"
  by (simp add: bits.simps)

lemma bits_pos: "0 < n \<Longrightarrow> bits n = Suc (bits (n div 2))"
  by (subst bits.simps) simp

lemma bits_1 [simp]: "bits (Suc 0) = Suc 0" "bits 1 = 1"
  by (simp_all add: bits_pos)

lemma bits_bounds: "0 < n \<Longrightarrow> 2 ^ (bits n - 1) \<le> n \<and> n < 2 ^ bits n"
proof (induction n rule: bits.induct)
  case (1 n)
  show ?case
  proof (cases "n div 2 = 0")
    case True
    with 1 have "n = 1" by auto
    then show ?thesis by simp
  next
    case False
    then have IH: "2 ^ (bits (n div 2) - 1) \<le> n div 2" "n div 2 < 2 ^ bits (n div 2)"
      using 1 by auto
    from False have "0 < bits (n div 2)"
      by (simp add: bits_pos)
    then have "(2::nat) ^ bits (n div 2) = 2 * 2 ^ (bits (n div 2) - 1)"
      by (cases "bits (n div 2)") simp_all
    with IH have "2 ^ bits (n div 2) \<le> n" "n < 2 * 2 ^ bits (n div 2)"
      by linarith+
    then show ?thesis using 1 by (simp add: bits_pos)
  qed
qed

lemma bits_pos_iff [simp]: "0 < bits n \<longleftrightarrow> 0 < n"
  by (cases "n = 0") (simp_all add: bits_pos)

lemma bits_le: "n < 2 ^ k \<Longrightarrow> bits n \<le> k"
proof (cases "n = 0")
  case False
  assume n: "n < 2 ^ k"
  show ?thesis
  proof (rule ccontr)
    assume "\<not> bits n \<le> k"
    then have "(2::nat) ^ k \<le> 2 ^ (bits n - 1)" by (intro power_increasing) auto
    with bits_bounds [of n] False n show False by linarith
  qed
qed simp

lemma round_half_even_error:
  assumes "0 < d"
  shows "2 * \<bar>int (round_half_even n d) * int d - int n\<bar> \<le> int d"
proof -
  define q r where "q = n div d" and "r = n mod d"
  have n: "int n = int q * int d + int r"
    by (simp add: q_def r_def flip: of_nat_mult of_nat_add)
  have r: "r < d" using assms by (simp add: r_def)
  have "round_half_even n d = q \<and> 2 * r \<le> d \<or> round_half_even n d = Suc q \<and> d \<le> 2 * r"
    by (auto simp: round_half_even_def q_def r_def Let_def)
  then show ?thesis
  proof (elim disjE conjE)
    assume "round_half_even n d = q" "2 * r \<le> d"
    then show ?thesis by (simp add: n)
  next
    assume "round_half_even n d = Suc q" "d \<le> 2 * r"
    then have "int (round_half_even n d) * int d - int n = int d - int r"
      by (simp add: n algebra_simps)
    then show ?thesis using r \<open>d \<le> 2 * r\<close> by simp
  qed
qed

lemma round_half_even_exact: "0 < d \<Longrightarrow> round_half_even (q * d) d = q"
  by (simp add: round_half_even_def Let_def)

lemma round_half_even_le: "0 < d \<Longrightarrow> n \<le> k * d \<Longrightarrow> round_half_even n d \<le> k"
proof -
  assume d: "0 < d" and n: "n \<le> k * d"
  let ?q = "n div d"
  have nq: "n = ?q * d + n mod d" by simp
  show ?thesis
  proof (cases "?q < k")
    case True
    then show ?thesis by (auto simp: round_half_even_def Let_def)
  next
    case False
    then have "k * d \<le> ?q * d" by simp
    with n nq have "n mod d = 0" "?q * d = k * d" by linarith+
    then show ?thesis using d by (simp add: round_half_even_def Let_def)
  qed
qed

lemma scale_den_pos: "0 < d \<Longrightarrow> 0 < scale_den d e"
  by (simp add: scale_den_def)

text \<open>A power of two moves between numerator and denominator.\<close>

lemma scale_shift:
  "k \<ge> 0 \<Longrightarrow> scale_num n e * scale_den d (e + k) = scale_num n (e + k) * (scale_den d e * 2 ^ nat k)"
proof -
  assume k: "0 \<le> k"
  consider "0 \<le> e" | "e < 0" "0 \<le> e + k" | "e + k < 0" using k by linarith
  then show ?thesis
  proof cases
    case 1
    then have "nat (e + k) = nat e + nat k" using k by simp
    then show ?thesis using 1 k by (simp add: scale_num_def scale_den_def power_add)
  next
    case 2
    then have "nat k = nat (e + k) + nat (- e)" by simp
    then show ?thesis using 2 by (simp add: scale_num_def scale_den_def power_add)
  next
    case 3
    then have "nat (- e) = nat (- (e + k)) + nat k" using k by simp
    then show ?thesis using 3 k by (simp add: scale_num_def scale_den_def power_add)
  qed
qed

lemma scale_den_nonzero [simp]: "0 < d \<Longrightarrow> 0 < scale_den d e"
  by (rule scale_den_pos)

lemma log2_frac_upper:
  assumes n: "0 < n" and d: "0 < d"
  shows "scale_num n (log2_frac n d + 1) < scale_den d (log2_frac n d + 1)"
proof -
  define g where "g = int (bits n) - int (bits d)"
  show ?thesis
  proof (cases "scale_den d g \<le> scale_num n g")
    case False
    then show ?thesis by (simp add: log2_frac_def Let_def g_def)
  next
    case True
    then have L: "log2_frac n d = g" by (simp add: log2_frac_def Let_def g_def)
    have bn: "n < 2 ^ bits n" and bd: "2 ^ (bits d - 1) \<le> d"
      using bits_bounds n d by blast+
    have pos: "0 < bits d" "0 < bits n" using n d by simp_all
    show ?thesis
    proof (cases "0 \<le> g + 1")
      case True
      then have "bits n = (bits d - 1) + nat (g + 1)" using pos unfolding g_def by arith
      then have "(2::nat) ^ bits n = 2 ^ (bits d - 1) * 2 ^ nat (g + 1)"
        by (simp add: power_add)
      also have "\<dots> \<le> d * 2 ^ nat (g + 1)" using bd by simp
      finally show ?thesis using True bn by (simp add: L scale_num_def scale_den_def)
    next
      case False
      then have "bits d - 1 = bits n + nat (- (g + 1))" using pos unfolding g_def by arith
      then have "n * 2 ^ nat (- (g + 1)) < 2 ^ (bits d - 1)"
        using bn by (simp add: power_add)
      then show ?thesis using False bd by (simp add: L scale_num_def scale_den_def)
    qed
  qed
qed

lemma f32_mantissa_bound:
  assumes n: "0 < n" and d: "0 < d"
  shows "scale_num n (f32_exponent n d) \<le> 2 ^ 24 * scale_den d (f32_exponent n d)"
proof -
  define L e where "L = log2_frac n d + 1" and "e = f32_exponent n d"
  have up: "scale_num n L < scale_den d L" using log2_frac_upper [OF n d] by (simp add: L_def)
  have e: "L - 24 \<le> e" by (simp add: L_def e_def f32_exponent_def)
  have pos: "0 < scale_den d e" "0 < scale_den d L" using d by simp_all
  show ?thesis
  proof (cases "e \<le> L")
    case True
    have "scale_num n e * scale_den d L = scale_num n L * (scale_den d e * 2 ^ nat (L - e))"
      using scale_shift [of "L - e" n e d] True by simp
    also have "\<dots> \<le> scale_den d L * (scale_den d e * 2 ^ nat (L - e))"
      using up by (intro mult_le_mono1) simp
    also have "\<dots> \<le> scale_den d L * (scale_den d e * 2 ^ 24)"
      using e by (intro mult_le_mono2 power_increasing) auto
    finally have "scale_num n e * scale_den d L \<le> (2 ^ 24 * scale_den d e) * scale_den d L"
      by (simp add: mult.commute mult.left_commute)
    then show ?thesis using pos by (simp add: e_def)
  next
    case False
    have "scale_num n e * (scale_den d L * 2 ^ nat (e - L)) = scale_num n L * scale_den d e"
      using scale_shift [of "e - L" n L d] False by simp
    also have "\<dots> \<le> scale_den d L * scale_den d e" using up by simp
    also have "\<dots> \<le> (2 ^ 24 * scale_den d e) * (scale_den d L * 2 ^ nat (e - L))" by simp
    finally show ?thesis using pos by (simp add: e_def)
  qed
qed

lemma round_f32_cases:
  assumes "0 < n" and d: "0 < d" and r: "round_f32 neg n d = F32_Fin b m e"
  shows "b = neg \<and> e \<le> 104 \<and>
    (e = f32_exponent n d \<and> m = round_half_even (scale_num n e) (scale_den d e) \<and> m \<noteq> 2 ^ 24 \<or>
     e = f32_exponent n d + 1 \<and> m = 2 ^ 23 \<and>
       round_half_even (scale_num n (e - 1)) (scale_den d (e - 1)) = 2 ^ 24)"
  using assms by (auto simp: round_f32_def Let_def split: if_splits)

lemma round_f32_range:
  assumes d: "0 < d" and r: "round_f32 neg n d = F32_Fin b m e"
  shows "b = neg \<and> m < 2 ^ 24 \<and> -149 \<le> e \<and> e \<le> 104"
proof (cases "n = 0")
  case True
  then show ?thesis using r by (simp add: round_f32_def)
next
  case False
  then have n: "0 < n" by simp
  have "-149 \<le> f32_exponent n d" by (simp add: f32_exponent_def)
  moreover have "round_half_even (scale_num n (f32_exponent n d)) (scale_den d (f32_exponent n d)) \<le> 2 ^ 24"
    using f32_mantissa_bound [OF n d] d by (intro round_half_even_le) simp_all
  ultimately show ?thesis using round_f32_cases [OF n d r] by auto
qed

section \<open>Natural numbers in decimal\<close>

definition digit_char :: "nat \<Rightarrow> char" where
  "digit_char n = char_of (48 + n)"

fun decimal :: "nat \<Rightarrow> string" where
  "decimal n = (if n < 10 then [digit_char n] else decimal (n div 10) @ [digit_char (n mod 10)])"

declare decimal.simps [simp del]

lemma of_char_digit [simp]: "n < 10 \<Longrightarrow> (of_char (digit_char n) :: nat) = 48 + n"
  by (simp add: digit_char_def)

lemma dec_digit_digit_char [simp]: "n < 10 \<Longrightarrow> dec_digit (digit_char n) = Some n"
  by (simp add: dec_digit_def Let_def)

lemma dec_digit_other:
  "dec_digit c = Some v \<Longrightarrow> c \<noteq> CHR ''_'' \<and> c \<noteq> CHR ''.'' \<and> c \<noteq> CHR ''+'' \<and> c \<noteq> CHR ''-'' \<and> lower c = c"
  by (auto simp: dec_digit_def Let_def lower_def split: if_splits)

definition all_digits :: "string \<Rightarrow> bool" where
  "all_digits s \<longleftrightarrow> (\<forall>c \<in> set s. dec_digit c \<noteq> None)"

lemma decimal_all_digits: "all_digits (decimal n)"
proof (induction n rule: decimal.induct)
  case (1 n)
  then show ?case by (subst decimal.simps) (auto simp: all_digits_def)
qed

lemma decimal_nonempty [simp]: "decimal n \<noteq> []"
  by (subst decimal.simps) simp

lemma scan_mantissa_append:
  "all_digits xs \<Longrightarrow>
   scan_mantissa False False seen m 0 (xs @ ys) =
     scan_mantissa False False (seen \<or> xs \<noteq> []) (foldl (\<lambda>a c. 10 * a + the (dec_digit c)) m xs) 0 ys"
proof (induction xs arbitrary: seen m)
  case Nil
  then show ?case by simp
next
  case (Cons c cs)
  then obtain v where v: "dec_digit c = Some v" by (auto simp: all_digits_def)
  have "all_digits cs" using Cons.prems by (simp add: all_digits_def)
  then show ?case using Cons.IH dec_digit_other [OF v] v by simp
qed

lemma foldl_decimal: "foldl (\<lambda>a c. 10 * a + the (dec_digit c)) 0 (decimal n) = n"
proof (induction n rule: decimal.induct)
  case (1 n)
  then show ?case by (subst decimal.simps) (auto split: if_splits)
qed

lemma scan_decimal: "scan_mantissa False False False 0 0 (decimal n) = (True, n, 0, [])"
  using scan_mantissa_append [of "decimal n" False 0 "[]"]
  by (simp add: decimal_all_digits foldl_decimal)

lemma strip_sign_digits: "all_digits s \<Longrightarrow> strip_sign s = (False, s)"
  by (cases s) (auto simp: strip_sign_def all_digits_def dest: dec_digit_other)

lemma not_hex_digits: "all_digits s \<Longrightarrow> \<not> hex_prefix s"
proof
  assume s: "all_digits s" and h: "hex_prefix s"
  then obtain a b c ds where "s = a # b # c # ds" "lower b = CHR ''x''"
    by (auto simp: hex_prefix_def split: list.splits)
  with s show False
    by (auto simp: all_digits_def dec_digit_def Let_def lower_def split: if_splits)
qed

lemma special_digits: "all_digits s \<Longrightarrow> s \<noteq> [] \<Longrightarrow> special_float s = None"
proof -
  assume s: "all_digits s" "s \<noteq> []"
  then obtain c cs v where c: "s = c # cs" "dec_digit c = Some v"
    by (cases s) (auto simp: all_digits_def)
  have "lower c = c" using dec_digit_other [OF c(2)] by simp
  moreover have "c \<noteq> CHR ''i''" "c \<noteq> CHR ''n''"
    using c(2) by (auto simp: dec_digit_def Let_def split: if_splits)
  ultimately show ?thesis
    using strip_sign_digits [OF s(1)] c by (simp add: special_float_def Let_def)
qed

lemma read_float_decimal: "read_float (decimal n) = Some (False, n, 1)"
  using strip_sign_digits [OF decimal_all_digits [of n]] not_hex_digits [OF decimal_all_digits [of n]]
    decimal_all_digits [of n]
  by (auto simp: read_float_def Let_def scan_decimal scan_exponent_def all_digits_def
      dest: dec_digit_other)

definition f32_is_nat :: "f32 \<Rightarrow> nat \<Rightarrow> bool" where
  "f32_is_nat f n = (case f of
     F32_Fin neg m e \<Rightarrow> (m = 0 \<or> \<not> neg) \<and> (if 0 \<le> e then m * 2 ^ nat e = n else m = n * 2 ^ nat (- e))
   | _ \<Rightarrow> False)"

lemma log2_frac_nat: "0 < n \<Longrightarrow> log2_frac n 1 = int (bits n) - 1"
proof -
  assume n: "0 < n"
  have "0 < bits n" using n by simp
  then have "nat (int (bits n) - 1) = bits n - 1" "0 \<le> int (bits n) - 1" by arith+
  then show ?thesis
    using bits_bounds [OF n] by (simp add: log2_frac_def Let_def scale_den_def scale_num_def)
qed

lemma round_f32_small_nat:
  assumes n: "n < 2 ^ 24"
  shows "\<exists>m e. round_f32 False n 1 = F32_Fin False m e \<and> f32_is_nat (F32_Fin False m e) n"
proof (cases "n = 0")
  case True
  then show ?thesis by (simp add: round_f32_def f32_is_nat_def)
next
  case False
  then have pos: "0 < n" by simp
  have b: "0 < bits n" "bits n \<le> 24" using pos n bits_le by simp_all
  define e where "e = int (bits n) - 24"
  have e: "f32_exponent n 1 = e" using b log2_frac_nat [OF pos] by (simp add: f32_exponent_def e_def)
  have e0: "e \<le> 0" using b by (simp add: e_def)
  let ?m = "n * 2 ^ nat (- e)"
  have m: "round_half_even (scale_num n e) (scale_den 1 e) = ?m"
    using e0 round_half_even_exact [of 1] by (cases "e = 0") (simp_all add: scale_num_def scale_den_def)
  have "n < 2 ^ bits n" using bits_bounds [OF pos] by simp
  then have "?m < 2 ^ bits n * 2 ^ nat (- e)" by simp
  also have "\<dots> = 2 ^ (bits n + nat (- e))" by (simp add: power_add)
  also have "bits n + nat (- e) = 24" using b by (simp add: e_def)
  finally have lt: "?m < 2 ^ 24" .
  then have "round_f32 False n 1 = F32_Fin False ?m e"
    using pos e m e0 by (simp add: round_f32_def Let_def)
  moreover have "f32_is_nat (F32_Fin False ?m e) n"
    using e0 by (cases "e = 0") (simp_all add: f32_is_nat_def)
  ultimately show ?thesis by blast
qed

lemma ParseFloat32_decimal:
  assumes "n < 2 ^ 24"
  shows "snd (ParseFloat32 (decimal n)) = None \<and> f32_is_nat (fst (ParseFloat32 (decimal n))) n"
  using round_f32_small_nat [OF assms]
  by (auto simp: ParseFloat32_def special_digits decimal_all_digits read_float_decimal)


section \<open>What the parser returns\<close>

lemma read_float_den: "read_float s = Some (neg, n, d) \<Longrightarrow> 0 < d"
  by (auto simp: read_float_def Let_def split: prod.splits option.splits if_splits)

text \<open>Every finite result is a float32: 24 bits of mantissa, exponents from -149 to 104.\<close>

lemma ParseFloat32_range:
  assumes "fst (ParseFloat32 s) = F32_Fin neg m e"
  shows "m < 2 ^ 24 \<and> -149 \<le> e \<and> e \<le> 104"
proof (cases "special_float s")
  case (Some v)
  then show ?thesis using assms
    by (auto simp: ParseFloat32_def special_float_def Let_def split: prod.splits if_splits)
next
  case None
  show ?thesis
  proof (cases "read_float s")
    case None
    then show ?thesis using assms \<open>special_float s = None\<close>
      by (auto simp: ParseFloat32_def f32_zero_def)
  next
    case (Some a)
    obtain b n d where a: "a = (b, n, d)" by (cases a)
    then have "round_f32 b n d = F32_Fin neg m e"
      using assms Some None by (auto simp: ParseFloat32_def split: f32.splits)
    then show ?thesis using round_f32_range read_float_den Some a by blast
  qed
qed

text \<open>A text that is no number leaves zero, and the caller's \<open>_\<close> drops the error.\<close>

lemma ParseFloat32_syntax_error:
  "snd (ParseFloat32 s) = Some ErrSyntax \<Longrightarrow> fst (ParseFloat32 s) = f32_zero"
  by (auto simp: ParseFloat32_def split: option.splits f32.splits prod.splits)

end
