(* ===== verification/OciClients.thy ===== *)
theory OciClients
  imports Kube Strconv
begin

text \<open>
  \<open>internal/controller/oci_client.go\<close> and \<open>mock_oci_clients.go\<close>: the two OCI client interfaces and
  their mock implementations. An interface value is a record of its methods, each a function of
  the request and of the outside world. Of the SDK's request and response structs only the fields
  the operator reads or writes appear; a Go pointer is an \<open>option\<close>.
\<close>

section \<open>Compute\<close>

text \<open>The values of the SDK's lifecycle enum that the code names, and all the others.\<close>

datatype InstanceLifecycleState =
  InstanceLifecycleStateRunning
| InstanceLifecycleStateProvisioning
| InstanceLifecycleStateStarting
| InstanceLifecycleStateTerminating
| InstanceLifecycleStateTerminated
| InstanceLifecycleStateOther string

record CoreInstance =
  InstId :: "string option"
  InstLifecycleState :: InstanceLifecycleState

record LaunchInstanceShapeConfigDetails =
  Ocpus :: "f32 option"
  ShapeMemoryInGBs :: "f32 option"

record CreateVnicDetails =
  VnicSubnetId :: "string option"

record LaunchInstanceDetails =
  CompartmentId :: "string option"
  LaunchDisplayName :: "string option"
  LaunchShape :: "string option"
  ImageId :: "string option"
  LaunchAvailabilityDomain :: "string option"
  LaunchVnicDetails :: "CreateVnicDetails option"
  ShapeConfig :: "LaunchInstanceShapeConfigDetails option"
  LaunchFreeformTags :: string_map

record 'w OCIComputeClient =
  LaunchInstance :: "LaunchInstanceDetails \<Rightarrow> 'w \<Rightarrow> (go_error + CoreInstance) \<times> 'w"
  GetInstance :: "string option \<Rightarrow> 'w \<Rightarrow> (go_error + CoreInstance) \<times> 'w"
  TerminateInstance :: "string option \<Rightarrow> 'w \<Rightarrow> (go_error + unit) \<times> 'w"

datatype ComputeCall =
  LaunchCall LaunchInstanceDetails "go_error + CoreInstance"
| GetCall "string option" "go_error + CoreInstance"
| TerminateCall "string option" "go_error + unit"

record 'w MockComputeClient =
  LaunchInstanceFn :: "(LaunchInstanceDetails \<Rightarrow> 'w \<Rightarrow> (go_error + CoreInstance) \<times> 'w) option"
  GetInstanceFn :: "(string option \<Rightarrow> 'w \<Rightarrow> (go_error + CoreInstance) \<times> 'w) option"
  TerminateInstanceFn :: "(string option \<Rightarrow> 'w \<Rightarrow> (go_error + unit) \<times> 'w) option"

text \<open>The zero value of \<open>core.Instance\<close>: no id, empty lifecycle state.\<close>

definition zeroCoreInstance :: CoreInstance where
  "zeroCoreInstance = \<lparr>InstId = None, InstLifecycleState = InstanceLifecycleStateOther ''''\<rparr>"

definition Mock_LaunchInstance ::
    "'w MockComputeClient \<Rightarrow> LaunchInstanceDetails \<Rightarrow> 'w \<Rightarrow> (go_error + CoreInstance) \<times> 'w" where
  "Mock_LaunchInstance m request w = (case LaunchInstanceFn m of
     Some f \<Rightarrow> f request w
   | None \<Rightarrow> (Inr zeroCoreInstance, w))"

definition Mock_GetInstance ::
    "'w MockComputeClient \<Rightarrow> string option \<Rightarrow> 'w \<Rightarrow> (go_error + CoreInstance) \<times> 'w" where
  "Mock_GetInstance m request w = (case GetInstanceFn m of
     Some f \<Rightarrow> f request w
   | None \<Rightarrow> (Inr zeroCoreInstance, w))"

definition Mock_TerminateInstance ::
    "'w MockComputeClient \<Rightarrow> string option \<Rightarrow> 'w \<Rightarrow> (go_error + unit) \<times> 'w" where
  "Mock_TerminateInstance m request w = (case TerminateInstanceFn m of
     Some f \<Rightarrow> f request w
   | None \<Rightarrow> (Inr (), w))"

text \<open>A \<open>*MockComputeClient\<close> as a value of the interface.\<close>

definition mock_compute_client :: "'w MockComputeClient \<Rightarrow> 'w OCIComputeClient" where
  "mock_compute_client m = \<lparr>LaunchInstance = Mock_LaunchInstance m,
     GetInstance = Mock_GetInstance m, TerminateInstance = Mock_TerminateInstance m\<rparr>"

section \<open>Virtual network\<close>

datatype SecurityListLifecycleState =
  SecurityListLifecycleStateAvailable
| SecurityListLifecycleStateProvisioning
| SecurityListLifecycleStateTerminating
| SecurityListLifecycleStateTerminated
| SecurityListLifecycleStateOther string

record SecurityList =
  ListId :: "string option"
  ListLifecycleState :: SecurityListLifecycleState

text \<open>\<open>int\<close> is 64 bits wide on the platforms the operator is built for.\<close>

record PortRange =
  PortMin :: "int64 option"
  PortMax :: "int64 option"

record TcpOptions =
  DestinationPortRange :: "PortRange option"

record IngressSecurityRule =
  IngressProtocol :: "string option"
  IngressSource :: "string option"
  IngressDescription :: "string option"
  IngressTcpOptions :: "TcpOptions option"

record EgressSecurityRule =
  EgressProtocol :: "string option"
  EgressDestination :: "string option"
  EgressDescription :: "string option"
  EgressTcpOptions :: "TcpOptions option"

record CreateSecurityListDetails =
  ListCompartmentId :: "string option"
  ListVcnId :: "string option"
  ListDisplayName :: "string option"
  IngressSecurityRules :: "IngressSecurityRule slice"
  EgressSecurityRules :: "EgressSecurityRule slice"
  ListFreeformTags :: string_map

record 'w OCIVirtualNetworkClient =
  CreateSecurityList :: "CreateSecurityListDetails \<Rightarrow> 'w \<Rightarrow> (go_error + SecurityList) \<times> 'w"
  GetSecurityList :: "string option \<Rightarrow> 'w \<Rightarrow> (go_error + SecurityList) \<times> 'w"
  DeleteSecurityList :: "string option \<Rightarrow> 'w \<Rightarrow> (go_error + unit) \<times> 'w"

datatype VcnCall =
  CreateListCall CreateSecurityListDetails "go_error + SecurityList"
| GetListCall "string option" "go_error + SecurityList"
| DeleteListCall "string option" "go_error + unit"

record 'w MockVirtualNetworkClient =
  CreateSecurityListFn :: "(CreateSecurityListDetails \<Rightarrow> 'w \<Rightarrow> (go_error + SecurityList) \<times> 'w) option"
  GetSecurityListFn :: "(string option \<Rightarrow> 'w \<Rightarrow> (go_error + SecurityList) \<times> 'w) option"
  DeleteSecurityListFn :: "(string option \<Rightarrow> 'w \<Rightarrow> (go_error + unit) \<times> 'w) option"

definition zeroSecurityList :: SecurityList where
  "zeroSecurityList = \<lparr>ListId = None, ListLifecycleState = SecurityListLifecycleStateOther ''''\<rparr>"

definition Mock_CreateSecurityList ::
    "'w MockVirtualNetworkClient \<Rightarrow> CreateSecurityListDetails \<Rightarrow> 'w \<Rightarrow> (go_error + SecurityList) \<times> 'w" where
  "Mock_CreateSecurityList m request w = (case CreateSecurityListFn m of
     Some f \<Rightarrow> f request w
   | None \<Rightarrow> (Inr zeroSecurityList, w))"

definition Mock_GetSecurityList ::
    "'w MockVirtualNetworkClient \<Rightarrow> string option \<Rightarrow> 'w \<Rightarrow> (go_error + SecurityList) \<times> 'w" where
  "Mock_GetSecurityList m request w = (case GetSecurityListFn m of
     Some f \<Rightarrow> f request w
   | None \<Rightarrow> (Inr zeroSecurityList, w))"

definition Mock_DeleteSecurityList ::
    "'w MockVirtualNetworkClient \<Rightarrow> string option \<Rightarrow> 'w \<Rightarrow> (go_error + unit) \<times> 'w" where
  "Mock_DeleteSecurityList m request w = (case DeleteSecurityListFn m of
     Some f \<Rightarrow> f request w
   | None \<Rightarrow> (Inr (), w))"

definition mock_vcn_client :: "'w MockVirtualNetworkClient \<Rightarrow> 'w OCIVirtualNetworkClient" where
  "mock_vcn_client m = \<lparr>CreateSecurityList = Mock_CreateSecurityList m,
     GetSecurityList = Mock_GetSecurityList m, DeleteSecurityList = Mock_DeleteSecurityList m\<rparr>"

end
