(* ===== verification/InstanceTypes.thy ===== *)
theory InstanceTypes
  imports Kube
begin

text \<open>
  \<open>api/v1alpha1/ociinstance_types.go\<close>: the OCIInstance resource, its phases, its two status setters,
  and the constraints that its kubebuilder markers put on every object the API server admits.
\<close>

section \<open>Data\<close>

record OCIInstanceSpec =
  CompartmentID :: string
  DisplayName :: string
  Shape :: string
  ImageID :: string
  AvailabilityDomain :: string
  SubnetID :: string
  OCPUs :: "string option"
  MemoryInGBs :: "string option"
  FreeformTags :: string_map

type_synonym InstancePhase = string

definition InstancePhasePending :: InstancePhase where "InstancePhasePending = ''Pending''"
definition InstancePhaseProvisioning :: InstancePhase where
  "InstancePhaseProvisioning = ''Provisioning''"
definition InstancePhaseRunning :: InstancePhase where "InstancePhaseRunning = ''Running''"
definition InstancePhaseTerminating :: InstancePhase where
  "InstancePhaseTerminating = ''Terminating''"
definition InstancePhaseTerminated :: InstancePhase where
  "InstancePhaseTerminated = ''Terminated''"
definition InstancePhaseFailed :: InstancePhase where "InstancePhaseFailed = ''Failed''"

lemmas instance_phase_defs =
  InstancePhasePending_def InstancePhaseProvisioning_def InstancePhaseRunning_def
  InstancePhaseTerminating_def InstancePhaseTerminated_def InstancePhaseFailed_def

record OCIInstanceStatus =
  InstanceID :: string
  Phase :: InstancePhase
  PrivateIP :: string
  PublicIP :: string
  FailureReason :: string
  ObservedGeneration :: int64
  Conditions :: "Condition list option"

record OCIInstance =
  InstTypeMeta :: TypeMeta
  InstMeta :: ObjectMeta
  Spec :: OCIInstanceSpec
  Status :: OCIInstanceStatus

section \<open>Operations\<close>

definition SetFailedStatus :: "string \<Rightarrow> OCIInstance \<Rightarrow> OCIInstance" where
  "SetFailedStatus reason o' =
     o'\<lparr>Status := (Status o')\<lparr>Phase := InstancePhaseFailed, FailureReason := reason\<rparr>\<rparr>"

definition SetObservedGeneration :: "int64 \<Rightarrow> OCIInstance \<Rightarrow> OCIInstance" where
  "SetObservedGeneration generation o' =
     o'\<lparr>Status := (Status o')\<lparr>ObservedGeneration := generation\<rparr>\<rparr>"

text \<open>The getter that OCIInstance takes from its embedded \<open>ObjectMeta\<close>.\<close>

definition GetGeneration :: "OCIInstance \<Rightarrow> int64" where
  "GetGeneration o' = Generation (InstMeta o')"

text \<open>Assignments of single fields of \<open>instance.Status\<close> in the controller.\<close>

definition set_phase :: "InstancePhase \<Rightarrow> OCIInstance \<Rightarrow> OCIInstance" where
  "set_phase p o' = o'\<lparr>Status := (Status o')\<lparr>Phase := p\<rparr>\<rparr>"

definition set_instance_id :: "string \<Rightarrow> OCIInstance \<Rightarrow> OCIInstance" where
  "set_instance_id i o' = o'\<lparr>Status := (Status o')\<lparr>InstanceID := i\<rparr>\<rparr>"

section \<open>What the API server admits\<close>

definition id_field_ok :: "string \<Rightarrow> bool" where
  "id_field_ok s \<longleftrightarrow> 1 \<le> length s \<and> length s \<le> 255"

definition instance_spec_ok :: "OCIInstanceSpec \<Rightarrow> bool" where
  "instance_spec_ok sp \<longleftrightarrow>
     id_field_ok (CompartmentID sp) \<and> id_field_ok (DisplayName sp) \<and> id_field_ok (Shape sp) \<and>
     id_field_ok (ImageID sp) \<and> id_field_ok (AvailabilityDomain sp) \<and> id_field_ok (SubnetID sp)"

text \<open>The enum marker of \<open>InstancePhase\<close>; an empty phase is left out of the JSON (\<open>omitempty\<close>).\<close>

definition instance_phases :: "InstancePhase list" where
  "instance_phases = [''Pending'', ''Provisioning'', ''Running'', ''Terminating'',
     ''Terminated'', ''Failed'']"

definition instance_phase_ok :: "InstancePhase \<Rightarrow> bool" where
  "instance_phase_ok p \<longleftrightarrow> p = '''' \<or> p \<in> set instance_phases"

section \<open>Fields after an update\<close>

lemma instance_status_setters [simp]:
  "Status (set_phase p x) = (Status x)\<lparr>Phase := p\<rparr>"
  "Status (set_instance_id i x) = (Status x)\<lparr>InstanceID := i\<rparr>"
  "Status (SetFailedStatus r x) = (Status x)\<lparr>Phase := InstancePhaseFailed, FailureReason := r\<rparr>"
  "Status (SetObservedGeneration g x) = (Status x)\<lparr>ObservedGeneration := g\<rparr>"
  by (simp_all add: set_phase_def set_instance_id_def SetFailedStatus_def SetObservedGeneration_def)

lemma instance_frame_setters [simp]:
  "Spec (set_phase p x) = Spec x" "InstMeta (set_phase p x) = InstMeta x"
  "Spec (set_instance_id i x) = Spec x" "InstMeta (set_instance_id i x) = InstMeta x"
  "Spec (SetFailedStatus r x) = Spec x" "InstMeta (SetFailedStatus r x) = InstMeta x"
  "Spec (SetObservedGeneration g x) = Spec x" "InstMeta (SetObservedGeneration g x) = InstMeta x"
  by (simp_all add: set_phase_def set_instance_id_def SetFailedStatus_def SetObservedGeneration_def)

lemma instance_phase_ok_constants [simp]:
  "instance_phase_ok InstancePhasePending" "instance_phase_ok InstancePhaseProvisioning"
  "instance_phase_ok InstancePhaseRunning" "instance_phase_ok InstancePhaseTerminating"
  "instance_phase_ok InstancePhaseTerminated" "instance_phase_ok InstancePhaseFailed"
  by (simp_all add: instance_phase_ok_def instance_phases_def instance_phase_defs)

end
