(* ===== verification/PolicyTypes.thy ===== *)
theory PolicyTypes
  imports Kube
begin

text \<open>
  \<open>api/v1alpha1/ocisecuritypolicy_types.go\<close>: the OCISecurityPolicy resource with its rules, its
  phases, its two status setters and the constraints of its kubebuilder markers.
\<close>

section \<open>Data\<close>

type_synonym SecurityRuleDirection = string

definition SecurityRuleDirectionIngress :: SecurityRuleDirection where
  "SecurityRuleDirectionIngress = ''INGRESS''"
definition SecurityRuleDirectionEgress :: SecurityRuleDirection where
  "SecurityRuleDirectionEgress = ''EGRESS''"

record SecurityRule =
  Description :: string
  Direction :: SecurityRuleDirection
  Protocol :: string
  Source :: string
  Destination :: string
  MinPort :: "int32 option"
  MaxPort :: "int32 option"

record OCISecurityPolicySpec =
  CompartmentID :: string
  VcnID :: string
  DisplayName :: string
  Rules :: "SecurityRule list"
  FreeformTags :: string_map

type_synonym SecurityPolicyPhase = string

definition SecurityPolicyPhasePending :: SecurityPolicyPhase where
  "SecurityPolicyPhasePending = ''Pending''"
definition SecurityPolicyPhaseCreating :: SecurityPolicyPhase where
  "SecurityPolicyPhaseCreating = ''Creating''"
definition SecurityPolicyPhaseActive :: SecurityPolicyPhase where
  "SecurityPolicyPhaseActive = ''Active''"
definition SecurityPolicyPhaseUpdating :: SecurityPolicyPhase where
  "SecurityPolicyPhaseUpdating = ''Updating''"
definition SecurityPolicyPhaseDeleting :: SecurityPolicyPhase where
  "SecurityPolicyPhaseDeleting = ''Deleting''"
definition SecurityPolicyPhaseDeleted :: SecurityPolicyPhase where
  "SecurityPolicyPhaseDeleted = ''Deleted''"
definition SecurityPolicyPhaseFailed :: SecurityPolicyPhase where
  "SecurityPolicyPhaseFailed = ''Failed''"

lemmas policy_phase_defs =
  SecurityPolicyPhasePending_def SecurityPolicyPhaseCreating_def SecurityPolicyPhaseActive_def
  SecurityPolicyPhaseUpdating_def SecurityPolicyPhaseDeleting_def SecurityPolicyPhaseDeleted_def
  SecurityPolicyPhaseFailed_def

record OCISecurityPolicyStatus =
  SecurityListID :: string
  Phase :: SecurityPolicyPhase
  FailureReason :: string
  ObservedGeneration :: int64
  Conditions :: "Condition list option"

record OCISecurityPolicy =
  PolTypeMeta :: TypeMeta
  PolMeta :: ObjectMeta
  Spec :: OCISecurityPolicySpec
  Status :: OCISecurityPolicyStatus

section \<open>Operations\<close>

definition SetFailedStatus :: "string \<Rightarrow> OCISecurityPolicy \<Rightarrow> OCISecurityPolicy" where
  "SetFailedStatus reason o' =
     o'\<lparr>Status := (Status o')\<lparr>Phase := SecurityPolicyPhaseFailed, FailureReason := reason\<rparr>\<rparr>"

definition SetObservedGeneration :: "int64 \<Rightarrow> OCISecurityPolicy \<Rightarrow> OCISecurityPolicy" where
  "SetObservedGeneration generation o' =
     o'\<lparr>Status := (Status o')\<lparr>ObservedGeneration := generation\<rparr>\<rparr>"

text \<open>The getter that OCISecurityPolicy takes from its embedded \<open>ObjectMeta\<close>.\<close>

definition GetGeneration :: "OCISecurityPolicy \<Rightarrow> int64" where
  "GetGeneration o' = Generation (PolMeta o')"

text \<open>Assignments of single fields of \<open>policy.Status\<close> in the controller.\<close>

definition set_phase :: "SecurityPolicyPhase \<Rightarrow> OCISecurityPolicy \<Rightarrow> OCISecurityPolicy" where
  "set_phase p o' = o'\<lparr>Status := (Status o')\<lparr>Phase := p\<rparr>\<rparr>"

definition set_security_list_id :: "string \<Rightarrow> OCISecurityPolicy \<Rightarrow> OCISecurityPolicy" where
  "set_security_list_id i o' = o'\<lparr>Status := (Status o')\<lparr>SecurityListID := i\<rparr>\<rparr>"

section \<open>What the API server admits\<close>

definition id_field_ok :: "string \<Rightarrow> bool" where
  "id_field_ok s \<longleftrightarrow> 1 \<le> length s \<and> length s \<le> 255"

definition direction_ok :: "SecurityRuleDirection \<Rightarrow> bool" where
  "direction_ok d \<longleftrightarrow> d \<in> {''INGRESS'', ''EGRESS''}"

text \<open>The \<open>Minimum=1\<close>, \<open>Maximum=65535\<close> markers of an optional \<open>*int32\<close> port.\<close>

definition port_ok :: "int32 option \<Rightarrow> bool" where
  "port_ok p \<longleftrightarrow> (case p of None \<Rightarrow> True | Some n \<Rightarrow> 1 \<le> sint n \<and> sint n \<le> 65535)"

definition rule_ok :: "SecurityRule \<Rightarrow> bool" where
  "rule_ok r \<longleftrightarrow> direction_ok (Direction r) \<and> port_ok (MinPort r) \<and> port_ok (MaxPort r)"

definition policy_spec_ok :: "OCISecurityPolicySpec \<Rightarrow> bool" where
  "policy_spec_ok sp \<longleftrightarrow>
     id_field_ok (CompartmentID sp) \<and> id_field_ok (VcnID sp) \<and> id_field_ok (DisplayName sp) \<and>
     1 \<le> length (Rules sp) \<and> list_all rule_ok (Rules sp)"

text \<open>The enum marker of \<open>SecurityPolicyPhase\<close>; an empty phase is left out of the JSON.\<close>

definition policy_phases :: "SecurityPolicyPhase list" where
  "policy_phases = [''Pending'', ''Creating'', ''Active'', ''Updating'', ''Deleting'',
     ''Deleted'', ''Failed'']"

definition policy_phase_ok :: "SecurityPolicyPhase \<Rightarrow> bool" where
  "policy_phase_ok p \<longleftrightarrow> p = '''' \<or> p \<in> set policy_phases"

section \<open>Fields after an update\<close>

lemma policy_status_setters [simp]:
  "Status (set_phase p x) = (Status x)\<lparr>Phase := p\<rparr>"
  "Status (set_security_list_id i x) = (Status x)\<lparr>SecurityListID := i\<rparr>"
  "Status (SetFailedStatus r x) = (Status x)\<lparr>Phase := SecurityPolicyPhaseFailed, FailureReason := r\<rparr>"
  "Status (SetObservedGeneration g x) = (Status x)\<lparr>ObservedGeneration := g\<rparr>"
  by (simp_all add: set_phase_def set_security_list_id_def SetFailedStatus_def
      SetObservedGeneration_def)

lemma policy_frame_setters [simp]:
  "Spec (set_phase p x) = Spec x" "PolMeta (set_phase p x) = PolMeta x"
  "Spec (set_security_list_id i x) = Spec x" "PolMeta (set_security_list_id i x) = PolMeta x"
  "Spec (SetFailedStatus r x) = Spec x" "PolMeta (SetFailedStatus r x) = PolMeta x"
  "Spec (SetObservedGeneration g x) = Spec x" "PolMeta (SetObservedGeneration g x) = PolMeta x"
  by (simp_all add: set_phase_def set_security_list_id_def SetFailedStatus_def
      SetObservedGeneration_def)

lemma policy_phase_ok_constants [simp]:
  "policy_phase_ok SecurityPolicyPhasePending" "policy_phase_ok SecurityPolicyPhaseCreating"
  "policy_phase_ok SecurityPolicyPhaseActive" "policy_phase_ok SecurityPolicyPhaseUpdating"
  "policy_phase_ok SecurityPolicyPhaseDeleting" "policy_phase_ok SecurityPolicyPhaseDeleted"
  "policy_phase_ok SecurityPolicyPhaseFailed"
  by (simp_all add: policy_phase_ok_def policy_phases_def policy_phase_defs)

end
