(* ===== verification/Failable.thy ===== *)
theory Failable
  imports Metrics InstanceTypes PolicyTypes
begin

text \<open>
  \<open>internal/controller/failable_resource.go\<close>: the interface that both resource types implement and
  the helper that marks a resource as failed. The interface value is a record of methods; the
  contract its implementations keep is the locale \<open>failable_resource\<close>, interpreted below on
  OCIInstance and on OCISecurityPolicy.
\<close>

record 'r FailableResource =
  F_SetFailedStatus :: "string \<Rightarrow> 'r \<Rightarrow> 'r"
  F_SetObservedGeneration :: "int64 \<Rightarrow> 'r \<Rightarrow> 'r"
  F_GetGeneration :: "'r \<Rightarrow> int64"

text \<open>The object that \<open>setFailedStatus\<close> writes, made from the object it has fetched.\<close>

definition mark_failed :: "'r FailableResource \<Rightarrow> string \<Rightarrow> 'r \<Rightarrow> 'r" where
  "mark_failed F reason obj =
     (let obj = F_SetFailedStatus F reason obj
      in F_SetObservedGeneration F (F_GetGeneration F obj) obj)"

definition setFailedStatus ::
    "'r FailableResource \<Rightarrow> ('w, 'r, 'c) Ext \<Rightarrow> 'r \<Rightarrow> string \<Rightarrow> (('w, 'r, 'o, 'c) Sys, Outcome) state" where
  "setFailedStatus F ext obj reason = do {
     r \<leftarrow> k8s_get ext (ObjectKeyFromObject ext obj);
     case r of
       Inl err \<Rightarrow> State_Monad.return (Returned zeroResult (Some err))
     | Inr obj \<Rightarrow> do {
         r \<leftarrow> k8s_status_update ext (mark_failed F reason obj);
         case r of
           Inl err \<Rightarrow> State_Monad.return (Returned zeroResult (Some err))
         | Inr obj \<Rightarrow> State_Monad.return (Returned zeroResult None)
       }
   }"

text \<open>One run, executed: a fetch, and a status write of the marked object unless the fetch failed.\<close>

lemma post_setFailedStatus [post_simps, simp]:
  "post (setFailedStatus F ext obj reason) Q = (\<lambda>s.
     case Get (K8s ext) (ObjectKeyFromObject ext obj) (world s) of
       (Inl err, w) \<Rightarrow> Q (Returned zeroResult (Some err))
         (s\<lparr>world := w, calls := calls s @ [KGet (ObjectKeyFromObject ext obj) (Inl err)]\<rparr>)
     | (Inr x, w) \<Rightarrow>
        (case StatusUpdate (K8s ext) (mark_failed F reason x) w of
           (r, w') \<Rightarrow> Q (Returned zeroResult (case r of Inl err \<Rightarrow> Some err | Inr _ \<Rightarrow> None))
             (s\<lparr>world := w', calls := calls s @ [KGet (ObjectKeyFromObject ext obj) (Inr x),
                KStatusUpdate (mark_failed F reason x) r]\<rparr>)))"
  by (simp add: setFailedStatus_def call_defs fun_eq_iff split: prod.splits sum.splits)

section \<open>The contract\<close>

text \<open>
  What an implementation promises: the setters write their own status field and no other, seen
  through the observers of the phase, the reason, the observed generation, and the rest of the object
  (\<open>frame\<close>: everything but those three fields).
\<close>

locale failable_resource =
  fixes F :: "'r FailableResource"
    and failed_phase :: "'r \<Rightarrow> bool"
    and reason_of :: "'r \<Rightarrow> string"
    and observed_of :: "'r \<Rightarrow> int64"
    and frame :: "'r \<Rightarrow> 'f"
  assumes failed_set: "failed_phase (F_SetFailedStatus F reason x)"
    and reason_set: "reason_of (F_SetFailedStatus F reason x) = reason"
    and frame_failed: "frame (F_SetFailedStatus F reason x) = frame x"
    and generation_failed: "F_GetGeneration F (F_SetFailedStatus F reason x) = F_GetGeneration F x"
    and observed_set: "observed_of (F_SetObservedGeneration F g x) = g"
    and failed_observed: "failed_phase (F_SetObservedGeneration F g x) = failed_phase x"
    and reason_observed: "reason_of (F_SetObservedGeneration F g x) = reason_of x"
    and frame_observed: "frame (F_SetObservedGeneration F g x) = frame x"
    and generation_observed: "F_GetGeneration F (F_SetObservedGeneration F g x) = F_GetGeneration F x"
begin

lemma mark_failed_fields:
  "failed_phase (mark_failed F reason x)"
  "reason_of (mark_failed F reason x) = reason"
  "observed_of (mark_failed F reason x) = F_GetGeneration F x"
  "frame (mark_failed F reason x) = frame x"
  "F_GetGeneration F (mark_failed F reason x) = F_GetGeneration F x"
  by (simp_all add: mark_failed_def Let_def failed_set reason_set frame_failed generation_failed
      observed_set failed_observed reason_observed frame_observed generation_observed)

text \<open>A marked object is exactly what the guard of both reconcilers stops at.\<close>

lemma mark_failed_guard:
  "failed_phase (mark_failed F reason x) \<and>
   observed_of (mark_failed F reason x) = F_GetGeneration F (mark_failed F reason x)"
  by (simp add: mark_failed_fields)

end

section \<open>The two implementations\<close>

definition instanceFailable :: "OCIInstance FailableResource" where
  "instanceFailable = \<lparr>F_SetFailedStatus = InstanceTypes.SetFailedStatus,
     F_SetObservedGeneration = InstanceTypes.SetObservedGeneration,
     F_GetGeneration = InstanceTypes.GetGeneration\<rparr>"

definition policyFailable :: "OCISecurityPolicy FailableResource" where
  "policyFailable = \<lparr>F_SetFailedStatus = PolicyTypes.SetFailedStatus,
     F_SetObservedGeneration = PolicyTypes.SetObservedGeneration,
     F_GetGeneration = PolicyTypes.GetGeneration\<rparr>"

interpretation inst_failable: failable_resource instanceFailable
  "\<lambda>x. OCIInstanceStatus.Phase (OCIInstance.Status x) = InstancePhaseFailed"
  "\<lambda>x. OCIInstanceStatus.FailureReason (OCIInstance.Status x)"
  "\<lambda>x. OCIInstanceStatus.ObservedGeneration (OCIInstance.Status x)"
  "\<lambda>x. (InstTypeMeta x, InstMeta x, OCIInstance.Spec x, InstanceID (OCIInstance.Status x),
        PrivateIP (OCIInstance.Status x), PublicIP (OCIInstance.Status x),
        OCIInstanceStatus.Conditions (OCIInstance.Status x))"
  by unfold_locales
    (simp_all add: instanceFailable_def InstanceTypes.SetFailedStatus_def
      InstanceTypes.SetObservedGeneration_def InstanceTypes.GetGeneration_def)

interpretation pol_failable: failable_resource policyFailable
  "\<lambda>x. OCISecurityPolicyStatus.Phase (OCISecurityPolicy.Status x) = SecurityPolicyPhaseFailed"
  "\<lambda>x. OCISecurityPolicyStatus.FailureReason (OCISecurityPolicy.Status x)"
  "\<lambda>x. OCISecurityPolicyStatus.ObservedGeneration (OCISecurityPolicy.Status x)"
  "\<lambda>x. (PolTypeMeta x, PolMeta x, OCISecurityPolicy.Spec x, SecurityListID (OCISecurityPolicy.Status x),
        OCISecurityPolicyStatus.Conditions (OCISecurityPolicy.Status x))"
  by unfold_locales
    (simp_all add: policyFailable_def PolicyTypes.SetFailedStatus_def
      PolicyTypes.SetObservedGeneration_def PolicyTypes.GetGeneration_def)

end
