(* ===== verification/InstanceController.thy ===== *)
theory InstanceController
  imports OciClients Failable
begin

text \<open>
  \<open>internal/controller/ociinstance_controller.go\<close>. The receiver \<open>r\<close> is the parameter \<open>ext\<close> (its
  embedded \<open>client.Client\<close> and the library functions the code calls) together with the field
  \<open>ociClient\<close> of the state (\<open>r.ComputeClient\<close>, nil at start). The variable \<open>instance\<close> is passed along
  explicitly: after a successful write it is the object that the server answered. Log calls are
  left out.
\<close>

type_synonym 'w InstanceExt = "('w, OCIInstance, 'w OCIComputeClient) Ext"
type_synonym 'w InstanceSys = "('w, OCIInstance, ComputeCall, 'w OCIComputeClient) Sys"

definition ociInstanceFinalizer :: string where
  "ociInstanceFinalizer = ''compute.nvcne-demo.io/finalizer''"

definition requeueAfter :: Duration where
  "requeueAfter = 30 * Second"

section \<open>Calls of the compute client\<close>

definition call_launch ::
    "'w OCIComputeClient \<Rightarrow> LaunchInstanceDetails \<Rightarrow> ('w InstanceSys, go_error + CoreInstance) state" where
  "call_launch c request = oci_call (LaunchInstance c request) (LaunchCall request)"

definition call_get ::
    "'w OCIComputeClient \<Rightarrow> string option \<Rightarrow> ('w InstanceSys, go_error + CoreInstance) state" where
  "call_get c request = oci_call (GetInstance c request) (GetCall request)"

definition call_terminate ::
    "'w OCIComputeClient \<Rightarrow> string option \<Rightarrow> ('w InstanceSys, go_error + unit) state" where
  "call_terminate c request = oci_call (TerminateInstance c request) (TerminateCall request)"

text \<open>\<open>newComputeClient\<close>: the SDK constructor, its error wrapped.\<close>

definition newComputeClient ::
    "'w InstanceExt \<Rightarrow> ('w InstanceSys, go_error + 'w OCIComputeClient) state" where
  "newComputeClient ext = do {
     r \<leftarrow> new_sdk_client ext;
     State_Monad.return (case r of
       Inl err \<Rightarrow> Inl (Wrapped ''failed to create OCI compute client: '' err)
     | Inr c \<Rightarrow> Inr c)
   }"

section \<open>Handlers\<close>

definition handleDeletion :: "'w InstanceExt \<Rightarrow> OCIInstance \<Rightarrow> ('w InstanceSys, Outcome) state" where
  "handleDeletion ext inst =
     (if \<not> ContainsFinalizer ext inst ociInstanceFinalizer
      then State_Monad.return (Returned zeroResult None)
      else do {
        let iid = InstanceID (OCIInstance.Status inst);
        stop \<leftarrow>
          (if iid \<noteq> '''' then do {
             injected \<leftarrow> get_client;
             c \<leftarrow> (case injected of
                Some c \<Rightarrow> State_Monad.return (Inr c)
              | None \<Rightarrow> newComputeClient ext);
             case c of
               Inl err \<Rightarrow> State_Monad.return (Some (Returned zeroResult (Some err)))
             | Inr computeClient \<Rightarrow> do {
                 r \<leftarrow> measureOCICall ext ''ociinstance'' ''terminate''
                        (call_terminate computeClient (Some iid));
                 State_Monad.return (case r of
                   Inl err \<Rightarrow> Some (Returned \<lparr>RequeueAfter = requeueAfter\<rparr> (Some err))
                 | Inr _ \<Rightarrow> None)
               }
           }
           else State_Monad.return None);
        case stop of
          Some out \<Rightarrow> State_Monad.return out
        | None \<Rightarrow> do {
            r \<leftarrow> k8s_update ext (RemoveFinalizer ext inst ociInstanceFinalizer);
            case r of
              Inl err \<Rightarrow> State_Monad.return (Returned zeroResult (Some err))
            | Inr _ \<Rightarrow> State_Monad.return (Returned zeroResult None)
          }
      })"

text \<open>The launch request that \<open>reconcileNew\<close> builds from a spec.\<close>

definition shapeConfig :: "OCIInstanceSpec \<Rightarrow> LaunchInstanceShapeConfigDetails option" where
  "shapeConfig sp = (case (OCPUs sp, MemoryInGBs sp) of
     (Some o', Some m) \<Rightarrow>
       (let (ocpus, _) = ParseFloat32 o'; (memoryInGBs, _) = ParseFloat32 m
        in Some \<lparr>Ocpus = Some ocpus, ShapeMemoryInGBs = Some memoryInGBs\<rparr>)
   | _ \<Rightarrow> None)"

definition launchDetails :: "OCIInstanceSpec \<Rightarrow> LaunchInstanceDetails" where
  "launchDetails sp =
     \<lparr>CompartmentId = Some (OCIInstanceSpec.CompartmentID sp),
      LaunchDisplayName = Some (OCIInstanceSpec.DisplayName sp),
      LaunchShape = Some (Shape sp),
      ImageId = Some (ImageID sp),
      LaunchAvailabilityDomain = Some (AvailabilityDomain sp),
      LaunchVnicDetails = Some \<lparr>VnicSubnetId = Some (SubnetID sp)\<rparr>,
      ShapeConfig = shapeConfig sp,
      LaunchFreeformTags =
        (if 0 < map_len (OCIInstanceSpec.FreeformTags sp) then OCIInstanceSpec.FreeformTags sp else None)\<rparr>"

definition reconcileNew ::
    "'w InstanceExt \<Rightarrow> OCIInstance \<Rightarrow> 'w OCIComputeClient \<Rightarrow> ('w InstanceSys, Outcome) state" where
  "reconcileNew ext inst computeClient = do {
     inc_phaseTransitions ''ociinstance'' InstancePhaseProvisioning;
     r \<leftarrow> k8s_status_update ext (InstanceTypes.set_phase InstancePhaseProvisioning inst);
     case r of
       Inl err \<Rightarrow> State_Monad.return (Returned zeroResult (Some err))
     | Inr inst \<Rightarrow> do {
         r \<leftarrow> measureOCICall ext ''ociinstance'' ''launch''
                (call_launch computeClient (launchDetails (OCIInstance.Spec inst)));
         case r of
           Inl err \<Rightarrow> do {
             inc_phaseTransitions ''ociinstance'' InstancePhaseFailed;
             setFailedStatus instanceFailable ext inst (''Failed to launch instance: '' @ Error err)
           }
         | Inr response \<Rightarrow>
             (case InstId response of
                None \<Rightarrow> State_Monad.return Panicked
              | Some iid \<Rightarrow> do {
                  r \<leftarrow> k8s_status_update ext
                    (InstanceTypes.SetObservedGeneration (InstanceTypes.GetGeneration inst)
                       (InstanceTypes.set_phase InstancePhaseProvisioning (set_instance_id iid inst)));
                  case r of
                    Inl err \<Rightarrow> State_Monad.return (Returned zeroResult (Some err))
                  | Inr _ \<Rightarrow> State_Monad.return (Returned \<lparr>RequeueAfter = requeueAfter\<rparr> None)
                })
       }
   }"

text \<open>The \<open>switch\<close> of \<open>reconcileExisting\<close>: the phase for a lifecycle state, and whether its case
  returns early, before the observed generation is advanced.\<close>

definition phase_of_lifecycle :: "InstanceLifecycleState \<Rightarrow> InstancePhase" where
  "phase_of_lifecycle l = (case l of
     InstanceLifecycleStateRunning \<Rightarrow> InstancePhaseRunning
   | InstanceLifecycleStateProvisioning \<Rightarrow> InstancePhaseProvisioning
   | InstanceLifecycleStateStarting \<Rightarrow> InstancePhaseProvisioning
   | InstanceLifecycleStateTerminating \<Rightarrow> InstancePhaseTerminating
   | InstanceLifecycleStateTerminated \<Rightarrow> InstancePhaseTerminated
   | InstanceLifecycleStateOther _ \<Rightarrow> InstancePhaseFailed)"

definition still_provisioning :: "InstanceLifecycleState \<Rightarrow> bool" where
  "still_provisioning l \<longleftrightarrow>
     l = InstanceLifecycleStateProvisioning \<or> l = InstanceLifecycleStateStarting"

definition reconcileExisting ::
    "'w InstanceExt \<Rightarrow> OCIInstance \<Rightarrow> 'w OCIComputeClient \<Rightarrow> ('w InstanceSys, Outcome) state" where
  "reconcileExisting ext inst computeClient = do {
     r \<leftarrow> measureOCICall ext ''ociinstance'' ''get''
            (call_get computeClient (Some (InstanceID (OCIInstance.Status inst))));
     case r of
       Inl err \<Rightarrow> State_Monad.return (Returned \<lparr>RequeueAfter = requeueAfter\<rparr> (Some err))
     | Inr response \<Rightarrow> do {
         let l = InstLifecycleState response;
         let inst = InstanceTypes.set_phase (phase_of_lifecycle l) inst;
         inc_phaseTransitions ''ociinstance'' (phase_of_lifecycle l);
         if still_provisioning l then do {
           r \<leftarrow> k8s_status_update ext inst;
           case r of
             Inl err \<Rightarrow> State_Monad.return (Returned zeroResult (Some err))
           | Inr _ \<Rightarrow> State_Monad.return (Returned \<lparr>RequeueAfter = requeueAfter\<rparr> None)
         }
         else do {
           r \<leftarrow> k8s_status_update ext
             (InstanceTypes.SetObservedGeneration (InstanceTypes.GetGeneration inst) inst);
           case r of
             Inl err \<Rightarrow> State_Monad.return (Returned zeroResult (Some err))
           | Inr inst \<Rightarrow>
               if OCIInstanceStatus.Phase (OCIInstance.Status inst) = InstancePhaseRunning
               then State_Monad.return (Returned \<lparr>RequeueAfter = 5 * Minute\<rparr> None)
               else State_Monad.return (Returned \<lparr>RequeueAfter = requeueAfter\<rparr> None)
         }
       }
   }"

section \<open>Reconcile\<close>

text \<open>The guard that stops retries of a failed resource until its spec changes.\<close>

definition failed_and_observed :: "OCIInstance \<Rightarrow> bool" where
  "failed_and_observed inst \<longleftrightarrow>
     OCIInstanceStatus.Phase (OCIInstance.Status inst) = InstancePhaseFailed \<and>
     OCIInstanceStatus.ObservedGeneration (OCIInstance.Status inst) = Generation (InstMeta inst)"

text \<open>Steps 4 to 6: the client, created on first use and kept, then the two provisioning handlers.\<close>

definition reconcileActive :: "'w InstanceExt \<Rightarrow> OCIInstance \<Rightarrow> ('w InstanceSys, Outcome) state" where
  "reconcileActive ext inst = do {
     injected \<leftarrow> get_client;
     c \<leftarrow> (case injected of
        Some c \<Rightarrow> State_Monad.return (Inr c)
      | None \<Rightarrow> do {
          r \<leftarrow> newComputeClient ext;
          case r of
            Inl err \<Rightarrow> State_Monad.return (Inl err)
          | Inr c \<Rightarrow> do { put_client c; State_Monad.return (Inr c) }
        });
     case c of
       Inl err \<Rightarrow> setFailedStatus instanceFailable ext inst (''Failed to create OCI client: '' @ Error err)
     | Inr computeClient \<Rightarrow>
         if InstanceID (OCIInstance.Status inst) \<noteq> '''' then reconcileExisting ext inst computeClient
         else reconcileNew ext inst computeClient
   }"

definition reconcileBody :: "'w InstanceExt \<Rightarrow> NamespacedName \<Rightarrow> ('w InstanceSys, Outcome) state" where
  "reconcileBody ext req = do {
     r \<leftarrow> k8s_get ext req;
     case r of
       Inl err \<Rightarrow>
         if IsNotFound ext err then State_Monad.return (Returned zeroResult None)
         else State_Monad.return (Returned zeroResult (Some err))
     | Inr inst \<Rightarrow>
         if \<not> IsZero ext (DeletionTimestamp (InstMeta inst)) then handleDeletion ext inst
         else if \<not> ContainsFinalizer ext inst ociInstanceFinalizer then do {
           r \<leftarrow> k8s_update ext (AddFinalizer ext inst ociInstanceFinalizer);
           case r of
             Inl err \<Rightarrow> State_Monad.return (Returned zeroResult (Some err))
           | Inr _ \<Rightarrow> State_Monad.return (Returned zeroResult None)
         }
         else if failed_and_observed inst then State_Monad.return (Returned zeroResult None)
         else reconcileActive ext inst
   }"

text \<open>\<open>Reconcile\<close> with its deferred count of the outcome, which also runs while a panic unwinds.\<close>

definition Reconcile :: "'w InstanceExt \<Rightarrow> NamespacedName \<Rightarrow> ('w InstanceSys, Outcome) state" where
  "Reconcile ext req = do {
     out \<leftarrow> reconcileBody ext req;
     inc_reconcileTotal ''ociinstance'' (outcome_label out);
     State_Monad.return out
   }"

end
