(* ===== verification/ConvertRules.thy ===== *)
theory ConvertRules
  imports OciClients PolicyTypes
begin

text \<open>
  \<open>convertRules\<close> of the security policy controller: the rules of a policy, split into the ingress and
  the egress rules of an OCI security list. The loop runs over the rules with the two result slices
  as its state. Every iteration takes the address of a fresh copy of its rule, so the pointers in the
  result never share a target.
\<close>

section \<open>The loop\<close>

text \<open>The port range of a rule, set only when both ports are given; \<open>int(*p)\<close> extends the sign.\<close>

definition tcpOptions :: "SecurityRule \<Rightarrow> TcpOptions option" where
  "tcpOptions r = (case (MinPort r, MaxPort r) of
     (Some minPort, Some maxPort) \<Rightarrow>
       Some \<lparr>DestinationPortRange =
         Some \<lparr>PortMin = Some (scast minPort), PortMax = Some (scast maxPort)\<rparr>\<rparr>
   | _ \<Rightarrow> None)"

definition ingressRule :: "SecurityRule \<Rightarrow> IngressSecurityRule" where
  "ingressRule r = \<lparr>IngressProtocol = Some (Protocol r), IngressSource = Some (Source r),
     IngressDescription = Some (Description r), IngressTcpOptions = tcpOptions r\<rparr>"

definition egressRule :: "SecurityRule \<Rightarrow> EgressSecurityRule" where
  "egressRule r = \<lparr>EgressProtocol = Some (Protocol r), EgressDestination = Some (Destination r),
     EgressDescription = Some (Description r), EgressTcpOptions = tcpOptions r\<rparr>"

fun convertLoop ::
    "SecurityRule list \<Rightarrow> IngressSecurityRule slice \<Rightarrow> EgressSecurityRule slice \<Rightarrow>
     IngressSecurityRule slice \<times> EgressSecurityRule slice" where
  "convertLoop [] ingressRules egressRules = (ingressRules, egressRules)"
| "convertLoop (rule # rules) ingressRules egressRules =
     (if Direction rule = SecurityRuleDirectionIngress
      then convertLoop rules (append_slice ingressRules (ingressRule rule)) egressRules
      else convertLoop rules ingressRules (append_slice egressRules (egressRule rule)))"

definition convertRules ::
    "SecurityRule list \<Rightarrow> IngressSecurityRule slice \<times> EgressSecurityRule slice" where
  "convertRules rules = convertLoop rules None None"

section \<open>Its specification\<close>

definition is_ingress :: "SecurityRule \<Rightarrow> bool" where
  "is_ingress r \<longleftrightarrow> Direction r = SecurityRuleDirectionIngress"

lemma convertLoop_elems:
  "elems (fst (convertLoop rules ins outs)) = elems ins @ map ingressRule (filter is_ingress rules) \<and>
   elems (snd (convertLoop rules ins outs)) =
     elems outs @ map egressRule (filter (\<lambda>r. \<not> is_ingress r) rules)"
  by (induction rules ins outs rule: convertLoop.induct) (auto simp: is_ingress_def)

lemma convertLoop_nil:
  "(fst (convertLoop rules ins outs) = None \<longleftrightarrow> ins = None \<and> filter is_ingress rules = []) \<and>
   (snd (convertLoop rules ins outs) = None \<longleftrightarrow> outs = None \<and> filter (\<lambda>r. \<not> is_ingress r) rules = [])"
  by (induction rules ins outs rule: convertLoop.induct) (auto simp: is_ingress_def)

lemma convertRules_ingress: "elems (fst (convertRules rules)) = map ingressRule (filter is_ingress rules)"
  using convertLoop_elems [of rules None None] by (simp add: convertRules_def)

lemma convertRules_egress:
  "elems (snd (convertRules rules)) = map egressRule (filter (\<lambda>r. \<not> is_ingress r) rules)"
  using convertLoop_elems [of rules None None] by (simp add: convertRules_def)

lemma convertRules_nil:
  "fst (convertRules rules) = None \<longleftrightarrow> filter is_ingress rules = []"
  "snd (convertRules rules) = None \<longleftrightarrow> filter (\<lambda>r. \<not> is_ingress r) rules = []"
  using convertLoop_nil [of rules None None] by (simp_all add: convertRules_def)

section \<open>Ports\<close>

lemma sint_scast_up: "sint (scast (n :: int32) :: int64) = sint n"
  by (simp add: sint_up_scast is_up)

text \<open>The bounds of the CRD carry over to the ports that OCI receives.\<close>

definition port_range_ok :: "TcpOptions \<Rightarrow> bool" where
  "port_range_ok t \<longleftrightarrow> (case DestinationPortRange t of
     None \<Rightarrow> False
   | Some p \<Rightarrow> (case (PortMin p, PortMax p) of
       (Some lo, Some hi) \<Rightarrow> 1 \<le> sint lo \<and> sint lo \<le> 65535 \<and> 1 \<le> sint hi \<and> sint hi \<le> 65535
     | _ \<Rightarrow> False))"

lemma tcpOptions_bounds: "rule_ok r \<Longrightarrow> tcpOptions r = Some t \<Longrightarrow> port_range_ok t"
  by (auto simp: rule_ok_def port_ok_def tcpOptions_def port_range_ok_def sint_scast_up
      split: option.splits)

end
