(* ===== verification/PolicyController.thy ===== *)
theory PolicyController
  imports ConvertRules Failable
begin

text \<open>
  \<open>internal/controller/ocisecuritypolicy_controller.go\<close>. As in \<open>InstanceController\<close>, the receiver is
  the parameter \<open>ext\<close> together with the state field \<open>ociClient\<close> (\<open>r.VirtualNetworkClient\<close>), and the
  variable \<open>policy\<close> is passed along as the object last answered by the API server.
\<close>

type_synonym 'w PolicyExt = "('w, OCISecurityPolicy, 'w OCIVirtualNetworkClient) Ext"
type_synonym 'w PolicySys = "('w, OCISecurityPolicy, VcnCall, 'w OCIVirtualNetworkClient) Sys"

definition ociSecurityPolicyFinalizer :: string where
  "ociSecurityPolicyFinalizer = ''compute.nvcne-demo.io/security-policy-finalizer''"

definition securityPolicyRequeueAfter :: Duration where
  "securityPolicyRequeueAfter = 30 * Second"

section \<open>Calls of the virtual network client\<close>

definition call_create_list ::
    "'w OCIVirtualNetworkClient \<Rightarrow> CreateSecurityListDetails \<Rightarrow> ('w PolicySys, go_error + SecurityList) state" where
  "call_create_list c request = oci_call (CreateSecurityList c request) (CreateListCall request)"

definition call_get_list ::
    "'w OCIVirtualNetworkClient \<Rightarrow> string option \<Rightarrow> ('w PolicySys, go_error + SecurityList) state" where
  "call_get_list c request = oci_call (GetSecurityList c request) (GetListCall request)"

definition call_delete_list ::
    "'w OCIVirtualNetworkClient \<Rightarrow> string option \<Rightarrow> ('w PolicySys, go_error + unit) state" where
  "call_delete_list c request = oci_call (DeleteSecurityList c request) (DeleteListCall request)"

text \<open>\<open>newVirtualNetworkClient\<close>: the SDK constructor, its error wrapped.\<close>

definition newVirtualNetworkClient ::
    "'w PolicyExt \<Rightarrow> ('w PolicySys, go_error + 'w OCIVirtualNetworkClient) state" where
  "newVirtualNetworkClient ext = do {
     r \<leftarrow> new_sdk_client ext;
     State_Monad.return (case r of
       Inl err \<Rightarrow> Inl (Wrapped ''failed to create OCI VCN client: '' err)
     | Inr c \<Rightarrow> Inr c)
   }"

section \<open>Handlers\<close>

definition handlePolicyDeletion ::
    "'w PolicyExt \<Rightarrow> OCISecurityPolicy \<Rightarrow> ('w PolicySys, Outcome) state" where
  "handlePolicyDeletion ext policy =
     (if \<not> ContainsFinalizer ext policy ociSecurityPolicyFinalizer
      then State_Monad.return (Returned zeroResult None)
      else do {
        let lid = SecurityListID (OCISecurityPolicy.Status policy);
        stop \<leftarrow>
          (if lid \<noteq> '''' then do {
             injected \<leftarrow> get_client;
             c \<leftarrow> (case injected of
                Some c \<Rightarrow> State_Monad.return (Inr c)
              | None \<Rightarrow> newVirtualNetworkClient ext);
             case c of
               Inl err \<Rightarrow> State_Monad.return (Some (Returned zeroResult (Some err)))
             | Inr vcnClient \<Rightarrow> do {
                 r \<leftarrow> measureOCICall ext ''ocisecuritypolicy'' ''delete_security_list''
                        (call_delete_list vcnClient (Some lid));
                 State_Monad.return (case r of
                   Inl err \<Rightarrow> Some (Returned \<lparr>RequeueAfter = securityPolicyRequeueAfter\<rparr> (Some err))
                 | Inr _ \<Rightarrow> None)
               }
           }
           else State_Monad.return None);
        case stop of
          Some out \<Rightarrow> State_Monad.return out
        | None \<Rightarrow> do {
            r \<leftarrow> k8s_update ext (RemoveFinalizer ext policy ociSecurityPolicyFinalizer);
            case r of
              Inl err \<Rightarrow> State_Monad.return (Returned zeroResult (Some err))
            | Inr _ \<Rightarrow> State_Monad.return (Returned zeroResult None)
          }
      })"

text \<open>The request of \<open>reconcileNew\<close>, built from the spec as the API server answered it.\<close>

definition createListDetails :: "OCISecurityPolicySpec \<Rightarrow> CreateSecurityListDetails" where
  "createListDetails sp =
     (let (ingressRules, egressRules) = convertRules (Rules sp) in
      \<lparr>ListCompartmentId = Some (OCISecurityPolicySpec.CompartmentID sp),
       ListVcnId = Some (VcnID sp),
       ListDisplayName = Some (OCISecurityPolicySpec.DisplayName sp),
       IngressSecurityRules = ingressRules,
       EgressSecurityRules = egressRules,
       ListFreeformTags = OCISecurityPolicySpec.FreeformTags sp\<rparr>)"

definition reconcileNewPolicy ::
    "'w PolicyExt \<Rightarrow> OCISecurityPolicy \<Rightarrow> 'w OCIVirtualNetworkClient \<Rightarrow> ('w PolicySys, Outcome) state" where
  "reconcileNewPolicy ext policy vcnClient = do {
     inc_phaseTransitions ''ocisecuritypolicy'' SecurityPolicyPhaseCreating;
     r \<leftarrow> k8s_status_update ext (PolicyTypes.set_phase SecurityPolicyPhaseCreating policy);
     case r of
       Inl err \<Rightarrow> State_Monad.return (Returned zeroResult (Some err))
     | Inr policy \<Rightarrow> do {
         r \<leftarrow> measureOCICall ext ''ocisecuritypolicy'' ''create_security_list''
                (call_create_list vcnClient (createListDetails (OCISecurityPolicy.Spec policy)));
         case r of
           Inl err \<Rightarrow> do {
             inc_phaseTransitions ''ocisecuritypolicy'' SecurityPolicyPhaseFailed;
             setFailedStatus policyFailable ext policy (''Failed to create security list: '' @ Error err)
           }
         | Inr response \<Rightarrow>
             (case ListId response of
                None \<Rightarrow> State_Monad.return Panicked
              | Some lid \<Rightarrow> do {
                  inc_phaseTransitions ''ocisecuritypolicy'' SecurityPolicyPhaseActive;
                  r \<leftarrow> k8s_status_update ext
                    (PolicyTypes.SetObservedGeneration (PolicyTypes.GetGeneration policy)
                       (PolicyTypes.set_phase SecurityPolicyPhaseActive (set_security_list_id lid policy)));
                  case r of
                    Inl err \<Rightarrow> State_Monad.return (Returned zeroResult (Some err))
                  | Inr _ \<Rightarrow> State_Monad.return (Returned \<lparr>RequeueAfter = 5 * Minute\<rparr> None)
                })
       }
   }"

text \<open>The \<open>switch\<close> of \<open>reconcileExisting\<close>: the phase for a lifecycle state.\<close>

definition phase_of_list_lifecycle :: "SecurityListLifecycleState \<Rightarrow> SecurityPolicyPhase" where
  "phase_of_list_lifecycle l = (case l of
     SecurityListLifecycleStateAvailable \<Rightarrow> SecurityPolicyPhaseActive
   | SecurityListLifecycleStateProvisioning \<Rightarrow> SecurityPolicyPhaseCreating
   | SecurityListLifecycleStateTerminating \<Rightarrow> SecurityPolicyPhaseDeleting
   | SecurityListLifecycleStateTerminated \<Rightarrow> SecurityPolicyPhaseDeleted
   | SecurityListLifecycleStateOther _ \<Rightarrow> SecurityPolicyPhaseFailed)"

definition reconcileExistingPolicy ::
    "'w PolicyExt \<Rightarrow> OCISecurityPolicy \<Rightarrow> 'w OCIVirtualNetworkClient \<Rightarrow> ('w PolicySys, Outcome) state" where
  "reconcileExistingPolicy ext policy vcnClient = do {
     r \<leftarrow> measureOCICall ext ''ocisecuritypolicy'' ''get_security_list''
            (call_get_list vcnClient (Some (SecurityListID (OCISecurityPolicy.Status policy))));
     case r of
       Inl err \<Rightarrow> State_Monad.return (Returned \<lparr>RequeueAfter = securityPolicyRequeueAfter\<rparr> (Some err))
     | Inr response \<Rightarrow> do {
         let l = ListLifecycleState response;
         let policy = PolicyTypes.set_phase (phase_of_list_lifecycle l) policy;
         inc_phaseTransitions ''ocisecuritypolicy'' (phase_of_list_lifecycle l);
         if l = SecurityListLifecycleStateProvisioning then do {
           r \<leftarrow> k8s_status_update ext policy;
           case r of
             Inl err \<Rightarrow> State_Monad.return (Returned zeroResult (Some err))
           | Inr _ \<Rightarrow> State_Monad.return (Returned \<lparr>RequeueAfter = securityPolicyRequeueAfter\<rparr> None)
         }
         else do {
           r \<leftarrow> k8s_status_update ext
             (PolicyTypes.SetObservedGeneration (PolicyTypes.GetGeneration policy) policy);
           case r of
             Inl err \<Rightarrow> State_Monad.return (Returned zeroResult (Some err))
           | Inr _ \<Rightarrow> State_Monad.return (Returned \<lparr>RequeueAfter = 5 * Minute\<rparr> None)
         }
       }
   }"

section \<open>Reconcile\<close>

definition policy_failed_and_observed :: "OCISecurityPolicy \<Rightarrow> bool" where
  "policy_failed_and_observed policy \<longleftrightarrow>
     OCISecurityPolicyStatus.Phase (OCISecurityPolicy.Status policy) = SecurityPolicyPhaseFailed \<and>
     OCISecurityPolicyStatus.ObservedGeneration (OCISecurityPolicy.Status policy) = Generation (PolMeta policy)"

text \<open>Steps 4 to 6: the client, created on first use and kept, then the two handlers.\<close>

definition reconcileActivePolicy ::
    "'w PolicyExt \<Rightarrow> OCISecurityPolicy \<Rightarrow> ('w PolicySys, Outcome) state" where
  "reconcileActivePolicy ext policy = do {
     injected \<leftarrow> get_client;
     c \<leftarrow> (case injected of
        Some c \<Rightarrow> State_Monad.return (Inr c)
      | None \<Rightarrow> do {
          r \<leftarrow> newVirtualNetworkClient ext;
          case r of
            Inl err \<Rightarrow> State_Monad.return (Inl err)
          | Inr c \<Rightarrow> do { put_client c; State_Monad.return (Inr c) }
        });
     case c of
       Inl err \<Rightarrow> setFailedStatus policyFailable ext policy (''Failed to create OCI client: '' @ Error err)
     | Inr vcnClient \<Rightarrow>
         if SecurityListID (OCISecurityPolicy.Status policy) \<noteq> ''''
         then reconcileExistingPolicy ext policy vcnClient
         else reconcileNewPolicy ext policy vcnClient
   }"

definition reconcilePolicyBody ::
    "'w PolicyExt \<Rightarrow> NamespacedName \<Rightarrow> ('w PolicySys, Outcome) state" where
  "reconcilePolicyBody ext req = do {
     r \<leftarrow> k8s_get ext req;
     case r of
       Inl err \<Rightarrow>
         if IsNotFound ext err then State_Monad.return (Returned zeroResult None)
         else State_Monad.return (Returned zeroResult (Some err))
     | Inr policy \<Rightarrow>
         if \<not> IsZero ext (DeletionTimestamp (PolMeta policy)) then handlePolicyDeletion ext policy
         else if \<not> ContainsFinalizer ext policy ociSecurityPolicyFinalizer then do {
           r \<leftarrow> k8s_update ext (AddFinalizer ext policy ociSecurityPolicyFinalizer);
           case r of
             Inl err \<Rightarrow> State_Monad.return (Returned zeroResult (Some err))
           | Inr _ \<Rightarrow> State_Monad.return (Returned zeroResult None)
         }
         else if policy_failed_and_observed policy then State_Monad.return (Returned zeroResult None)
         else reconcileActivePolicy ext policy
   }"

definition ReconcilePolicy :: "'w PolicyExt \<Rightarrow> NamespacedName \<Rightarrow> ('w PolicySys, Outcome) state" where
  "ReconcilePolicy ext req = do {
     out \<leftarrow> reconcilePolicyBody ext req;
     inc_reconcileTotal ''ocisecuritypolicy'' (outcome_label out);
     State_Monad.return out
   }"

end
