(* ===== verification/Patience.thy ===== *)
theory Patience
  imports Histories InstanceController PolicyController
begin

text \<open>
  What progress of the reconcilers is measured against: outside worlds in which finitely many things go
  wrong. \<open>left w\<close> is the number of setbacks that are still to come: a refused or failed call, or a
  poll that finds the remote object not ready. Every call either does what it is for, or uses up a
  setback and changes nothing; the calls whose failure makes the code give an object up for good (the
  creation of the remote object and, on the way to it, of the client) are not among those that may go wrong. Progress is then a potential argument, made once for both reconcilers and
  for creation and deletion (\<open>bad_runs_bounded\<close>).
\<close>

section \<open>Potential\<close>

text \<open>How many of the first \<open>n\<close> reconciles end in a state that is not \<open>good\<close>.\<close>

definition bad_runs :: "('s, 'a) state \<Rightarrow> ('s \<Rightarrow> bool) \<Rightarrow> nat \<Rightarrow> 's \<Rightarrow> nat" where
  "bad_runs m good n s =
     length (filter (\<lambda>k. \<not> good (snd (run_state (reconciles m (Suc k)) s))) [0..<n])"

lemma bad_runs_Suc:
  "bad_runs m good (Suc n) s =
     (if good (snd (run_state m s)) then 0 else 1) + bad_runs m good n (snd (run_state m s))"
proof -
  have "[0..<Suc n] = 0 # map Suc [0..<n]" by (metis map_Suc_upt upt_conv_Cons zero_less_Suc)
  moreover have "snd (run_state (reconciles m (Suc k)) s) =
      snd (run_state (reconciles m k) (snd (run_state m s)))" for k s
    by (simp add: reconciles.simps split: prod.splits)
  ultimately show ?thesis
    by (simp add: bad_runs_def filter_map comp_def reconciles.simps)
qed

lemma bad_runs_bounded:
  assumes step: "\<And>s. P s \<Longrightarrow> post m (\<lambda>_ t. P t \<and> \<mu> t \<le> \<mu> s \<and> (good t \<or> \<mu> t < \<mu> s)) s"
  shows "P s \<Longrightarrow> bad_runs m good n s \<le> (\<mu> s :: nat)"
proof (induction n arbitrary: s)
  case (Suc n)
  let ?t = "snd (run_state m s)"
  have t: "P ?t" "\<mu> ?t \<le> \<mu> s" "good ?t \<or> \<mu> ?t < \<mu> s"
    using step [OF Suc.prems] by (simp_all add: post_def split: prod.splits)
  show ?case using Suc.IH [OF t(1)] t by (auto simp: bad_runs_Suc)
qed (simp add: bad_runs_def)

section \<open>Calls of a patient world\<close>

text \<open>\<open>obj\<close> reads what the API server holds.\<close>

definition still :: "('w \<Rightarrow> 'a) \<Rightarrow> ('w \<Rightarrow> nat) \<Rightarrow> 'w \<Rightarrow> 'w \<Rightarrow> bool" where
  "still obj left w w' \<longleftrightarrow> obj w' = obj w \<and> left w' = left w"

definition setback :: "('w \<Rightarrow> 'a) \<Rightarrow> ('w \<Rightarrow> nat) \<Rightarrow> 'w \<Rightarrow> 'w \<Rightarrow> bool" where
  "setback obj left w w' \<longleftrightarrow> obj w' = obj w \<and> left w' < left w"

text \<open>Clock and client constructor: never in the way, or with setbacks.\<close>

definition patient_clock :: "('w, 'r, 'c) Ext \<Rightarrow> ('w \<Rightarrow> 'a) \<Rightarrow> ('w \<Rightarrow> nat) \<Rightarrow> bool" where
  "patient_clock ext obj left \<longleftrightarrow> (\<forall>w. still obj left w (snd (Now ext w)))"

definition ready_sdk :: "('w, 'r, 'c) Ext \<Rightarrow> 'c \<Rightarrow> ('w \<Rightarrow> 'a) \<Rightarrow> ('w \<Rightarrow> nat) \<Rightarrow> bool" where
  "ready_sdk ext c obj left \<longleftrightarrow>
     (\<forall>w. fst (NewSdkClient ext w) = Inr c \<and> still obj left w (snd (NewSdkClient ext w)))"

definition patient_sdk :: "('w, 'r, 'c) Ext \<Rightarrow> 'c \<Rightarrow> ('w \<Rightarrow> 'a) \<Rightarrow> ('w \<Rightarrow> nat) \<Rightarrow> bool" where
  "patient_sdk ext c obj left \<longleftrightarrow> (\<forall>w. case NewSdkClient ext w of
     (Inr c', w') \<Rightarrow> c' = c \<and> still obj left w w'
   | (Inl err, w') \<Rightarrow> setback obj left w w')"

text \<open>A call of the cloud client that either goes through or is a setback.\<close>

definition patient_call :: "('w \<Rightarrow> (go_error + 'x) \<times> 'w) \<Rightarrow> ('w \<Rightarrow> 'a) \<Rightarrow> ('w \<Rightarrow> nat) \<Rightarrow> bool" where
  "patient_call f obj left \<longleftrightarrow> (\<forall>w. case f w of
     (Inr x, w') \<Rightarrow> still obj left w w'
   | (Inl err, w') \<Rightarrow> setback obj left w w')"

section \<open>Runs in a patient world\<close>

text \<open>The same on the state of a reconciler; the client it holds is part of it.\<close>

definition stays :: "('w \<Rightarrow> 'a) \<Rightarrow> ('w \<Rightarrow> nat) \<Rightarrow> ('w, 'r, 'o, 'c) Sys \<Rightarrow> ('w, 'r, 'o, 'c) Sys \<Rightarrow> bool" where
  "stays obj left s t \<longleftrightarrow> still obj left (world s) (world t) \<and> ociClient t = ociClient s"

definition slips :: "('w \<Rightarrow> 'a) \<Rightarrow> ('w \<Rightarrow> nat) \<Rightarrow> ('w, 'r, 'o, 'c) Sys \<Rightarrow> ('w, 'r, 'o, 'c) Sys \<Rightarrow> bool" where
  "slips obj left s t \<longleftrightarrow> setback obj left (world s) (world t) \<and> ociClient t = ociClient s"

lemmas patience_defs = stays_def slips_def still_def setback_def

lemma stays_slips_count [simp]:
  "stays obj left s (t\<lparr>phaseTransitions := n\<rparr>) = stays obj left s t"
  "slips obj left s (t\<lparr>phaseTransitions := n\<rparr>) = slips obj left s t"
  by (simp_all add: patience_defs)

lemma slips_after_stays: "stays obj left s t \<Longrightarrow> slips obj left t u \<Longrightarrow> slips obj left s u"
  by (simp add: patience_defs)

lemma stays_trans: "stays obj left s t \<Longrightarrow> stays obj left t u \<Longrightarrow> stays obj left s u"
  by (simp add: patience_defs)

lemma post_sdk:
  assumes "patient_sdk ext c obj left"
    and "\<And>t. stays obj left s t \<Longrightarrow> Q (Inr c) t" and "\<And>err t. slips obj left s t \<Longrightarrow> Q (Inl err) t"
  shows "post (new_sdk_client ext) Q s"
proof -
  obtain r w where n: "NewSdkClient ext (world s) = (r, w)" by (cases "NewSdkClient ext (world s)")
  have "case r of Inr c' \<Rightarrow> c' = c \<and> still obj left (world s) w | Inl err \<Rightarrow> setback obj left (world s) w"
    using assms(1) n by (auto simp: patient_sdk_def dest: spec [of _ "world s"] split: sum.split)
  then show ?thesis
    using n assms(2,3) by (cases r) (simp_all add: new_sdk_client_def patience_defs)
qed

text \<open>A measured call of the cloud client: by its result between two readings of the clock, and as a patient
  call.\<close>
lemma post_measured_call:
  assumes "patient_clock ext obj left"
    and "\<And>r t w w'. f w = (r, w') \<Longrightarrow> still obj left (world s) w \<Longrightarrow> still obj left w' (world t) \<Longrightarrow>
      ociClient t = ociClient s \<Longrightarrow> Q r t"
  shows "post (measureOCICall ext ctl op (oci_call f ev)) Q s"
proof -
  obtain t0 w0 where c0: "Now ext (world s) = (t0, w0)" by (cases "Now ext (world s)")
  obtain r w1 where f: "f w0 = (r, w1)" by (cases "f w0")
  obtain t1 w2 where c1: "Now ext w1 = (t1, w2)" by (cases "Now ext w1")
  have "still obj left (world s) w0" "still obj left w1 w2"
    using assms(1) c0 c1 by (auto simp: patient_clock_def dest: spec [of _ "world s"] spec [of _ w1])
  with f show ?thesis
    by (simp add: c0 f c1 oci_call_def) (rule assms(2) [OF f], simp_all)
qed

lemma post_measured:
  assumes "patient_clock ext obj left" and "patient_call f obj left"
    and "\<And>x t. stays obj left s t \<Longrightarrow> Q (Inr x) t" and "\<And>err t. slips obj left s t \<Longrightarrow> Q (Inl err) t"
  shows "post (measureOCICall ext ctl op (oci_call f ev)) Q s"
proof (rule post_measured_call [OF assms(1)], goal_cases)
  case (1 r t w w')
  have "case r of Inr x \<Rightarrow> still obj left w w' | Inl err \<Rightarrow> setback obj left w w'"
    using assms(2) 1(1) by (auto simp: patient_call_def dest: spec [of _ w] split: sum.split)
  with 1 assms(3,4) show ?case by (cases r) (simp_all add: patience_defs)
qed

section \<open>What a reconciler works for\<close>

text \<open>
  A resource as far as its progress goes: the finalizer, metadata and status, and in the status the id of
  the remote object, the observed generation, and whether the phase is Failed or the one aimed at.
\<close>

record ('r, 'st) Goal =
  g_finalizer :: string
  g_meta :: "'r \<Rightarrow> ObjectMeta"
  g_status :: "'r \<Rightarrow> 'st"
  g_id :: "'st \<Rightarrow> string"
  g_observed :: "'st \<Rightarrow> 64 word"
  g_failed :: "'st \<Rightarrow> bool"
  g_ready :: "'st \<Rightarrow> bool"

section \<open>Deletion\<close>

text \<open>
  \<open>obj\<close> is \<open>None\<close> once the object is gone. A read is current or a setback, and removing the finalizer
  makes the API server drop the object (nobody else holds a finalizer on it), or is a setback.
\<close>

definition patient_deletion ::
    "('w, 'r, 'c) Ext \<Rightarrow> ('r, 'st) Goal \<Rightarrow> NamespacedName \<Rightarrow> ('w \<Rightarrow> 'r option) \<Rightarrow> ('w \<Rightarrow> nat) \<Rightarrow> bool" where
  "patient_deletion ext G req obj left \<longleftrightarrow>
     (\<forall>w. case Get (K8s ext) req w of
        (Inr x, w') \<Rightarrow> obj w = Some x \<and> still obj left w w'
      | (Inl err, w') \<Rightarrow>
          (if IsNotFound ext err then obj w = None \<and> still obj left w w' else setback obj left w w')) \<and>
     (\<forall>w x. obj w = Some x \<longrightarrow> (case Update (K8s ext) (RemoveFinalizer ext x (g_finalizer G)) w of
        (Inr y, w') \<Rightarrow> obj w' = None \<and> left w' = left w
      | (Inl err, w') \<Rightarrow> setback obj left w w'))"

text \<open>The object is gone, or is being deleted and has the finalizer; the client held is a working one.\<close>

definition leaving ::
    "('w, 'r, 'c) Ext \<Rightarrow> ('r, 'st) Goal \<Rightarrow> 'c \<Rightarrow> ('w \<Rightarrow> 'r option) \<Rightarrow> ('w, 'r, 'o, 'c) Sys \<Rightarrow> bool" where
  "leaving ext G c obj s \<longleftrightarrow> (ociClient s = None \<or> ociClient s = Some c) \<and>
     (case obj (world s) of None \<Rightarrow> True
      | Some x \<Rightarrow> \<not> IsZero ext (DeletionTimestamp (g_meta G x)) \<and> ContainsFinalizer ext x (g_finalizer G))"

definition gone :: "('w \<Rightarrow> 'r option) \<Rightarrow> ('w, 'r, 'o, 'c) Sys \<Rightarrow> bool" where
  "gone obj s \<longleftrightarrow> obj (world s) = None"

text \<open>
  Which outcomes make controller-runtime call the reconciler again: an error (also one that a recovered panic
  is turned into), or a delay in the result.
\<close>

fun requeued :: "Outcome \<Rightarrow> bool" where
  "requeued (Returned res err) \<longleftrightarrow> err \<noteq> None \<or> 0 < RequeueAfter res"
| "requeued Panicked \<longleftrightarrow> True"

text \<open>
  What one reconcile does to an object on its way out: it asks to be called again only after a setback, and
  otherwise the object is gone.
\<close>

definition left_behind ::
    "('w, 'r, 'c) Ext \<Rightarrow> ('r, 'st) Goal \<Rightarrow> 'c \<Rightarrow> ('w \<Rightarrow> 'r option) \<Rightarrow> ('w \<Rightarrow> nat) \<Rightarrow>
     ('w, 'r, 'o, 'c) Sys \<Rightarrow> Outcome \<Rightarrow> ('w, 'r, 'o, 'c) Sys \<Rightarrow> bool" where
  "left_behind ext G c obj left s out t \<longleftrightarrow> leaving ext G c obj t \<and> left (world t) \<le> left (world s) \<and>
     (if requeued out then left (world t) < left (world s) else gone obj t)"

lemma left_behind_progress:
  "left_behind ext G c obj left s out t \<Longrightarrow> leaving ext G c obj t \<and> left (world t) \<le> left (world s) \<and>
     (gone obj t \<or> left (world t) < left (world s))"
  by (auto simp: left_behind_def split: if_splits)

lemma slips_leaving:
  "leaving ext G c obj s \<Longrightarrow> slips obj left s t \<Longrightarrow> requeued out \<Longrightarrow> left_behind ext G c obj left s out t"
  by (simp add: left_behind_def leaving_def patience_defs)

lemma stays_gone:
  "leaving ext G c obj s \<Longrightarrow> stays obj left s t \<Longrightarrow> obj (world s) = None \<Longrightarrow> \<not> requeued out \<Longrightarrow>
   left_behind ext G c obj left s out t"
  by (simp add: left_behind_def leaving_def gone_def patience_defs)

lemma left_behind_count [simp]:
  "left_behind ext G c obj left s out (t\<lparr>reconcileTotal := n\<rparr>) = left_behind ext G c obj left s out t"
  by (simp add: left_behind_def leaving_def gone_def)

lemma post_deletion_get:
  assumes "patient_deletion ext G req obj left"
    and "\<And>x t. obj (world s) = Some x \<Longrightarrow> stays obj left s t \<Longrightarrow> Q (Inr x) t"
    and "\<And>err t. IsNotFound ext err \<Longrightarrow> obj (world s) = None \<Longrightarrow> stays obj left s t \<Longrightarrow> Q (Inl err) t"
    and "\<And>err t. \<not> IsNotFound ext err \<Longrightarrow> slips obj left s t \<Longrightarrow> Q (Inl err) t"
  shows "post (k8s_get ext req) Q s"
proof -
  obtain r w where g: "Get (K8s ext) req (world s) = (r, w)" by (cases "Get (K8s ext) req (world s)")
  have "case r of
        Inr x \<Rightarrow> obj (world s) = Some x \<and> still obj left (world s) w
      | Inl err \<Rightarrow> (if IsNotFound ext err then obj (world s) = None \<and> still obj left (world s) w
          else setback obj left (world s) w)"
    using assms(1) g by (auto simp: patient_deletion_def dest: spec [of _ "world s"] split: sum.split)
  then show ?thesis
    using g assms(2-) by (auto simp: k8s_get_def patience_defs split: sum.splits if_splits)
qed

lemma post_deletion_update:
  assumes "patient_deletion ext G req obj left" "obj (world s) = Some x"
    and "\<And>y t. obj (world t) = None \<Longrightarrow> left (world t) = left (world s) \<Longrightarrow> ociClient t = ociClient s \<Longrightarrow> Q (Inr y) t"
    and "\<And>err t. slips obj left s t \<Longrightarrow> Q (Inl err) t"
  shows "post (k8s_update ext (RemoveFinalizer ext x (g_finalizer G))) Q s"
proof -
  let ?f = "Update (K8s ext) (RemoveFinalizer ext x (g_finalizer G))"
  obtain r w where u: "?f (world s) = (r, w)" by (cases "?f (world s)")
  have "case r of Inr y \<Rightarrow> obj w = None \<and> left w = left (world s) | Inl err \<Rightarrow> setback obj left (world s) w"
    using assms(1,2) u by (auto simp: patient_deletion_def dest: spec [of _ "world s"] split: sum.split)
  then show ?thesis
    using u assms(3,4) by (auto simp: k8s_update_def patience_defs split: sum.splits)
qed

text \<open>The calls of a deletion, from a state \<open>t\<close> that the run has reached without setback.\<close>

lemma release_left_behind:
  assumes "patient_deletion ext G req obj left" "leaving ext G c obj s"
    and "stays obj left s t" "obj (world s) = Some x"
  shows "post (k8s_update ext (RemoveFinalizer ext x (g_finalizer G)))
    (\<lambda>r. case r of Inl err \<Rightarrow> left_behind ext G c obj left s (Returned zeroResult (Some err))
       | Inr _ \<Rightarrow> left_behind ext G c obj left s (Returned zeroResult None)) t"
  by (rule post_deletion_update [OF assms(1)])
    (use assms in \<open>auto simp: patience_defs left_behind_def leaving_def gone_def zeroResult_def\<close>)

lemma sdk_left_behind:
  assumes "patient_sdk ext c obj left" "leaving ext G c obj s" "stays obj left s t"
    and "\<And>u. stays obj left s u \<Longrightarrow> Q (Inr c) u"
    and "\<And>err u. (\<And>out. requeued out \<Longrightarrow> left_behind ext G c obj left s out u) \<Longrightarrow> Q (Inl err) u"
  shows "post (new_sdk_client ext) Q t"
  by (rule post_sdk [OF assms(1)])
    (use assms(4,5) stays_trans [OF assms(3)] slips_leaving [OF assms(2)] slips_after_stays [OF assms(3)] in blast)+

lemma call_left_behind:
  assumes "patient_clock ext obj left" "patient_call f obj left" "leaving ext G c obj s" "stays obj left s t"
    and "\<And>x u. stays obj left s u \<Longrightarrow> Q (Inr x) u"
    and "\<And>err u. (\<And>out. requeued out \<Longrightarrow> left_behind ext G c obj left s out u) \<Longrightarrow> Q (Inl err) u"
  shows "post (measureOCICall ext ctl op (oci_call f ev)) Q t"
  by (rule post_measured [OF assms(1,2)])
    (use assms(5,6) stays_trans [OF assms(4)] slips_leaving [OF assms(3)] slips_after_stays [OF assms(4)] in blast)+

lemma get_left_behind:
  assumes "patient_deletion ext G req obj left" "leaving ext G c obj s"
    and "\<And>x t. obj (world s) = Some x \<Longrightarrow> stays obj left s t \<Longrightarrow> Q (Inr x) t"
    and "\<And>err t. (\<And>out. requeued out \<longleftrightarrow> \<not> IsNotFound ext err \<Longrightarrow> left_behind ext G c obj left s out t) \<Longrightarrow>
      Q (Inl err) t"
  shows "post (k8s_get ext req) Q s"
  by (rule post_deletion_get [OF assms(1)])
    (use assms(3,4) slips_leaving [OF assms(2)] stays_gone [OF assms(2)] in blast)+

section \<open>Provisioning\<close>

text \<open>
  Now \<open>obj\<close> is the object itself. Reads are current, a status write of the current object changes the
  status to what was written, adding the finalizer adds it, each with or as a setback; the rest of the
  object that the reconcilers look at stays.
\<close>

definition same_rest :: "('w, 'r, 'c) Ext \<Rightarrow> ('r, 'st) Goal \<Rightarrow> 'r \<Rightarrow> 'r \<Rightarrow> bool" where
  "same_rest ext G x y \<longleftrightarrow> Generation (g_meta G y) = Generation (g_meta G x) \<and>
     DeletionTimestamp (g_meta G y) = DeletionTimestamp (g_meta G x) \<and>
     (ContainsFinalizer ext x (g_finalizer G) \<longrightarrow> ContainsFinalizer ext y (g_finalizer G))"

definition patient_api ::
    "('w, 'r, 'c) Ext \<Rightarrow> ('r, 'st) Goal \<Rightarrow> NamespacedName \<Rightarrow>
     ('w \<Rightarrow> 'r) \<Rightarrow> ('w \<Rightarrow> nat) \<Rightarrow> bool" where
  "patient_api ext G req obj left \<longleftrightarrow>
     (\<forall>w. case Get (K8s ext) req w of
        (Inr x, w') \<Rightarrow> x = obj w \<and> still obj left w w'
      | (Inl err, w') \<Rightarrow> setback obj left w w') \<and>
     (\<forall>w y. g_meta G y = g_meta G (obj w) \<longrightarrow> (case StatusUpdate (K8s ext) y w of
        (Inr z, w') \<Rightarrow> z = obj w' \<and> g_status G z = g_status G y \<and> same_rest ext G (obj w) z \<and> left w' = left w
      | (Inl err, w') \<Rightarrow> setback obj left w w')) \<and>
     (\<forall>w. case Update (K8s ext) (AddFinalizer ext (obj w) (g_finalizer G)) w of
        (Inr z, w') \<Rightarrow> z = obj w' \<and> g_status G z = g_status G (obj w) \<and> same_rest ext G (obj w) z \<and>
          ContainsFinalizer ext z (g_finalizer G) \<and> left w' = left w
      | (Inl err, w') \<Rightarrow> setback obj left w w')"

lemma same_rest_trans:
  "same_rest ext G x y \<Longrightarrow> same_rest ext G y z \<Longrightarrow> same_rest ext G x z"
  by (simp add: same_rest_def)

lemma same_rest_refl [simp]: "same_rest ext G x x"
  by (simp add: same_rest_def)

lemma patient_apiD:
  assumes "patient_api ext G req obj left"
  shows "case Get (K8s ext) req w of
        (Inr x, w') \<Rightarrow> x = obj w \<and> still obj left w w'
      | (Inl err, w') \<Rightarrow> setback obj left w w'"
    and "g_meta G y = g_meta G (obj w) \<Longrightarrow> case StatusUpdate (K8s ext) y w of
        (Inr z, w') \<Rightarrow> z = obj w' \<and> g_status G z = g_status G y \<and> same_rest ext G (obj w) z \<and> left w' = left w
      | (Inl err, w') \<Rightarrow> setback obj left w w'"
    and "case Update (K8s ext) (AddFinalizer ext (obj w) (g_finalizer G)) w of
        (Inr z, w') \<Rightarrow> z = obj w' \<and> g_status G z = g_status G (obj w) \<and> same_rest ext G (obj w) z \<and>
          ContainsFinalizer ext z (g_finalizer G) \<and> left w' = left w
      | (Inl err, w') \<Rightarrow> setback obj left w w'"
  using assms by (simp_all only: patient_api_def)

lemma post_api_get:
  assumes "patient_api ext G req obj left"
    and "\<And>t. stays obj left s t \<Longrightarrow> Q (Inr (obj (world s))) t"
    and "\<And>err t. slips obj left s t \<Longrightarrow> Q (Inl err) t"
  shows "post (k8s_get ext req) Q s"
proof -
  obtain r w where g: "Get (K8s ext) req (world s) = (r, w)" by (cases "Get (K8s ext) req (world s)")
  have "case r of Inr x \<Rightarrow> x = obj (world s) \<and> still obj left (world s) w | Inl err \<Rightarrow> setback obj left (world s) w"
    using patient_apiD(1) [OF assms(1), of "world s"] g by simp
  then show ?thesis
    using g assms(2,3) by (cases r) (simp_all add: k8s_get_def patience_defs)
qed

lemma post_api_status:
  assumes "patient_api ext G req obj left" "g_meta G y = g_meta G (obj (world s))"
    and "\<And>t. g_status G (obj (world t)) = g_status G y \<Longrightarrow> same_rest ext G (obj (world s)) (obj (world t)) \<Longrightarrow>
      left (world t) = left (world s) \<Longrightarrow> ociClient t = ociClient s \<Longrightarrow> Q (Inr (obj (world t))) t"
    and "\<And>err t. slips obj left s t \<Longrightarrow> Q (Inl err) t"
  shows "post (k8s_status_update ext y) Q s"
proof -
  obtain r w where u: "StatusUpdate (K8s ext) y (world s) = (r, w)" by (cases "StatusUpdate (K8s ext) y (world s)")
  have "case r of Inr z \<Rightarrow> z = obj w \<and> g_status G z = g_status G y \<and> same_rest ext G (obj (world s)) z \<and> left w = left (world s)
     | Inl err \<Rightarrow> setback obj left (world s) w"
    using patient_apiD(2) [OF assms(1,2)] u by simp
  then show ?thesis
    using u assms(3) [of "s\<lparr>world := w, calls := calls s @ [KStatusUpdate y r]\<rparr>"] assms(4)
    by (cases r) (auto simp: k8s_status_update_def patience_defs)
qed

lemma post_api_finalizer:
  assumes "patient_api ext G req obj left" "x = obj (world s)"
    and "\<And>t. g_status G (obj (world t)) = g_status G x \<Longrightarrow> same_rest ext G x (obj (world t)) \<Longrightarrow>
      ContainsFinalizer ext (obj (world t)) (g_finalizer G) \<Longrightarrow> left (world t) = left (world s) \<Longrightarrow> ociClient t = ociClient s \<Longrightarrow> Q (Inr (obj (world t))) t"
    and "\<And>err t. slips obj left s t \<Longrightarrow> Q (Inl err) t"
  shows "post (k8s_update ext (AddFinalizer ext x (g_finalizer G))) Q s"
proof -
  let ?f = "Update (K8s ext) (AddFinalizer ext x (g_finalizer G))"
  obtain r w where u: "?f (world s) = (r, w)" by (cases "?f (world s)")
  have "case r of Inr z \<Rightarrow> z = obj w \<and> g_status G z = g_status G x \<and> same_rest ext G x z \<and>
      ContainsFinalizer ext z (g_finalizer G) \<and> left w = left (world s)
     | Inl err \<Rightarrow> setback obj left (world s) w"
    using patient_apiD(3) [OF assms(1), of "world s", folded assms(2)] u by simp
  then show ?thesis
    using u assms(3) [of "s\<lparr>world := w, calls := calls s @ [KUpdate (AddFinalizer ext x (g_finalizer G)) r]\<rparr>"] assms(4)
    by (cases r) (auto simp: k8s_update_def patience_defs)
qed

section \<open>Under way\<close>

text \<open>Neither deleted nor given up on, and once its remote object is recorded, not failed.\<close>

definition underway ::
    "('w, 'r, 'c) Ext \<Rightarrow> ('r, 'st) Goal \<Rightarrow> 'c \<Rightarrow> ('w \<Rightarrow> 'r) \<Rightarrow> ('w, 'r, 'o, 'c) Sys \<Rightarrow> bool" where
  "underway ext G c obj s \<longleftrightarrow> (let x = obj (world s); st = g_status G x in
     (ociClient s = None \<or> ociClient s = Some c) \<and> IsZero ext (DeletionTimestamp (g_meta G x)) \<and>
     (if g_id G st = '''' then \<not> (g_failed G st \<and> g_observed G st = Generation (g_meta G x))
      else ContainsFinalizer ext x (g_finalizer G) \<and> \<not> g_failed G st))"

text \<open>The remote object is recorded and ready, and the generation observed.\<close>

definition arrived :: "('r, 'st) Goal \<Rightarrow> ('w \<Rightarrow> 'r) \<Rightarrow> ('w, 'r, 'o, 'c) Sys \<Rightarrow> bool" where
  "arrived G obj s \<longleftrightarrow> (let x = obj (world s); st = g_status G x in
     g_id G st \<noteq> '''' \<and> g_ready G st \<and> g_observed G st = Generation (g_meta G x))"

text \<open>The setbacks to come, and the steps to go: finalizer, remote object.\<close>

definition way_to_go ::
    "('w, 'r, 'c) Ext \<Rightarrow> ('r, 'st) Goal \<Rightarrow> ('w \<Rightarrow> 'r) \<Rightarrow> ('w \<Rightarrow> nat) \<Rightarrow> ('w, 'r, 'o, 'c) Sys \<Rightarrow> nat" where
  "way_to_go ext G obj left s = left (world s) +
     (if g_id G (g_status G (obj (world s))) \<noteq> '''' then 0
      else if ContainsFinalizer ext (obj (world s)) (g_finalizer G) then 1 else 2)"

definition advances ::
    "('w, 'r, 'c) Ext \<Rightarrow> ('r, 'st) Goal \<Rightarrow> 'c \<Rightarrow> ('w \<Rightarrow> 'r) \<Rightarrow> ('w \<Rightarrow> nat) \<Rightarrow>
     ('w, 'r, 'o, 'c) Sys \<Rightarrow> ('w, 'r, 'o, 'c) Sys \<Rightarrow> bool" where
  "advances ext G c obj left s t \<longleftrightarrow> underway ext G c obj t \<and>
     way_to_go ext G obj left t \<le> way_to_go ext G obj left s \<and>
     (arrived G obj t \<or> way_to_go ext G obj left t < way_to_go ext G obj left s)"

lemmas stage_defs = advances_def underway_def arrived_def way_to_go_def Let_def

text \<open>States that differ in the collectors only.\<close>

lemma advances_frame [simp]:
  "advances ext G c obj left s (t\<lparr>reconcileTotal := n\<rparr>) = advances ext G c obj left s t"
  by (simp add: stage_defs)

text \<open>A setback that leaves the object, and the finalizer.\<close>

lemma setback_advances:
  assumes "underway ext G c obj s" "obj (world t) = obj (world s)" "left (world t) < left (world s)"
    "ociClient t = ociClient s \<or> ociClient t = Some c"
  shows "advances ext G c obj left s t"
  using assms by (auto simp: stage_defs)

lemma finalizer_advances:
  assumes api: "patient_api ext G req obj left" and s: "underway ext G c obj s"
    and t: "stays obj left s t" "\<not> ContainsFinalizer ext (obj (world s)) (g_finalizer G)"
  shows "post (k8s_update ext (AddFinalizer ext (obj (world s)) (g_finalizer G)))
    (\<lambda>_. advances ext G c obj left s) t"
  by (rule post_api_finalizer [OF api])
    (use s t in \<open>auto simp: stage_defs same_rest_def patience_defs split: if_splits\<close>)

text \<open>The progress that such steps add up to.\<close>

lemma advances_bound:
  assumes step: "\<And>s. underway ext G c obj s \<Longrightarrow> post m (\<lambda>_. advances ext G c obj left s) s"
    and s: "underway ext G c obj s"
  shows "bad_runs m (arrived G obj) n s \<le> left (world s) + 2"
proof -
  have "bad_runs m (arrived G obj) n s \<le> way_to_go ext G obj left s"
    by (rule bad_runs_bounded [where P = "underway ext G c obj"])
      (rule post_mono [OF step], use s in \<open>simp_all add: advances_def\<close>)
  also have "\<dots> \<le> left (world s) + 2" by (simp add: way_to_go_def)
  finally show ?thesis .
qed

text \<open>
  The status writes of a run. \<open>u\<close> is where the run has got to, at most one write and some setbacks
  after \<open>s\<close>. The write records the remote object, or comes after a setback, or reports it ready.
\<close>

definition at_write ::
    "('w, 'r, 'c) Ext \<Rightarrow> ('r, 'st) Goal \<Rightarrow> 'c \<Rightarrow> ('w \<Rightarrow> 'r) \<Rightarrow> ('w \<Rightarrow> nat) \<Rightarrow>
     ('w, 'r, 'o, 'c) Sys \<Rightarrow> ('w, 'r, 'o, 'c) Sys \<Rightarrow> bool" where
  "at_write ext G c obj left s u \<longleftrightarrow> underway ext G c obj s \<and>
     ContainsFinalizer ext (obj (world s)) (g_finalizer G) \<and>
     same_rest ext G (obj (world s)) (obj (world u)) \<and>
     left (world u) \<le> left (world s) \<and> ociClient u = Some c \<and>
     g_id G (g_status G (obj (world u))) = g_id G (g_status G (obj (world s))) \<and>
     (obj (world u) = obj (world s) \<or> \<not> g_failed G (g_status G (obj (world u))))"

lemma at_write_here:
  assumes "underway ext G c obj s" "ContainsFinalizer ext (obj (world s)) (g_finalizer G)"
    "obj (world u) = obj (world s)" "left (world u) \<le> left (world s)" "ociClient u = Some c"
  shows "at_write ext G c obj left s u"
  using assms by (simp add: at_write_def)

lemma at_write_stays: "at_write ext G c obj left s t \<Longrightarrow> stays obj left t u \<Longrightarrow> at_write ext G c obj left s u"
  by (simp add: at_write_def patience_defs)

lemma at_write_slips:
  assumes "at_write ext G c obj left s t" "slips obj left t u"
  shows "at_write ext G c obj left s u" and "left (world u) < left (world s)"
  using assms by (simp_all add: at_write_def patience_defs)

lemma at_write_count [simp]:
  "at_write ext G c obj left s (t\<lparr>phaseTransitions := n\<rparr>) = at_write ext G c obj left s t"
  by (simp add: at_write_def)

text \<open>What a type of resource owes its reconciler: a ready object is not a failed one.\<close>

locale goal =
  fixes G :: "('r, 'st) Goal"
  assumes ready_not_failed: "g_ready G st \<Longrightarrow> \<not> g_failed G st"
begin

lemma write_advances:
  assumes api: "patient_api ext G req obj left" and u: "at_write ext G c obj left s u"
    and y: "g_meta G y = g_meta G (obj (world u))" "g_id G (g_status G y) \<noteq> ''''" "\<not> g_failed G (g_status G y)"
    and why: "left (world u) < left (world s) \<or> g_id G (g_status G (obj (world s))) = '''' \<or>
      g_ready G (g_status G y) \<and> g_observed G (g_status G y) = Generation (g_meta G (obj (world s)))"
  shows "post (k8s_status_update ext y) (\<lambda>_. advances ext G c obj left s) u"
proof (rule post_api_status [OF api y(1)], goal_cases)
  case (1 t)
  then show ?case using u y why by (auto simp: at_write_def stage_defs same_rest_def split: if_splits)
next
  case (2 err t)
  then show ?case using u by (auto simp: at_write_def stage_defs same_rest_def patience_defs split: if_splits)
qed

lemma ready_advances:
  assumes "patient_api ext G req obj left" "at_write ext G c obj left s u"
    and "g_meta G y = g_meta G (obj (world u))" "g_id G (g_status G y) \<noteq> ''''"
    and "g_ready G (g_status G y)" "g_observed G (g_status G y) = Generation (g_meta G (obj (world s)))"
  shows "post (k8s_status_update ext y) (\<lambda>_. advances ext G c obj left s) u"
  using assms by (intro write_advances) (simp_all add: ready_not_failed)

text \<open>The write that announces the creation: what follows it is again a write of this kind.\<close>

lemma start_advances:
  assumes api: "patient_api ext G req obj left" and u: "at_write ext G c obj left s u" "obj (world u) = obj (world s)"
    and y: "g_meta G y = g_meta G (obj (world u))" "\<not> g_failed G (g_status G y)"
      "g_id G (g_status G y) = g_id G (g_status G (obj (world s)))"
    and ok: "\<And>t. at_write ext G c obj left s t \<Longrightarrow> g_status G (obj (world t)) = g_status G y \<Longrightarrow>
      left (world t) = left (world u) \<Longrightarrow> Q (Inr (obj (world t))) t"
    and err: "\<And>err t. advances ext G c obj left s t \<Longrightarrow> Q (Inl err) t"
  shows "post (k8s_status_update ext y) Q u"
proof (rule post_api_status [OF api y(1)], goal_cases)
  case (1 t)
  then show ?case using u y by (intro ok) (auto simp: at_write_def same_rest_def)
next
  case (2 e t)
  then show ?case using u by (intro err setback_advances) (auto simp: at_write_def patience_defs)
qed

end

end
