(* ===== verification/Fixtures.thy ===== *)
theory Fixtures
  imports InstanceController PolicyController
begin

text \<open>
  A small outside world that computes: an API server with one object, its resource version bumped by
  every write, its status a subresource, and a cloud that answers from a script. It instantiates the
  parameters of the model wherever a property is applied to a concrete run; no property is about it.
\<close>

section \<open>The world\<close>

record ('r, 'l) World =
  w_object :: "'r option"
  w_version :: nat
  w_faults :: "bool list"
  w_cloud :: "'l list"
  w_clock :: Time

text \<open>How to reach the metadata and the status of a resource type.\<close>

record 'r Parts =
  meta_of :: "'r \<Rightarrow> ObjectMeta"
  with_meta :: "ObjectMeta \<Rightarrow> 'r \<Rightarrow> 'r"
  with_status_of :: "'r \<Rightarrow> 'r \<Rightarrow> 'r"

definition not_found_error :: go_error where "not_found_error = Opaque 404 ''not found''"
definition conflict_error :: go_error where "conflict_error = Opaque 409 ''conflict''"
definition cloud_error :: go_error where "cloud_error = Opaque 500 ''out of capacity''"

definition version_text :: "nat \<Rightarrow> string" where "version_text n = replicate n (CHR ''v'')"

definition api_get :: "NamespacedName \<Rightarrow> ('r, 'l) World \<Rightarrow> (go_error + 'r) \<times> ('r, 'l) World" where
  "api_get key w = (case w_object w of None \<Rightarrow> (Inl not_found_error, w) | Some x \<Rightarrow> (Inr x, w))"

text \<open>A write is refused when the next fault is set or the resource version is not the current one.\<close>

definition api_write ::
    "'r Parts \<Rightarrow> ('r \<Rightarrow> 'r \<Rightarrow> 'r) \<Rightarrow> 'r \<Rightarrow> ('r, 'l) World \<Rightarrow> (go_error + 'r) \<times> ('r, 'l) World" where
  "api_write P merge y w = (let w' = w\<lparr>w_faults := tl (w_faults w)\<rparr> in
     case w_object w of
       None \<Rightarrow> (Inl not_found_error, w')
     | Some x \<Rightarrow>
         if (w_faults w \<noteq> [] \<and> hd (w_faults w)) \<or>
            ResourceVersion (meta_of P y) \<noteq> ResourceVersion (meta_of P x)
         then (Inl conflict_error, w')
         else (let z = merge y x; n = Suc (w_version w);
                   z' = with_meta P ((meta_of P z)\<lparr>ResourceVersion := version_text n\<rparr>) z;
                   gone = DeletionTimestamp (meta_of P z') \<noteq> None \<and> Finalizers (meta_of P z') = []
               in (Inr z', w'\<lparr>w_object := (if gone then None else Some z'), w_version := n\<rparr>)))"

definition api_client :: "'r Parts \<Rightarrow> (('r, 'l) World, 'r) Client" where
  "api_client P = \<lparr>Get = api_get,
     Update = api_write P (\<lambda>y x. with_status_of P x y),
     StatusUpdate = api_write P (\<lambda>y x. with_status_of P y x)\<rparr>"

definition world_ext ::
    "'r Parts \<Rightarrow> (('r, 'l) World \<Rightarrow> (go_error + 'c) \<times> ('r, 'l) World) \<Rightarrow> (('r, 'l) World, 'r, 'c) Ext" where
  "world_ext P sdk = \<lparr>K8s = api_client P,
     IsNotFound = (\<lambda>e. e = not_found_error),
     IsZero = (\<lambda>t. t = None),
     ContainsFinalizer = (\<lambda>x f. f \<in> set (Finalizers (meta_of P x))),
     AddFinalizer = (\<lambda>x f. with_meta P ((meta_of P x)\<lparr>Finalizers := Finalizers (meta_of P x) @ [f]\<rparr>) x),
     RemoveFinalizer = (\<lambda>x f. with_meta P
       ((meta_of P x)\<lparr>Finalizers := filter (\<lambda>g. g \<noteq> f) (Finalizers (meta_of P x))\<rparr>) x),
     ObjectKeyFromObject = (\<lambda>x. \<lparr>NN_Namespace = Namespace (meta_of P x), NN_Name = Name (meta_of P x)\<rparr>),
     NewSdkClient = sdk,
     Now = (\<lambda>w. (w_clock w, w\<lparr>w_clock := w_clock w + 1\<rparr>))\<rparr>"

definition world_start :: "'r option \<Rightarrow> bool list \<Rightarrow> 'l list \<Rightarrow> ('r, 'l) World" where
  "world_start x faults cloud =
     \<lparr>w_object = x, w_version = 1, w_faults = faults, w_cloud = cloud, w_clock = 0\<rparr>"

definition fresh_sys :: "'w \<Rightarrow> 'c option \<Rightarrow> ('w, 'r, 'o, 'c) Sys" where
  "fresh_sys w c = \<lparr>world = w, calls = [], ociClient = c, reconcileTotal = (\<lambda>_. 0),
     ociAPICallDuration = [], phaseTransitions = (\<lambda>_. 0)\<rparr>"

definition demo_request :: NamespacedName where
  "demo_request = \<lparr>NN_Namespace = ''ns'', NN_Name = ''demo''\<rparr>"

definition demo_meta :: "nat \<Rightarrow> string list \<Rightarrow> Time option \<Rightarrow> ObjectMeta" where
  "demo_meta n fins deleted = \<lparr>Name = ''demo'', Namespace = ''ns'', ResourceVersion = version_text n,
     Generation = 1, DeletionTimestamp = deleted, Finalizers = fins\<rparr>"

section \<open>Instances\<close>

definition inst_parts :: "OCIInstance Parts" where
  "inst_parts = \<lparr>meta_of = InstMeta, with_meta = (\<lambda>m x. x\<lparr>InstMeta := m\<rparr>),
     with_status_of = (\<lambda>y x. x\<lparr>OCIInstance.Status := OCIInstance.Status y\<rparr>)\<rparr>"

text \<open>A cloud that launches \<open>ocid1\<close>, or refuses if its script is empty, and reports the scripted states.\<close>

type_synonym InstWorld = "(OCIInstance, InstanceLifecycleState) World"

definition cloud_compute :: "InstWorld OCIComputeClient" where
  "cloud_compute = \<lparr>
     LaunchInstance = (\<lambda>d w. (if w_cloud w = [] then Inl cloud_error
       else Inr \<lparr>InstId = Some ''ocid1'', InstLifecycleState = InstanceLifecycleStateProvisioning\<rparr>, w)),
     GetInstance = (\<lambda>i w. case w_cloud w of
         [] \<Rightarrow> (Inl cloud_error, w)
       | l # ls \<Rightarrow> (Inr \<lparr>InstId = i, InstLifecycleState = l\<rparr>, w\<lparr>w_cloud := (if ls = [] then [l] else ls)\<rparr>)),
     TerminateInstance = (\<lambda>i w. (if w_cloud w = [] then Inl cloud_error else Inr (), w))\<rparr>"

definition inst_ext :: "InstWorld InstanceExt" where
  "inst_ext = world_ext inst_parts (\<lambda>w. (Inr cloud_compute, w))"

definition demo_inst_spec :: OCIInstanceSpec where
  "demo_inst_spec = \<lparr>OCIInstanceSpec.CompartmentID = ''c'', DisplayName = ''d'', Shape = ''s'', ImageID = ''i'',
     AvailabilityDomain = ''ad'', SubnetID = ''n'', OCPUs = Some ''2'', MemoryInGBs = Some ''16'',
     OCIInstanceSpec.FreeformTags = None\<rparr>"

definition demo_inst :: "nat \<Rightarrow> string list \<Rightarrow> Time option \<Rightarrow> string \<Rightarrow> InstancePhase \<Rightarrow> int64 \<Rightarrow> OCIInstance" where
  "demo_inst n fins deleted iid phase observed =
     \<lparr>InstTypeMeta = \<lparr>Kind = ''OCIInstance'', APIVersion = ''v1alpha1''\<rparr>,
      InstMeta = demo_meta n fins deleted, OCIInstance.Spec = demo_inst_spec,
      Status = \<lparr>InstanceID = iid, Phase = phase, PrivateIP = '''', PublicIP = '''', FailureReason = '''',
        ObservedGeneration = observed, Conditions = None\<rparr>\<rparr>"

definition inst_sys ::
    "OCIInstance option \<Rightarrow> bool list \<Rightarrow> InstanceLifecycleState list \<Rightarrow> InstWorld InstanceSys" where
  "inst_sys x faults cloud = fresh_sys (world_start x faults cloud) None"

text \<open>Executing a run in these worlds.\<close>

lemma ran: "post m (\<lambda>a t. a = A \<and> calls t = calls s @ E) s \<Longrightarrow> outcome m s = A \<and> events m s = E"
  by (simp add: post_outcome events_def)

lemmas world_defs = world_ext_def api_client_def api_get_def api_write_def fresh_sys_def world_start_def
  version_text_def demo_meta_def eval_nat_numeral

lemmas inst_world_defs = world_defs inst_ext_def inst_sys_def inst_parts_def cloud_compute_def demo_inst_def
  instance_phase_defs failed_and_observed_def

lemmas inst_run_defs = Reconcile_def reconcileBody_def reconcileActive_def reconcileNew_def reconcileExisting_def
  handleDeletion_def newComputeClient_def call_launch_def call_get_def call_terminate_def call_defs Let_def

lemma inst_demo_facts:
  "IsZero inst_ext t \<longleftrightarrow> t = None"
  "ContainsFinalizer inst_ext x f \<longleftrightarrow> f \<in> set (Finalizers (InstMeta x))"
  "Finalizers (InstMeta (demo_inst n fins deleted i ph g)) = fins"
  "DeletionTimestamp (InstMeta (demo_inst n fins deleted i ph g)) = deleted"
  "Generation (InstMeta (demo_inst n fins deleted i ph g)) = 1"
  "OCIInstance.Spec (demo_inst n fins deleted i ph g) = demo_inst_spec"
  "InstanceID (OCIInstance.Status (demo_inst n fins deleted i ph g)) = i"
  "OCIInstanceStatus.Phase (OCIInstance.Status (demo_inst n fins deleted i ph g)) = ph"
  "OCIInstanceStatus.ObservedGeneration (OCIInstance.Status (demo_inst n fins deleted i ph g)) = g"
  by (simp_all add: inst_ext_def world_ext_def inst_parts_def demo_inst_def demo_meta_def)

lemmas inst_setter_defs = InstanceTypes.set_phase_def InstanceTypes.SetObservedGeneration_def
  InstanceTypes.GetGeneration_def set_instance_id_def

abbreviation inst_ready :: "nat \<Rightarrow> string \<Rightarrow> InstancePhase \<Rightarrow> int64 \<Rightarrow> OCIInstance" where
  "inst_ready n \<equiv> demo_inst n [ociInstanceFinalizer] None"

abbreviation inst_leaving :: "nat \<Rightarrow> string list \<Rightarrow> OCIInstance" where
  "inst_leaving n fins \<equiv> demo_inst n fins (Some 7) ''ocid1'' '''' 0"

text \<open>A launch, a launch whose id is lost, a poll, and a deletion.\<close>

definition launching_sys :: "InstWorld InstanceSys" where
  "launching_sys = inst_sys (Some (inst_ready 1 '''' '''' 0)) [] [InstanceLifecycleStateRunning]"

definition losing_sys :: "InstWorld InstanceSys" where
  "losing_sys = inst_sys (Some (inst_ready 1 '''' '''' 0)) [False, True] [InstanceLifecycleStateRunning]"

definition polling_sys :: "InstWorld InstanceSys" where
  "polling_sys = inst_sys (Some (inst_ready 1 ''ocid1'' '''' 0)) [] [InstanceLifecycleStateRunning]"

definition leaving_sys :: "InstWorld InstanceSys" where
  "leaving_sys = inst_sys (Some (inst_leaving 1 [ociInstanceFinalizer])) [] [InstanceLifecycleStateRunning]"

definition given_up_sys :: "InstWorld InstanceSys" where
  "given_up_sys = inst_sys (Some (inst_ready 1 '''' ''Failed'' 1)) [] [InstanceLifecycleStateRunning]"

lemmas inst_sys_defs = given_up_sys_def launching_sys_def losing_sys_def polling_sys_def leaving_sys_def

abbreviation launched_demo :: CoreInstance where
  "launched_demo \<equiv> \<lparr>InstId = Some ''ocid1'', InstLifecycleState = InstanceLifecycleStateProvisioning\<rparr>"

lemma launching_run:
  "outcome (Reconcile inst_ext demo_request) launching_sys = Returned \<lparr>RequeueAfter = requeueAfter\<rparr> None \<and>
   events (Reconcile inst_ext demo_request) launching_sys =
     [KGet demo_request (Inr (inst_ready 1 '''' '''' 0)), SdkClient None,
      KStatusUpdate (inst_ready 1 '''' ''Provisioning'' 0) (Inr (inst_ready 2 '''' ''Provisioning'' 0)),
      Oci (LaunchCall (launchDetails demo_inst_spec) (Inr launched_demo)),
      KStatusUpdate (inst_ready 2 ''ocid1'' ''Provisioning'' 1)
        (Inr (inst_ready 3 ''ocid1'' ''Provisioning'' 1))]"
  by (rule ran) (simp add: inst_run_defs inst_world_defs inst_sys_defs inst_setter_defs)

lemma losing_run:
  "outcome (Reconcile inst_ext demo_request) losing_sys = Returned zeroResult (Some conflict_error) \<and>
   events (Reconcile inst_ext demo_request) losing_sys =
     [KGet demo_request (Inr (inst_ready 1 '''' '''' 0)), SdkClient None,
      KStatusUpdate (inst_ready 1 '''' ''Provisioning'' 0) (Inr (inst_ready 2 '''' ''Provisioning'' 0)),
      Oci (LaunchCall (launchDetails demo_inst_spec) (Inr launched_demo)),
      KStatusUpdate (inst_ready 2 ''ocid1'' ''Provisioning'' 1) (Inl conflict_error)]"
  by (rule ran) (simp add: inst_run_defs inst_world_defs inst_sys_defs inst_setter_defs)

lemma polling_run:
  "outcome (Reconcile inst_ext demo_request) polling_sys = Returned \<lparr>RequeueAfter = 5 * Minute\<rparr> None \<and>
   events (Reconcile inst_ext demo_request) polling_sys =
     [KGet demo_request (Inr (inst_ready 1 ''ocid1'' '''' 0)), SdkClient None,
      Oci (GetCall (Some ''ocid1'') (Inr \<lparr>InstId = Some ''ocid1'',
        InstLifecycleState = InstanceLifecycleStateRunning\<rparr>)),
      KStatusUpdate (inst_ready 1 ''ocid1'' ''Running'' 1) (Inr (inst_ready 2 ''ocid1'' ''Running'' 1))]"
  by (rule ran) (simp add: inst_run_defs inst_world_defs inst_sys_defs inst_setter_defs
      phase_of_lifecycle_def still_provisioning_def)

lemma leaving_run:
  "outcome (Reconcile inst_ext demo_request) leaving_sys = Returned zeroResult None \<and>
   events (Reconcile inst_ext demo_request) leaving_sys =
     [KGet demo_request (Inr (inst_leaving 1 [ociInstanceFinalizer])), SdkClient None,
      Oci (TerminateCall (Some ''ocid1'') (Inr ())),
      KUpdate (inst_leaving 1 []) (Inr (inst_leaving 2 []))]"
  by (rule ran) (simp add: inst_run_defs inst_world_defs inst_sys_defs)

lemma given_up_run:
  "outcome (Reconcile inst_ext demo_request) given_up_sys = Returned zeroResult None \<and>
   events (Reconcile inst_ext demo_request) given_up_sys =
     [KGet demo_request (Inr (inst_ready 1 '''' ''Failed'' 1))]"
  by (rule ran) (simp add: inst_run_defs inst_world_defs inst_sys_defs)

section \<open>Policies\<close>

definition pol_parts :: "OCISecurityPolicy Parts" where
  "pol_parts = \<lparr>meta_of = PolMeta, with_meta = (\<lambda>m x. x\<lparr>PolMeta := m\<rparr>),
     with_status_of = (\<lambda>y x. x\<lparr>OCISecurityPolicy.Status := OCISecurityPolicy.Status y\<rparr>)\<rparr>"

type_synonym PolWorld = "(OCISecurityPolicy, SecurityListLifecycleState) World"

definition cloud_network :: "PolWorld OCIVirtualNetworkClient" where
  "cloud_network = \<lparr>
     CreateSecurityList = (\<lambda>d w. (if w_cloud w = [] then Inl cloud_error
       else Inr \<lparr>ListId = Some ''ocid1'', ListLifecycleState = SecurityListLifecycleStateProvisioning\<rparr>, w)),
     GetSecurityList = (\<lambda>i w. case w_cloud w of
         [] \<Rightarrow> (Inl cloud_error, w)
       | l # ls \<Rightarrow> (Inr \<lparr>ListId = i, ListLifecycleState = l\<rparr>, w\<lparr>w_cloud := (if ls = [] then [l] else ls)\<rparr>)),
     DeleteSecurityList = (\<lambda>i w. (if w_cloud w = [] then Inl cloud_error else Inr (), w))\<rparr>"

definition pol_ext :: "PolWorld PolicyExt" where
  "pol_ext = world_ext pol_parts (\<lambda>w. (Inr cloud_network, w))"

definition demo_rule :: SecurityRule where
  "demo_rule = \<lparr>Description = ''ssh'', Direction = ''INGRESS'', Protocol = ''6'', Source = ''0.0.0.0/0'',
     Destination = '''', MinPort = Some 22, MaxPort = Some 22\<rparr>"

definition demo_pol_spec :: OCISecurityPolicySpec where
  "demo_pol_spec = \<lparr>CompartmentID = ''c'', VcnID = ''v'', DisplayName = ''d'', Rules = [demo_rule],
     FreeformTags = None\<rparr>"

definition demo_pol :: "nat \<Rightarrow> string list \<Rightarrow> Time option \<Rightarrow> string \<Rightarrow> SecurityPolicyPhase \<Rightarrow> int64 \<Rightarrow> OCISecurityPolicy" where
  "demo_pol n fins deleted lid phase observed =
     \<lparr>PolTypeMeta = \<lparr>Kind = ''OCISecurityPolicy'', APIVersion = ''v1alpha1''\<rparr>,
      PolMeta = demo_meta n fins deleted, Spec = demo_pol_spec,
      Status = \<lparr>SecurityListID = lid, Phase = phase, FailureReason = '''',
        ObservedGeneration = observed, Conditions = None\<rparr>\<rparr>"

definition pol_sys ::
    "OCISecurityPolicy option \<Rightarrow> bool list \<Rightarrow> SecurityListLifecycleState list \<Rightarrow> PolWorld PolicySys" where
  "pol_sys x faults cloud = fresh_sys (world_start x faults cloud) None"

lemmas pol_world_defs = world_defs pol_ext_def pol_sys_def pol_parts_def cloud_network_def demo_pol_def
  policy_phase_defs policy_failed_and_observed_def

lemmas pol_run_defs = ReconcilePolicy_def reconcilePolicyBody_def reconcileActivePolicy_def
  reconcileNewPolicy_def reconcileExistingPolicy_def handlePolicyDeletion_def newVirtualNetworkClient_def
  call_create_list_def call_get_list_def call_delete_list_def call_defs Let_def

lemma pol_demo_facts:
  "IsZero pol_ext t \<longleftrightarrow> t = None"
  "ContainsFinalizer pol_ext x f \<longleftrightarrow> f \<in> set (Finalizers (PolMeta x))"
  "Finalizers (PolMeta (demo_pol n fins deleted i ph g)) = fins"
  "DeletionTimestamp (PolMeta (demo_pol n fins deleted i ph g)) = deleted"
  "Generation (PolMeta (demo_pol n fins deleted i ph g)) = 1"
  "OCISecurityPolicy.Spec (demo_pol n fins deleted i ph g) = demo_pol_spec"
  "SecurityListID (OCISecurityPolicy.Status (demo_pol n fins deleted i ph g)) = i"
  "OCISecurityPolicyStatus.Phase (OCISecurityPolicy.Status (demo_pol n fins deleted i ph g)) = ph"
  "OCISecurityPolicyStatus.ObservedGeneration (OCISecurityPolicy.Status (demo_pol n fins deleted i ph g)) = g"
  by (simp_all add: pol_ext_def world_ext_def pol_parts_def demo_pol_def demo_meta_def)

lemmas pol_setter_defs = PolicyTypes.set_phase_def PolicyTypes.SetObservedGeneration_def
  PolicyTypes.GetGeneration_def set_security_list_id_def

abbreviation pol_ready :: "nat \<Rightarrow> string \<Rightarrow> SecurityPolicyPhase \<Rightarrow> int64 \<Rightarrow> OCISecurityPolicy" where
  "pol_ready n \<equiv> demo_pol n [ociSecurityPolicyFinalizer] None"

abbreviation pol_leaving :: "nat \<Rightarrow> string list \<Rightarrow> OCISecurityPolicy" where
  "pol_leaving n fins \<equiv> demo_pol n fins (Some 7) ''ocid1'' '''' 0"

definition creating_sys :: "PolWorld PolicySys" where
  "creating_sys = pol_sys (Some (pol_ready 1 '''' '''' 0)) [] [SecurityListLifecycleStateAvailable]"

definition pol_polling_sys :: "PolWorld PolicySys" where
  "pol_polling_sys = pol_sys (Some (pol_ready 1 ''ocid1'' '''' 0)) [] [SecurityListLifecycleStateAvailable]"

definition pol_leaving_sys :: "PolWorld PolicySys" where
  "pol_leaving_sys = pol_sys (Some (pol_leaving 1 [ociSecurityPolicyFinalizer])) []
     [SecurityListLifecycleStateAvailable]"

definition pol_given_up_sys :: "PolWorld PolicySys" where
  "pol_given_up_sys = pol_sys (Some (pol_ready 1 '''' ''Failed'' 1)) [] [SecurityListLifecycleStateAvailable]"

lemmas pol_sys_defs = creating_sys_def pol_polling_sys_def pol_leaving_sys_def pol_given_up_sys_def

abbreviation created_demo :: SecurityList where
  "created_demo \<equiv> \<lparr>ListId = Some ''ocid1'', ListLifecycleState = SecurityListLifecycleStateProvisioning\<rparr>"

lemma creating_run:
  "outcome (ReconcilePolicy pol_ext demo_request) creating_sys = Returned \<lparr>RequeueAfter = 5 * Minute\<rparr> None \<and>
   events (ReconcilePolicy pol_ext demo_request) creating_sys =
     [KGet demo_request (Inr (pol_ready 1 '''' '''' 0)), SdkClient None,
      KStatusUpdate (pol_ready 1 '''' ''Creating'' 0) (Inr (pol_ready 2 '''' ''Creating'' 0)),
      Oci (CreateListCall (createListDetails demo_pol_spec) (Inr created_demo)),
      KStatusUpdate (pol_ready 2 ''ocid1'' ''Active'' 1) (Inr (pol_ready 3 ''ocid1'' ''Active'' 1))]"
  by (rule ran) (simp add: pol_run_defs pol_world_defs pol_sys_defs pol_setter_defs)

lemma pol_polling_run:
  "outcome (ReconcilePolicy pol_ext demo_request) pol_polling_sys = Returned \<lparr>RequeueAfter = 5 * Minute\<rparr> None \<and>
   events (ReconcilePolicy pol_ext demo_request) pol_polling_sys =
     [KGet demo_request (Inr (pol_ready 1 ''ocid1'' '''' 0)), SdkClient None,
      Oci (GetListCall (Some ''ocid1'') (Inr \<lparr>ListId = Some ''ocid1'',
        ListLifecycleState = SecurityListLifecycleStateAvailable\<rparr>)),
      KStatusUpdate (pol_ready 1 ''ocid1'' ''Active'' 1) (Inr (pol_ready 2 ''ocid1'' ''Active'' 1))]"
  by (rule ran) (simp add: pol_run_defs pol_world_defs pol_sys_defs pol_setter_defs
      phase_of_list_lifecycle_def)

lemma pol_leaving_run:
  "outcome (ReconcilePolicy pol_ext demo_request) pol_leaving_sys = Returned zeroResult None \<and>
   events (ReconcilePolicy pol_ext demo_request) pol_leaving_sys =
     [KGet demo_request (Inr (pol_leaving 1 [ociSecurityPolicyFinalizer])), SdkClient None,
      Oci (DeleteListCall (Some ''ocid1'') (Inr ())),
      KUpdate (pol_leaving 1 []) (Inr (pol_leaving 2 []))]"
  by (rule ran) (simp add: pol_run_defs pol_world_defs pol_sys_defs)

lemma pol_given_up_run:
  "outcome (ReconcilePolicy pol_ext demo_request) pol_given_up_sys = Returned zeroResult None \<and>
   events (ReconcilePolicy pol_ext demo_request) pol_given_up_sys =
     [KGet demo_request (Inr (pol_ready 1 '''' ''Failed'' 1))]"
  by (rule ran) (simp add: pol_run_defs pol_world_defs pol_sys_defs)

end
