(* ===== verification/PatientWorlds.thy ===== *)
theory PatientWorlds
  imports Fixtures
begin

text \<open>
  Worlds with a fixed number of setbacks, for the witnesses about progress: the stored object, or \<open>None\<close>
  once it is gone, and the number of setbacks left. Writes are refused and polls find the remote object
  not ready as long as there are any left.
\<close>

section \<open>API servers\<close>

text \<open>Writes of an object that stays.\<close>

definition frail_write :: "('r \<Rightarrow> 'r \<Rightarrow> 'r) \<Rightarrow> 'r \<Rightarrow> 'r \<times> nat \<Rightarrow> (go_error + 'r) \<times> ('r \<times> nat)" where
  "frail_write merge y w = (case w of (x, k) \<Rightarrow>
     if 0 < k then (Inl conflict_error, (x, k - 1)) else (Inr (merge y x), (merge y x, k)))"

definition steady_ext :: "'r Parts \<Rightarrow> 'c \<Rightarrow> ('r \<times> nat, 'r, 'c) Ext" where
  "steady_ext P c = \<lparr>
     K8s = \<lparr>Get = (\<lambda>key (x, k). (Inr x, (x, k))),
       Update = frail_write (\<lambda>y x. with_status_of P x y),
       StatusUpdate = frail_write (\<lambda>y x. with_status_of P y x)\<rparr>,
     IsNotFound = (\<lambda>e. e = not_found_error), IsZero = (\<lambda>t. t = None),
     ContainsFinalizer = (\<lambda>x f. f \<in> set (Finalizers (meta_of P x))),
     AddFinalizer = (\<lambda>x f. with_meta P ((meta_of P x)\<lparr>Finalizers := Finalizers (meta_of P x) @ [f]\<rparr>) x),
     RemoveFinalizer = (\<lambda>x f. x),
     ObjectKeyFromObject = (\<lambda>x. demo_request),
     NewSdkClient = (\<lambda>w. (Inr c, w)), Now = (\<lambda>w. (0, w))\<rparr>"

text \<open>An object that goes when its finalizer does; the first update and the first terminate calls fail.\<close>

definition fading_update :: "'r Parts \<Rightarrow> 'r \<Rightarrow> 'r option \<times> nat \<Rightarrow> (go_error + 'r) \<times> ('r option \<times> nat)" where
  "fading_update P y w = (case w of (x, k) \<Rightarrow>
     if 0 < k then (Inl conflict_error, (x, k - 1)) else (Inr y, (None, k)))"

definition fading_ext :: "'r Parts \<Rightarrow> 'c \<Rightarrow> ('r option \<times> nat, 'r, 'c) Ext" where
  "fading_ext P c = \<lparr>
     K8s = \<lparr>Get = (\<lambda>key (x, k). case x of None \<Rightarrow> (Inl not_found_error, (x, k)) | Some y \<Rightarrow> (Inr y, (x, k))),
       Update = fading_update P, StatusUpdate = fading_update P\<rparr>,
     IsNotFound = (\<lambda>e. e = not_found_error), IsZero = (\<lambda>t. t = None),
     ContainsFinalizer = (\<lambda>x f. f \<in> set (Finalizers (meta_of P x))),
     AddFinalizer = (\<lambda>x f. x),
     RemoveFinalizer = (\<lambda>x f. with_meta P
       ((meta_of P x)\<lparr>Finalizers := filter (\<lambda>g. g \<noteq> f) (Finalizers (meta_of P x))\<rparr>) x),
     ObjectKeyFromObject = (\<lambda>x. demo_request),
     NewSdkClient = (\<lambda>w. (Inr c, w)), Now = (\<lambda>w. (0, w))\<rparr>"

section \<open>Clouds\<close>

definition slow_compute :: "('r \<times> nat) OCIComputeClient" where
  "slow_compute = \<lparr>LaunchInstance = (\<lambda>d w. (Inr launched_demo, w)),
     GetInstance = (\<lambda>i (x, k). (Inr \<lparr>InstId = i, InstLifecycleState =
       (if k = 0 then InstanceLifecycleStateRunning else InstanceLifecycleStateStarting)\<rparr>, (x, k - 1))),
     TerminateInstance = (\<lambda>i w. (Inr (), w))\<rparr>"

definition slow_network :: "('r \<times> nat) OCIVirtualNetworkClient" where
  "slow_network = \<lparr>CreateSecurityList = (\<lambda>d w. (Inr created_demo, w)),
     GetSecurityList = (\<lambda>i (x, k). (Inr \<lparr>ListId = i, ListLifecycleState =
       (if k = 0 then SecurityListLifecycleStateAvailable else SecurityListLifecycleStateProvisioning)\<rparr>, (x, k - 1))),
     DeleteSecurityList = (\<lambda>i w. (Inr (), w))\<rparr>"

definition frail_destroy :: "string option \<Rightarrow> 'r \<times> nat \<Rightarrow> (go_error + unit) \<times> ('r \<times> nat)" where
  "frail_destroy i w = (case w of (x, k) \<Rightarrow>
     if 1 < k then (Inl cloud_error, (x, k - 1)) else (Inr (), (x, k)))"

definition sturdy_compute :: "('r \<times> nat) OCIComputeClient" where
  "sturdy_compute = slow_compute\<lparr>TerminateInstance := frail_destroy\<rparr>"

definition sturdy_network :: "('r \<times> nat) OCIVirtualNetworkClient" where
  "sturdy_network = slow_network\<lparr>DeleteSecurityList := frail_destroy\<rparr>"

lemmas patient_world_defs = steady_ext_def frail_write_def fading_ext_def fading_update_def
  slow_compute_def slow_network_def frail_destroy_def sturdy_compute_def sturdy_network_def

end
