(* ===== verification/InstanceProgress.thy ===== *)
theory InstanceProgress
  imports Patience PatientWorlds
begin

text \<open>
  Progress of the instance reconciler in a patient world (\<open>Patience\<close>): however the setbacks are spread over
  the reconciles, all but a bounded number of them leave a new instance Running, and all but a bounded number
  leave a deleted one gone.
\<close>

section \<open>A patient cloud\<close>

text \<open>
  Every launch is accepted and answers with an id (one that fails makes the code give the object up for good);
  a poll finds the object ready, or is a setback.
\<close>

definition patient_compute :: "'w OCIComputeClient \<Rightarrow> ('w \<Rightarrow> OCIInstance) \<Rightarrow> ('w \<Rightarrow> nat) \<Rightarrow> bool" where
  "patient_compute c obj left \<longleftrightarrow>
     (\<forall>d w. case LaunchInstance c d w of
        (Inr x, w') \<Rightarrow> InstId x \<notin> {None, Some ''''} \<and> still obj left w w'
      | (Inl err, w') \<Rightarrow> False) \<and>
     (\<forall>i w. case GetInstance c i w of
        (Inr x, w') \<Rightarrow> InstLifecycleState x = InstanceLifecycleStateRunning \<and> still obj left w w' \<or>
          still_provisioning (InstLifecycleState x) \<and> setback obj left w w'
      | (Inl err, w') \<Rightarrow> setback obj left w w')"

lemma post_launch:
  fixes s :: "'w InstanceSys"
  assumes "patient_clock ext obj left" "patient_compute c obj left"
    and "\<And>x i t. InstId x = Some i \<Longrightarrow> i \<noteq> '''' \<Longrightarrow> stays obj left s t \<Longrightarrow> Q (Inr x) t"
  shows "post (measureOCICall ext ctl op (call_launch c d)) Q s"
  unfolding call_launch_def
proof (rule post_measured_call [OF assms(1)])
  fix r w w' and t :: "'w InstanceSys"
  assume f: "LaunchInstance c d w = (r, w')" and *: "still obj left (world s) w" "still obj left w' (world t)"
    "ociClient t = ociClient s"
  have "case LaunchInstance c d w of
        (Inr x, w') \<Rightarrow> InstId x \<notin> {None, Some ''''} \<and> still obj left w w' | (Inl err, w') \<Rightarrow> False"
    using assms(2) by (simp only: patient_compute_def)
  with f * assms(3) show "Q r t" by (cases r) (auto simp: patience_defs)
qed

lemma post_get_instance:
  fixes s :: "'w InstanceSys"
  assumes "patient_clock ext obj left" "patient_compute c obj left"
    and "\<And>x t. InstLifecycleState x = InstanceLifecycleStateRunning \<Longrightarrow> stays obj left s t \<Longrightarrow> Q (Inr x) t"
    and "\<And>x t. still_provisioning (InstLifecycleState x) \<Longrightarrow> slips obj left s t \<Longrightarrow> Q (Inr x) t"
    and "\<And>err t. slips obj left s t \<Longrightarrow> Q (Inl err) t"
  shows "post (measureOCICall ext ctl op (call_get c i)) Q s"
  unfolding call_get_def
proof (rule post_measured_call [OF assms(1)])
  fix r w w' and t :: "'w InstanceSys"
  assume f: "GetInstance c i w = (r, w')" and *: "still obj left (world s) w" "still obj left w' (world t)"
    "ociClient t = ociClient s"
  have "case GetInstance c i w of
        (Inr x, w') \<Rightarrow> InstLifecycleState x = InstanceLifecycleStateRunning \<and> still obj left w w' \<or>
          still_provisioning (InstLifecycleState x) \<and> setback obj left w w'
      | (Inl err, w') \<Rightarrow> setback obj left w w'"
    using assms(2) by (simp only: patient_compute_def)
  with f * assms(3-) show "Q r t" by (cases r) (auto simp: patience_defs)
qed

section \<open>Instances\<close>

definition instanceGoal :: "(OCIInstance, OCIInstanceStatus) Goal" where
  "instanceGoal = \<lparr>g_finalizer = ociInstanceFinalizer, g_meta = InstMeta, g_status = OCIInstance.Status,
     g_id = InstanceID, g_observed = OCIInstanceStatus.ObservedGeneration,
     g_failed = (\<lambda>st. OCIInstanceStatus.Phase st = InstancePhaseFailed),
     g_ready = (\<lambda>st. OCIInstanceStatus.Phase st = InstancePhaseRunning)\<rparr>"

lemma instanceGoal_simps [simp]:
  "g_finalizer instanceGoal = ociInstanceFinalizer" "g_meta instanceGoal = InstMeta"
  "g_status instanceGoal = OCIInstance.Status" "g_id instanceGoal = InstanceID"
  "g_observed instanceGoal = OCIInstanceStatus.ObservedGeneration"
  "g_failed instanceGoal st \<longleftrightarrow> OCIInstanceStatus.Phase st = InstancePhaseFailed"
  "g_ready instanceGoal st \<longleftrightarrow> OCIInstanceStatus.Phase st = InstancePhaseRunning"
  by (simp_all add: instanceGoal_def)

lemma instance_phases_differ [simp]:
  "InstancePhaseRunning \<noteq> InstancePhaseFailed" "InstancePhaseProvisioning \<noteq> InstancePhaseFailed"
  by (simp_all add: instance_phase_defs)

interpretation inst_goal: goal instanceGoal
  by unfold_locales simp

lemmas instance_status_defs = InstanceTypes.set_phase_def InstanceTypes.SetObservedGeneration_def
  InstanceTypes.GetGeneration_def set_instance_id_def

lemma instance_created:
  assumes api: "patient_api ext instanceGoal req obj left" and clock: "patient_clock ext obj left"
    and cloud: "patient_compute c obj left"
    and t: "at_write ext instanceGoal c obj left s t" "obj (world t) = obj (world s)"
    and new: "InstanceID (OCIInstance.Status (obj (world s))) = ''''"
  shows "post (reconcileNew ext (obj (world s)) c) (\<lambda>_. advances ext instanceGoal c obj left s) t"
proof -
  have recorded: "post (k8s_status_update ext (InstanceTypes.SetObservedGeneration g
      (InstanceTypes.set_phase InstancePhaseProvisioning (set_instance_id i (obj (world v))))))
      (\<lambda>_. advances ext instanceGoal c obj left s) w"
    if "at_write ext instanceGoal c obj left s v" "i \<noteq> ''''" "stays obj left v w" for g i v w
    by (rule inst_goal.write_advances [OF api at_write_stays [OF that(1,3)]])
      (use that new in \<open>simp_all add: instance_status_defs patience_defs\<close>)
  have create: "post (measureOCICall ext ''ociinstance'' ''launch'' (call_launch c d)) Q u"
    if "\<And>r i v. InstId r = Some i \<Longrightarrow> i \<noteq> '''' \<Longrightarrow> stays obj left u v \<Longrightarrow> Q (Inr r) v" for d Q u
    using that by (rule post_launch [OF clock cloud])
  show ?thesis
    unfolding reconcileNew_def post_bind post_inc_phaseTransitions
    by (rule inst_goal.start_advances [OF api, where s = s])
      (use t in \<open>auto simp del: post_measureOCICall intro!: create post_mono [OF recorded] split: sum.splits\<close>)
qed

lemma instance_polled:
  assumes api: "patient_api ext instanceGoal req obj left" and clock: "patient_clock ext obj left"
    and cloud: "patient_compute c obj left"
    and t: "at_write ext instanceGoal c obj left s t" "obj (world t) = obj (world s)"
    and old: "InstanceID (OCIInstance.Status (obj (world s))) \<noteq> ''''"
  shows "post (reconcileExisting ext (obj (world s)) c) (\<lambda>_. advances ext instanceGoal c obj left s) t"
proof -
  let ?x = "obj (world s)"
  have s: "underway ext instanceGoal c obj s" using t(1) by (simp add: at_write_def)
  have ready: "post (k8s_status_update ext (InstanceTypes.SetObservedGeneration
      (InstanceTypes.GetGeneration (InstanceTypes.set_phase InstancePhaseRunning ?x))
      (InstanceTypes.set_phase InstancePhaseRunning ?x))) (\<lambda>_. advances ext instanceGoal c obj left s) u"
    if "stays obj left t u" for u
    by (rule inst_goal.ready_advances [OF api at_write_stays [OF t(1) that]])
      (use that t(2) old in \<open>simp_all add: instance_status_defs patience_defs\<close>)
  have waiting: "post (k8s_status_update ext (InstanceTypes.set_phase InstancePhaseProvisioning ?x))
      (\<lambda>_. advances ext instanceGoal c obj left s) u"
    if "slips obj left t u" for u
    by (rule inst_goal.write_advances [OF api at_write_slips(1) [OF t(1) that]])
      (use that t(2) old at_write_slips(2) [OF t(1) that] in \<open>simp_all add: instance_status_defs patience_defs\<close>)
  have failed: "advances ext instanceGoal c obj left s u" if "slips obj left t u" for u
    using at_write_slips [OF t(1) that] that t(2) by (intro setback_advances [OF s]) (auto simp: at_write_def patience_defs)
  show ?thesis
    unfolding reconcileExisting_def post_bind Let_def
    by (rule post_get_instance [OF clock cloud])
      (use failed in \<open>auto simp: phase_of_lifecycle_def still_provisioning_def
          intro!: post_mono [OF ready] post_mono [OF waiting] split: sum.splits\<close>)
qed

lemma instance_step:
  assumes api: "patient_api ext instanceGoal req obj left" and clock: "patient_clock ext obj left"
    and sdk: "ready_sdk ext c obj left" and cloud: "patient_compute c obj left"
    and s: "underway ext instanceGoal c obj s"
  shows "post (Reconcile ext req) (\<lambda>_. advances ext instanceGoal c obj left s) s"
proof -
  let ?x = "obj (world s)"
  have zero: "IsZero ext (DeletionTimestamp (InstMeta ?x))" and client: "ociClient s = None \<or> ociClient s = Some c"
    and guard: "\<not> failed_and_observed ?x"
    using s by (auto simp: underway_def Let_def failed_and_observed_def split: if_splits)
  have active: "post (reconcileActive ext ?x) (\<lambda>_. advances ext instanceGoal c obj left s) t"
    if t: "stays obj left s t" and fin: "ContainsFinalizer ext ?x ociInstanceFinalizer" for t
  proof -
    have handler: "post (if InstanceID (OCIInstance.Status ?x) \<noteq> '''' then reconcileExisting ext ?x c
        else reconcileNew ext ?x c) (\<lambda>_. advances ext instanceGoal c obj left s) u"
      if u: "still obj left (world s) (world u)" "ociClient u = Some c" for u
    proof -
      have "at_write ext instanceGoal c obj left s u" "obj (world u) = ?x"
        using s fin u by (auto intro: at_write_here simp: still_def)
      then show ?thesis using instance_polled [OF api clock cloud] instance_created [OF api clock cloud] by simp
    qed
    have "fst (NewSdkClient ext (world t)) = Inr c" "still obj left (world t) (snd (NewSdkClient ext (world t)))"
      using sdk by (simp_all add: ready_sdk_def)
    then show ?thesis
      using client t handler
      by (auto simp: reconcileActive_def newComputeClient_def new_sdk_client_def case_prod_unfold
          patience_defs split del: if_split)
  qed
  have finalizer: "post (k8s_update ext (AddFinalizer ext ?x ociInstanceFinalizer))
      (\<lambda>_. advances ext instanceGoal c obj left s) t"
    if "stays obj left s t" "\<not> ContainsFinalizer ext ?x ociInstanceFinalizer" for t
    using finalizer_advances [OF api s that(1)] that(2) by simp
  show ?thesis
    unfolding Reconcile_def reconcileBody_def post_bind
    by (intro post_api_get [OF api])
      (use zero guard finalizer active in \<open>auto simp: patience_defs intro: setback_advances [OF s]\<close>)
qed

section \<open>Deletion\<close>

lemma instance_leaves:
  fixes s :: "'w InstanceSys"
  assumes d: "patient_deletion ext instanceGoal req obj left"
    and clock: "patient_clock ext obj left" and sdk: "patient_sdk ext c obj left"
    and accept: "\<And>i. patient_call (TerminateInstance c i) obj left"
    and s: "leaving ext instanceGoal c obj s"
  shows "post (Reconcile ext req) (left_behind ext instanceGoal c obj left s) s"
proof -
  have deletion: "post (handleDeletion ext x) (left_behind ext instanceGoal c obj left s) t"
    if t: "stays obj left s t" "obj (world s) = Some x" for x t
  proof -
    have fin: "ContainsFinalizer ext x ociInstanceFinalizer" using s t by (simp add: leaving_def)
    have client: "ociClient t = None \<or> ociClient t = Some c" using s t by (auto simp: leaving_def patience_defs)
    note release = release_left_behind [OF d s _ t(2), unfolded instanceGoal_simps]
    have terminate: "post (measureOCICall ext ''ociinstance'' ''terminate'' (call_terminate c i)) Q u"
      if "stays obj left s u" "\<And>x u. stays obj left s u \<Longrightarrow> Q (Inr x) u"
        "\<And>err u. (\<And>out. requeued out \<Longrightarrow> left_behind ext instanceGoal c obj left s out u) \<Longrightarrow> Q (Inl err) u" for Q i u
      unfolding call_terminate_def by (rule call_left_behind [OF clock accept s that])
    show ?thesis
      using client unfolding handleDeletion_def newComputeClient_def Let_def
      by (elim disjE)
        (auto simp: fin t simp del: post_measureOCICall
          intro!: release terminate sdk_left_behind [OF sdk s t(1)])
  qed
  show ?thesis
    unfolding Reconcile_def reconcileBody_def post_bind
    by (rule get_left_behind [OF d s]) (use s in \<open>auto simp: deletion leaving_def zeroResult_def\<close>)
qed

section \<open>Properties\<close>

text \<open>A new instance makes progress whatever goes wrong on the way. Take any object that is not being deleted,
  not given up on and, once launched, not failed, in a world in which reads, writes and polls may fail, or
  find the instance still coming up, in any order, but only \<open>left\<close> times; but the constructor of the SDK client and
  the launch itself never fail. Then among any number of reconciles, all but \<open>left + 2\<close> (finalizer and launch) end
  with the instance recorded, in phase Running, its generation observed.\<close>
theorem instance_progress:
  assumes "patient_api ext instanceGoal req obj left" "patient_clock ext obj left"
    and "ready_sdk ext c obj left" "patient_compute c obj left" "underway ext instanceGoal c obj s"
  shows "bad_runs (Reconcile ext req) (arrived instanceGoal obj) n s \<le> left (world s) + 2"
  by (rule advances_bound [OF instance_step [OF assms(1-4)] assms(5)])

text \<open>A deletion completes. An instance that is being deleted and holds the finalizer is gone after every
  reconcile but at most \<open>left\<close> of them, however many there are, if reads, the SDK client, terminate
  calls and finalizer removals together fail at most \<open>left\<close> times. (A terminate call that is refused for
  good, as for an instance that no longer exists in the cloud, is not such a world.)\<close>
theorem instance_deletion_completes:
  assumes "patient_deletion ext instanceGoal req obj left" "patient_clock ext obj left"
    and "patient_sdk ext c obj left" "\<And>i. patient_call (TerminateInstance c i) obj left"
    and "leaving ext instanceGoal c obj s"
  shows "bad_runs (Reconcile ext req) (gone obj) n s \<le> left (world s)"
  by (rule bad_runs_bounded [where P = "leaving ext instanceGoal c obj"])
    (rule post_mono [OF instance_leaves [OF assms(1-4)]], use assms(5) in \<open>simp_all add: left_behind_progress\<close>)

section \<open>Such worlds\<close>

theorem instance_progress_witness:
  "\<forall>n. bad_runs (Reconcile (steady_ext inst_parts slow_compute) demo_request) (arrived instanceGoal fst) n
     (fresh_sys (demo_inst 1 [] None '''' '''' 0, 3) None) \<le> 5"
proof
  fix n
  show "bad_runs (Reconcile (steady_ext inst_parts slow_compute) demo_request) (arrived instanceGoal fst) n
     (fresh_sys (demo_inst 1 [] None '''' '''' 0, 3) None) \<le> 5"
    by (rule order_trans [OF instance_progress [where left = snd and obj = fst and c = slow_compute and ext = "steady_ext inst_parts slow_compute" and req = demo_request]])
      (auto simp: patient_api_def patient_clock_def ready_sdk_def patient_compute_def underway_def
        same_rest_def still_def setback_def patient_world_defs inst_parts_def fresh_sys_def demo_inst_def
        demo_meta_def failed_and_observed_def instance_phase_defs Let_def still_provisioning_def split: prod.splits)
qed

theorem instance_deletion_completes_witness:
  "\<forall>n. bad_runs (Reconcile (fading_ext inst_parts sturdy_compute) demo_request) (gone fst) n
     (fresh_sys (Some (demo_inst 1 [ociInstanceFinalizer] (Some 7) ''ocid1'' '''' 0), 3) None) \<le> 3"
proof
  fix n
  show "bad_runs (Reconcile (fading_ext inst_parts sturdy_compute) demo_request) (gone fst) n
     (fresh_sys (Some (demo_inst 1 [ociInstanceFinalizer] (Some 7) ''ocid1'' '''' 0), 3) None) \<le> 3"
    by (rule order_trans [OF instance_deletion_completes [where left = snd]])
      (auto simp: patient_deletion_def patient_clock_def patient_sdk_def patient_call_def leaving_def
        still_def setback_def patient_world_defs inst_parts_def fresh_sys_def demo_inst_def
        demo_meta_def not_found_error_def conflict_error_def cloud_error_def Let_def
        split: prod.splits option.splits if_splits)
qed

end
