(* ===== verification/PolicyProgress.thy ===== *)
theory PolicyProgress
  imports Patience PatientWorlds
begin

text \<open>
  Progress of the policy reconciler in a patient world (\<open>Patience\<close>): however the setbacks are spread over
  the reconciles, all but a bounded number of them leave a new policy Active, and all but a bounded number
  leave a deleted one gone.
\<close>

section \<open>A patient cloud\<close>

text \<open>
  Every creation is accepted and answers with an id (one that fails makes the code give the policy up for
  good); a poll finds the list ready, or is a setback.
\<close>

definition patient_network ::
    "'w OCIVirtualNetworkClient \<Rightarrow> ('w \<Rightarrow> OCISecurityPolicy) \<Rightarrow> ('w \<Rightarrow> nat) \<Rightarrow> bool" where
  "patient_network c obj left \<longleftrightarrow>
     (\<forall>d w. case CreateSecurityList c d w of
        (Inr x, w') \<Rightarrow> ListId x \<notin> {None, Some ''''} \<and> still obj left w w'
      | (Inl err, w') \<Rightarrow> False) \<and>
     (\<forall>i w. case GetSecurityList c i w of
        (Inr x, w') \<Rightarrow> ListLifecycleState x = SecurityListLifecycleStateAvailable \<and> still obj left w w' \<or>
          ListLifecycleState x = SecurityListLifecycleStateProvisioning \<and> setback obj left w w'
      | (Inl err, w') \<Rightarrow> setback obj left w w')"

lemma post_create_list:
  fixes s :: "'w PolicySys"
  assumes "patient_clock ext obj left" "patient_network c obj left"
    and "\<And>x i t. ListId x = Some i \<Longrightarrow> i \<noteq> '''' \<Longrightarrow> stays obj left s t \<Longrightarrow> Q (Inr x) t"
  shows "post (measureOCICall ext ctl op (call_create_list c d)) Q s"
  unfolding call_create_list_def
proof (rule post_measured_call [OF assms(1)])
  fix r w w' and t :: "'w PolicySys"
  assume f: "CreateSecurityList c d w = (r, w')" and *: "still obj left (world s) w" "still obj left w' (world t)"
    "ociClient t = ociClient s"
  have "case CreateSecurityList c d w of
        (Inr x, w') \<Rightarrow> ListId x \<notin> {None, Some ''''} \<and> still obj left w w' | (Inl err, w') \<Rightarrow> False"
    using assms(2) by (simp only: patient_network_def)
  with f * assms(3) show "Q r t" by (cases r) (auto simp: patience_defs)
qed

lemma post_get_list:
  fixes s :: "'w PolicySys"
  assumes "patient_clock ext obj left" "patient_network c obj left"
    and "\<And>x t. ListLifecycleState x = SecurityListLifecycleStateAvailable \<Longrightarrow> stays obj left s t \<Longrightarrow> Q (Inr x) t"
    and "\<And>x t. ListLifecycleState x = SecurityListLifecycleStateProvisioning \<Longrightarrow> slips obj left s t \<Longrightarrow> Q (Inr x) t"
    and "\<And>err t. slips obj left s t \<Longrightarrow> Q (Inl err) t"
  shows "post (measureOCICall ext ctl op (call_get_list c i)) Q s"
  unfolding call_get_list_def
proof (rule post_measured_call [OF assms(1)])
  fix r w w' and t :: "'w PolicySys"
  assume f: "GetSecurityList c i w = (r, w')" and *: "still obj left (world s) w" "still obj left w' (world t)"
    "ociClient t = ociClient s"
  have "case GetSecurityList c i w of
        (Inr x, w') \<Rightarrow> ListLifecycleState x = SecurityListLifecycleStateAvailable \<and> still obj left w w' \<or>
          ListLifecycleState x = SecurityListLifecycleStateProvisioning \<and> setback obj left w w'
      | (Inl err, w') \<Rightarrow> setback obj left w w'"
    using assms(2) by (simp only: patient_network_def)
  with f * assms(3-) show "Q r t" by (cases r) (auto simp: patience_defs)
qed

section \<open>Policies\<close>

definition policyGoal :: "(OCISecurityPolicy, OCISecurityPolicyStatus) Goal" where
  "policyGoal = \<lparr>g_finalizer = ociSecurityPolicyFinalizer, g_meta = PolMeta, g_status = OCISecurityPolicy.Status,
     g_id = SecurityListID, g_observed = OCISecurityPolicyStatus.ObservedGeneration,
     g_failed = (\<lambda>st. OCISecurityPolicyStatus.Phase st = SecurityPolicyPhaseFailed),
     g_ready = (\<lambda>st. OCISecurityPolicyStatus.Phase st = SecurityPolicyPhaseActive)\<rparr>"

lemma policyGoal_simps [simp]:
  "g_finalizer policyGoal = ociSecurityPolicyFinalizer" "g_meta policyGoal = PolMeta"
  "g_status policyGoal = OCISecurityPolicy.Status" "g_id policyGoal = SecurityListID"
  "g_observed policyGoal = OCISecurityPolicyStatus.ObservedGeneration"
  "g_failed policyGoal st \<longleftrightarrow> OCISecurityPolicyStatus.Phase st = SecurityPolicyPhaseFailed"
  "g_ready policyGoal st \<longleftrightarrow> OCISecurityPolicyStatus.Phase st = SecurityPolicyPhaseActive"
  by (simp_all add: policyGoal_def)

lemma policy_phases_differ [simp]:
  "SecurityPolicyPhaseActive \<noteq> SecurityPolicyPhaseFailed" "SecurityPolicyPhaseCreating \<noteq> SecurityPolicyPhaseFailed"
  by (simp_all add: policy_phase_defs)

interpretation policy_goal: goal policyGoal
  by unfold_locales simp

lemmas policy_status_defs = PolicyTypes.set_phase_def PolicyTypes.SetObservedGeneration_def
  PolicyTypes.GetGeneration_def set_security_list_id_def

lemma policy_created:
  assumes api: "patient_api ext policyGoal req obj left" and clock: "patient_clock ext obj left"
    and cloud: "patient_network c obj left"
    and t: "at_write ext policyGoal c obj left s t" "obj (world t) = obj (world s)"
    and new: "SecurityListID (OCISecurityPolicy.Status (obj (world s))) = ''''"
  shows "post (reconcileNewPolicy ext (obj (world s)) c) (\<lambda>_. advances ext policyGoal c obj left s) t"
proof -
  have recorded: "post (k8s_status_update ext (PolicyTypes.SetObservedGeneration g
      (PolicyTypes.set_phase SecurityPolicyPhaseActive (set_security_list_id i (obj (world v))))))
      (\<lambda>_. advances ext policyGoal c obj left s) w"
    if "at_write ext policyGoal c obj left s v" "i \<noteq> ''''" "stays obj left v w" for g i v w
    by (rule policy_goal.write_advances [OF api at_write_stays [OF that(1,3)]])
      (use that new in \<open>simp_all add: policy_status_defs patience_defs\<close>)
  have create: "post (measureOCICall ext ''ocisecuritypolicy'' ''create_security_list'' (call_create_list c d)) Q u"
    if "\<And>r i v. ListId r = Some i \<Longrightarrow> i \<noteq> '''' \<Longrightarrow> stays obj left u v \<Longrightarrow> Q (Inr r) v" for d Q u
    using that by (rule post_create_list [OF clock cloud])
  show ?thesis
    unfolding reconcileNewPolicy_def post_bind post_inc_phaseTransitions
    by (rule policy_goal.start_advances [OF api, where s = s])
      (use t in \<open>auto simp del: post_measureOCICall intro!: create post_mono [OF recorded] split: sum.splits\<close>)
qed

lemma policy_polled:
  assumes api: "patient_api ext policyGoal req obj left" and clock: "patient_clock ext obj left"
    and cloud: "patient_network c obj left"
    and t: "at_write ext policyGoal c obj left s t" "obj (world t) = obj (world s)"
    and old: "SecurityListID (OCISecurityPolicy.Status (obj (world s))) \<noteq> ''''"
  shows "post (reconcileExistingPolicy ext (obj (world s)) c) (\<lambda>_. advances ext policyGoal c obj left s) t"
proof -
  let ?x = "obj (world s)"
  have s: "underway ext policyGoal c obj s" using t(1) by (simp add: at_write_def)
  have ready: "post (k8s_status_update ext (PolicyTypes.SetObservedGeneration
      (PolicyTypes.GetGeneration (PolicyTypes.set_phase SecurityPolicyPhaseActive ?x))
      (PolicyTypes.set_phase SecurityPolicyPhaseActive ?x))) (\<lambda>_. advances ext policyGoal c obj left s) u"
    if "stays obj left t u" for u
    by (rule policy_goal.ready_advances [OF api at_write_stays [OF t(1) that]])
      (use that t(2) old in \<open>simp_all add: policy_status_defs patience_defs\<close>)
  have waiting: "post (k8s_status_update ext (PolicyTypes.set_phase SecurityPolicyPhaseCreating ?x))
      (\<lambda>_. advances ext policyGoal c obj left s) u"
    if "slips obj left t u" for u
    by (rule policy_goal.write_advances [OF api at_write_slips(1) [OF t(1) that]])
      (use that t(2) old at_write_slips(2) [OF t(1) that] in \<open>simp_all add: policy_status_defs patience_defs\<close>)
  have failed: "advances ext policyGoal c obj left s u" if "slips obj left t u" for u
    using at_write_slips [OF t(1) that] that t(2) by (intro setback_advances [OF s]) (auto simp: at_write_def patience_defs)
  show ?thesis
    unfolding reconcileExistingPolicy_def post_bind Let_def
    by (rule post_get_list [OF clock cloud])
      (use failed in \<open>auto simp: phase_of_list_lifecycle_def
          intro!: post_mono [OF ready] post_mono [OF waiting] split: sum.splits\<close>)
qed

lemma policy_step:
  assumes api: "patient_api ext policyGoal req obj left" and clock: "patient_clock ext obj left"
    and sdk: "ready_sdk ext c obj left" and cloud: "patient_network c obj left"
    and s: "underway ext policyGoal c obj s"
  shows "post (ReconcilePolicy ext req) (\<lambda>_. advances ext policyGoal c obj left s) s"
proof -
  let ?x = "obj (world s)"
  have zero: "IsZero ext (DeletionTimestamp (PolMeta ?x))" and client: "ociClient s = None \<or> ociClient s = Some c"
    and guard: "\<not> policy_failed_and_observed ?x"
    using s by (auto simp: underway_def Let_def policy_failed_and_observed_def split: if_splits)
  have active: "post (reconcileActivePolicy ext ?x) (\<lambda>_. advances ext policyGoal c obj left s) t"
    if t: "stays obj left s t" and fin: "ContainsFinalizer ext ?x ociSecurityPolicyFinalizer" for t
  proof -
    have handler: "post (if SecurityListID (OCISecurityPolicy.Status ?x) \<noteq> '''' then reconcileExistingPolicy ext ?x c
        else reconcileNewPolicy ext ?x c) (\<lambda>_. advances ext policyGoal c obj left s) u"
      if u: "still obj left (world s) (world u)" "ociClient u = Some c" for u
    proof -
      have "at_write ext policyGoal c obj left s u" "obj (world u) = ?x"
        using s fin u by (auto intro: at_write_here simp: still_def)
      then show ?thesis using policy_polled [OF api clock cloud] policy_created [OF api clock cloud] by simp
    qed
    have "fst (NewSdkClient ext (world t)) = Inr c" "still obj left (world t) (snd (NewSdkClient ext (world t)))"
      using sdk by (simp_all add: ready_sdk_def)
    then show ?thesis
      using client t handler
      by (auto simp: reconcileActivePolicy_def newVirtualNetworkClient_def new_sdk_client_def case_prod_unfold
          patience_defs split del: if_split)
  qed
  have finalizer: "post (k8s_update ext (AddFinalizer ext ?x ociSecurityPolicyFinalizer))
      (\<lambda>_. advances ext policyGoal c obj left s) t"
    if "stays obj left s t" "\<not> ContainsFinalizer ext ?x ociSecurityPolicyFinalizer" for t
    using finalizer_advances [OF api s that(1)] that(2) by simp
  show ?thesis
    unfolding ReconcilePolicy_def reconcilePolicyBody_def post_bind
    by (intro post_api_get [OF api])
      (use zero guard finalizer active in \<open>auto simp: patience_defs intro: setback_advances [OF s]\<close>)
qed

section \<open>Deletion\<close>

lemma policy_leaves:
  fixes s :: "'w PolicySys"
  assumes d: "patient_deletion ext policyGoal req obj left"
    and clock: "patient_clock ext obj left" and sdk: "patient_sdk ext c obj left"
    and accept: "\<And>i. patient_call (DeleteSecurityList c i) obj left"
    and s: "leaving ext policyGoal c obj s"
  shows "post (ReconcilePolicy ext req) (left_behind ext policyGoal c obj left s) s"
proof -
  have deletion: "post (handlePolicyDeletion ext x) (left_behind ext policyGoal c obj left s) t"
    if t: "stays obj left s t" "obj (world s) = Some x" for x t
  proof -
    have fin: "ContainsFinalizer ext x ociSecurityPolicyFinalizer" using s t by (simp add: leaving_def)
    have client: "ociClient t = None \<or> ociClient t = Some c" using s t by (auto simp: leaving_def patience_defs)
    note release = release_left_behind [OF d s _ t(2), unfolded policyGoal_simps]
    have delete: "post (measureOCICall ext ''ocisecuritypolicy'' ''delete_security_list'' (call_delete_list c i)) Q u"
      if "stays obj left s u" "\<And>x u. stays obj left s u \<Longrightarrow> Q (Inr x) u"
        "\<And>err u. (\<And>out. requeued out \<Longrightarrow> left_behind ext policyGoal c obj left s out u) \<Longrightarrow> Q (Inl err) u" for Q i u
      unfolding call_delete_list_def by (rule call_left_behind [OF clock accept s that])
    show ?thesis
      using client unfolding handlePolicyDeletion_def newVirtualNetworkClient_def Let_def
      by (elim disjE)
        (auto simp: fin t simp del: post_measureOCICall
          intro!: release delete sdk_left_behind [OF sdk s t(1)])
  qed
  show ?thesis
    unfolding ReconcilePolicy_def reconcilePolicyBody_def post_bind
    by (rule get_left_behind [OF d s]) (use s in \<open>auto simp: deletion leaving_def zeroResult_def\<close>)
qed

section \<open>Properties\<close>

text \<open>A new policy makes progress whatever goes wrong on the way. Take any object that is not being deleted,
  not given up on and, once its list exists, not failed, in a world in which reads, writes and polls may fail, or
  find the list still provisioning, in any order, but only \<open>left\<close> times; but the constructor of the SDK client and
  the creation itself never fail. Then among any number of reconciles, all but \<open>left + 2\<close> (finalizer and creation) end
  with the list recorded, in phase Active, its generation observed.\<close>
theorem policy_progress:
  assumes "patient_api ext policyGoal req obj left" "patient_clock ext obj left"
    and "ready_sdk ext c obj left" "patient_network c obj left" "underway ext policyGoal c obj s"
  shows "bad_runs (ReconcilePolicy ext req) (arrived policyGoal obj) n s \<le> left (world s) + 2"
  by (rule advances_bound [OF policy_step [OF assms(1-4)] assms(5)])

text \<open>A policy's deletion completes. A policy that is being deleted and holds the finalizer is gone after every
  reconcile but at most \<open>left\<close> of them, however many there are, if reads, the SDK client, delete
  calls and finalizer removals together fail at most \<open>left\<close> times. (A delete call that is refused for
  good, as for a list that no longer exists in the cloud, is not such a world.)\<close>
theorem policy_deletion_completes:
  assumes "patient_deletion ext policyGoal req obj left" "patient_clock ext obj left"
    and "patient_sdk ext c obj left" "\<And>i. patient_call (DeleteSecurityList c i) obj left"
    and "leaving ext policyGoal c obj s"
  shows "bad_runs (ReconcilePolicy ext req) (gone obj) n s \<le> left (world s)"
  by (rule bad_runs_bounded [where P = "leaving ext policyGoal c obj"])
    (rule post_mono [OF policy_leaves [OF assms(1-4)]], use assms(5) in \<open>simp_all add: left_behind_progress\<close>)

section \<open>Such worlds\<close>

theorem policy_progress_witness:
  "\<forall>n. bad_runs (ReconcilePolicy (steady_ext pol_parts slow_network) demo_request) (arrived policyGoal fst) n
     (fresh_sys (demo_pol 1 [] None '''' '''' 0, 3) None) \<le> 5"
proof
  fix n
  show "bad_runs (ReconcilePolicy (steady_ext pol_parts slow_network) demo_request) (arrived policyGoal fst) n
     (fresh_sys (demo_pol 1 [] None '''' '''' 0, 3) None) \<le> 5"
    by (rule order_trans [OF policy_progress [where left = snd and obj = fst and c = slow_network and ext = "steady_ext pol_parts slow_network" and req = demo_request]])
      (auto simp: patient_api_def patient_clock_def ready_sdk_def patient_network_def underway_def
        same_rest_def still_def setback_def patient_world_defs pol_parts_def fresh_sys_def demo_pol_def
        demo_meta_def policy_failed_and_observed_def policy_phase_defs Let_def  split: prod.splits)
qed

theorem policy_deletion_completes_witness:
  "\<forall>n. bad_runs (ReconcilePolicy (fading_ext pol_parts sturdy_network) demo_request) (gone fst) n
     (fresh_sys (Some (demo_pol 1 [ociSecurityPolicyFinalizer] (Some 7) ''ocid1'' '''' 0), 3) None) \<le> 3"
proof
  fix n
  show "bad_runs (ReconcilePolicy (fading_ext pol_parts sturdy_network) demo_request) (gone fst) n
     (fresh_sys (Some (demo_pol 1 [ociSecurityPolicyFinalizer] (Some 7) ''ocid1'' '''' 0), 3) None) \<le> 3"
    by (rule order_trans [OF policy_deletion_completes [where left = snd]])
      (auto simp: patient_deletion_def patient_clock_def patient_sdk_def patient_call_def leaving_def
        still_def setback_def patient_world_defs pol_parts_def fresh_sys_def demo_pol_def
        demo_meta_def not_found_error_def conflict_error_def cloud_error_def Let_def
        split: prod.splits option.splits if_splits)
qed

end
