(* ===== verification/InstanceContract.thy ===== *)
theory InstanceContract
  imports Histories InstanceController
begin

text \<open>
  The instance controller refines the contract of \<open>Protocol\<close>: its descriptor, one refinement lemma per
  handler, and the interpretation of the locale \<open>reconciler\<close> on its \<open>Reconcile\<close>.
\<close>

section \<open>The descriptor\<close>

text \<open>How one OCI call of the compute client reads as a creation, a read or a destruction.\<close>

fun compute_kind :: "ComputeCall \<Rightarrow> oci_kind" where
  "compute_kind (LaunchCall req (Inl err)) = Create (Inl err)"
| "compute_kind (LaunchCall req (Inr i)) = Create (Inr (InstId i))"
| "compute_kind (GetCall i a) = Read i (answer_err a)"
| "compute_kind (TerminateCall i a) = Destroy i (answer_err a)"

text \<open>
  What the status is to become for each state of the cloud, written down without reference to the code: the
  phase, and whether the instance has settled, so that its generation counts as observed.
\<close>

fun instance_report :: "InstanceLifecycleState \<Rightarrow> string \<times> bool" where
  "instance_report InstanceLifecycleStateRunning = (''Running'', True)"
| "instance_report InstanceLifecycleStateProvisioning = (''Provisioning'', False)"
| "instance_report InstanceLifecycleStateStarting = (''Provisioning'', False)"
| "instance_report InstanceLifecycleStateTerminating = (''Terminating'', True)"
| "instance_report InstanceLifecycleStateTerminated = (''Terminated'', True)"
| "instance_report (InstanceLifecycleStateOther l) = (''Failed'', True)"

definition instance_reported :: "InstanceLifecycleState \<Rightarrow> OCIInstance \<Rightarrow> OCIInstance" where
  "instance_reported l x = x\<lparr>OCIInstance.Status := (OCIInstance.Status x)\<lparr>OCIInstanceStatus.Phase := fst (instance_report l),
     OCIInstanceStatus.ObservedGeneration := (if snd (instance_report l) then Generation (InstMeta x)
       else OCIInstanceStatus.ObservedGeneration (OCIInstance.Status x))\<rparr>\<rparr>"

text \<open>A running instance is looked at again after 5 minutes, any other after 30 seconds.\<close>

definition instance_again :: "InstanceLifecycleState \<Rightarrow> OCIInstance \<Rightarrow> Duration" where
  "instance_again l z = (if snd (instance_report l) \<and> OCIInstanceStatus.Phase (OCIInstance.Status z) = ''Running''
     then 5 * Minute else 30 * Second)"

fun instance_synced :: "ComputeCall \<Rightarrow> OCIInstance \<Rightarrow> OCIInstance \<Rightarrow> bool" where
  "instance_synced (GetCall i (Inr resp)) x y \<longleftrightarrow> y = instance_reported (InstLifecycleState resp) x"
| "instance_synced _ x y \<longleftrightarrow> False"

fun instance_come_back :: "ComputeCall \<Rightarrow> OCIInstance \<Rightarrow> Duration" where
  "instance_come_back (GetCall i (Inr resp)) z = instance_again (InstLifecycleState resp) z"
| "instance_come_back _ z = 0"

definition instanceDescriptor :: "(OCIInstance, ComputeCall) Descriptor" where
  "instanceDescriptor = \<lparr>
     d_finalizer = ociInstanceFinalizer,
     d_deleted_at = (\<lambda>x. DeletionTimestamp (InstMeta x)),
     d_gave_up = failed_and_observed,
     d_id = (\<lambda>x. InstanceID (OCIInstance.Status x)),
     d_kind = compute_kind,
     d_request = (\<lambda>x c. \<exists>a. c = LaunchCall (launchDetails (OCIInstance.Spec x)) a),
     d_start = InstanceTypes.set_phase InstancePhaseProvisioning,
     d_record = (\<lambda>i x. InstanceTypes.SetObservedGeneration (Generation (InstMeta x))
       (InstanceTypes.set_phase InstancePhaseProvisioning (set_instance_id i x))),
     d_fail = mark_failed instanceFailable,
     d_sync = instance_synced, d_again = instance_come_back\<rparr>"


lemma instanceDescriptor_simps [simp]:
  "d_finalizer instanceDescriptor = ociInstanceFinalizer"
  "d_deleted_at instanceDescriptor = (\<lambda>x. DeletionTimestamp (InstMeta x))"
  "d_gave_up instanceDescriptor = failed_and_observed"
  "d_id instanceDescriptor = (\<lambda>x. InstanceID (OCIInstance.Status x))"
  "d_kind instanceDescriptor = compute_kind"
  "d_request instanceDescriptor = (\<lambda>x c. \<exists>a. c = LaunchCall (launchDetails (OCIInstance.Spec x)) a)"
  "d_start instanceDescriptor = InstanceTypes.set_phase InstancePhaseProvisioning"
  "d_record instanceDescriptor = (\<lambda>i x. InstanceTypes.SetObservedGeneration (Generation (InstMeta x))
       (InstanceTypes.set_phase InstancePhaseProvisioning (set_instance_id i x)))"
  "d_fail instanceDescriptor = mark_failed instanceFailable"
  "d_sync instanceDescriptor = instance_synced"
  "d_again instanceDescriptor = instance_come_back"
  by (simp_all add: instanceDescriptor_def)



lemma instance_report_code:
  "fst (instance_report l) = phase_of_lifecycle l" "snd (instance_report l) \<longleftrightarrow> \<not> still_provisioning l"
  by (cases l; simp add: phase_of_lifecycle_def still_provisioning_def instance_phase_defs)+

text \<open>What the code writes, and when it comes back, is as reported.\<close>

lemma reported_code:
  "still_provisioning l \<Longrightarrow> instance_reported l x = InstanceTypes.set_phase (phase_of_lifecycle l) x"
  "\<not> still_provisioning l \<Longrightarrow> instance_reported l x = InstanceTypes.SetObservedGeneration
     (InstanceTypes.GetGeneration (InstanceTypes.set_phase (phase_of_lifecycle l) x))
     (InstanceTypes.set_phase (phase_of_lifecycle l) x)"
  by (simp_all add: instance_reported_def instance_report_code InstanceTypes.GetGeneration_def InstanceTypes.set_phase_def
      InstanceTypes.SetObservedGeneration_def)

section \<open>Refinement\<close>

lemmas inst_deletion_rules = deletion_rules [where D = instanceDescriptor, simplified]
lemmas inst_failing_rules = failing_rules [where D = instanceDescriptor, simplified]
lemmas inst_existing_rules = existing_rules [where D = instanceDescriptor, simplified]
lemmas inst_new_rules = new_rules [where D = instanceDescriptor, simplified]
lemmas inst_reconcile_rules = reconcile_rules [where D = instanceDescriptor, simplified]

lemmas durations = requeueAfter_def Minute_def Second_def

lemma handleDeletion_refines:
  "emits (handleDeletion ext x) s (deletion_run instanceDescriptor ext x)"
  unfolding emits_def handleDeletion_def newComputeClient_def call_terminate_def
  by (auto simp: call_defs Let_def requeueAfter_def intro!: inst_deletion_rules
      split: prod.splits sum.splits option.splits)

lemma instance_setFailedStatus_refines:
  "emits (setFailedStatus instanceFailable ext x reason) s (failing_run instanceDescriptor ext x reason)"
  unfolding emits_def by (auto intro!: inst_failing_rules split: prod.splits sum.splits)

lemma reconcileExisting_refines:
  "emits (reconcileExisting ext x c) s (existing_run instanceDescriptor x)"
  unfolding emits_def reconcileExisting_def call_get_def
  by (auto simp: call_defs Let_def durations
      reported_code instance_again_def instance_report_code instance_phase_defs
      intro!: inst_existing_rules
      split: prod.splits sum.splits)

lemma reconcileNew_refines:
  "emits (reconcileNew ext x c) s (new_run instanceDescriptor ext x)"
  unfolding emits_def reconcileNew_def call_launch_def
  by (auto simp: call_defs Let_def durations InstanceTypes.GetGeneration_def intro!: inst_new_rules
      split: prod.splits sum.splits option.splits)


lemma reconcileActive_refines:
  "emits (reconcileActive ext x) s (active_run instanceDescriptor ext x)"
proof -
  have existing: "sdk_prefix pre \<Longrightarrow> calls s' = calls s @ pre \<Longrightarrow> InstanceID (OCIInstance.Status x) \<noteq> '''' \<Longrightarrow>
      post (reconcileExisting ext x c)
        (\<lambda>out t. \<exists>evs. calls t = calls s @ evs \<and> active_run instanceDescriptor ext x out evs) s'"
    for pre s' c
    by (rule emits_after [OF reconcileExisting_refines]) (auto intro: active_run.existing)
  have new: "sdk_prefix pre \<Longrightarrow> calls s' = calls s @ pre \<Longrightarrow> InstanceID (OCIInstance.Status x) = '''' \<Longrightarrow>
      post (reconcileNew ext x c)
        (\<lambda>out t. \<exists>evs. calls t = calls s @ evs \<and> active_run instanceDescriptor ext x out evs) s'"
    for pre s' c
    by (rule emits_after [OF reconcileNew_refines]) (auto intro: active_run.new)
  have failing: "calls s' = calls s @ [SdkClient (Some err)] \<Longrightarrow>
      post (setFailedStatus instanceFailable ext x reason)
        (\<lambda>out t. \<exists>evs. calls t = calls s @ evs \<and> active_run instanceDescriptor ext x out evs) s'"
    for s' err reason
    by (rule emits_after [OF instance_setFailedStatus_refines]) (auto intro: active_run.no_client)
  show ?thesis
    unfolding emits_def reconcileActive_def newComputeClient_def
    by (auto simp: call_defs Let_def simp del: post_setFailedStatus
        intro: existing [of "[]"] existing [of "[SdkClient None]"] new [of "[]"] new [of "[SdkClient None]"]
          failing split: prod.splits sum.splits option.splits)
qed

lemma reconcileBody_refines:
  "emits (reconcileBody ext req) s (reconcile_run instanceDescriptor ext req)"
proof -
  have deleting: "calls s' = calls s @ [KGet req (Inr x)] \<Longrightarrow>
      \<not> IsZero ext (DeletionTimestamp (InstMeta x)) \<Longrightarrow>
      post (handleDeletion ext x)
        (\<lambda>out t. \<exists>evs. calls t = calls s @ evs \<and> reconcile_run instanceDescriptor ext req out evs) s'"
    for s' x
    by (rule emits_after [OF handleDeletion_refines]) (auto intro: inst_reconcile_rules)
  have active: "calls s' = calls s @ [KGet req (Inr x)] \<Longrightarrow>
      IsZero ext (DeletionTimestamp (InstMeta x)) \<Longrightarrow> ContainsFinalizer ext x ociInstanceFinalizer \<Longrightarrow>
      \<not> failed_and_observed x \<Longrightarrow>
      post (reconcileActive ext x)
        (\<lambda>out t. \<exists>evs. calls t = calls s @ evs \<and> reconcile_run instanceDescriptor ext req out evs) s'"
    for s' x
    by (rule emits_after [OF reconcileActive_refines]) (auto intro: inst_reconcile_rules)
  show ?thesis
    unfolding emits_def reconcileBody_def
    by (auto simp: call_defs intro: deleting active inst_reconcile_rules split: prod.splits sum.splits)
qed

lemma Reconcile_refines:
  "emits (Reconcile ext req) s (reconcile_run instanceDescriptor ext req)"
  using reconcileBody_refines unfolding emits_def Reconcile_def by simp


section \<open>Bookkeeping\<close>

text \<open>The label under which each call of the compute client is measured.\<close>

fun compute_labels :: "ComputeCall \<Rightarrow> string \<times> string \<times> string" where
  "compute_labels (LaunchCall req a) = (''ociinstance'', ''launch'', answer_label a)"
| "compute_labels (GetCall i a) = (''ociinstance'', ''get'', answer_label a)"
| "compute_labels (TerminateCall i a) = (''ociinstance'', ''terminate'', answer_label a)"

lemma handleDeletion_kept: "post (handleDeletion ext x) (\<lambda>_ t. kept compute_labels s t) s"
  unfolding handleDeletion_def newComputeClient_def call_terminate_def kept_def
  by (auto simp: call_defs Let_def split: prod.splits sum.splits option.splits)

lemma instance_setFailedStatus_kept:
  "post (setFailedStatus instanceFailable ext x reason) (\<lambda>_ t. kept compute_labels s t) s"
  unfolding kept_def by (auto split: prod.splits sum.splits)

lemma reconcileExisting_kept: "post (reconcileExisting ext x c) (\<lambda>_ t. kept compute_labels s t) s"
  unfolding reconcileExisting_def call_get_def kept_def
  by (auto simp: call_defs Let_def split: prod.splits sum.splits)

lemma reconcileNew_kept: "post (reconcileNew ext x c) (\<lambda>_ t. kept compute_labels s t) s"
  unfolding reconcileNew_def call_launch_def kept_def
  by (auto simp: call_defs Let_def split: prod.splits sum.splits option.splits)

lemma reconcileActive_kept: "post (reconcileActive ext x) (\<lambda>_ t. kept compute_labels s t) s"
  unfolding reconcileActive_def newComputeClient_def
  by (auto simp: call_defs Let_def simp del: post_setFailedStatus
      intro!: kept_after [OF reconcileExisting_kept] kept_after [OF reconcileNew_kept]
        kept_after [OF instance_setFailedStatus_kept]
      split: prod.splits sum.splits option.splits) (auto simp: kept_def)

lemma reconcileBody_kept: "post (reconcileBody ext req) (\<lambda>_ t. kept compute_labels s t) s"
  unfolding reconcileBody_def
  by (auto simp: call_defs intro!: kept_after [OF handleDeletion_kept] kept_after [OF reconcileActive_kept]
      split: prod.splits sum.splits) (auto simp: kept_def)

interpretation inst_reconciler: reconciler instanceDescriptor Reconcile "''ociinstance''" compute_labels
proof
  fix ext req and s :: "'w InstanceSys"
  show "emits (Reconcile ext req) s (reconcile_run instanceDescriptor ext req)"
    by (rule Reconcile_refines)
  show "post (Reconcile ext req) (\<lambda>out t. \<exists>u. kept compute_labels s u \<and>
      t = u\<lparr>reconcileTotal := (reconcileTotal s)((''ociinstance'', outcome_label out) :=
        Suc (reconcileTotal s (''ociinstance'', outcome_label out)))\<rparr>) s"
    unfolding Reconcile_def by (rule kept_then_counted [OF reconcileBody_kept])
qed


text \<open>What the status writes do to resource version and remote id.\<close>

interpretation inst_tracked: tracked_reconciler instanceDescriptor Reconcile "''ociinstance''" compute_labels
  "\<lambda>x. ResourceVersion (InstMeta x)"
proof
  show "ResourceVersion (InstMeta (d_start instanceDescriptor x)) = ResourceVersion (InstMeta x)" for x by simp
  show "d_id instanceDescriptor (d_start instanceDescriptor x) = d_id instanceDescriptor x" for x by simp
  show "d_id instanceDescriptor (d_record instanceDescriptor i x) = i" for i x by simp
  show "ResourceVersion (InstMeta (d_fail instanceDescriptor reason x)) = ResourceVersion (InstMeta x)" for reason x
    using inst_failable.mark_failed_fields(4) [of reason x] by simp
  show "d_id instanceDescriptor (d_fail instanceDescriptor reason x) = d_id instanceDescriptor x" for reason x
    using inst_failable.mark_failed_fields(4) [of reason x] by simp
  show "ResourceVersion (InstMeta y) = ResourceVersion (InstMeta x) \<and> d_id instanceDescriptor y = d_id instanceDescriptor x"
    if "d_sync instanceDescriptor c x y" for c x y
    using that by (cases "(c, x, y)" rule: instance_synced.cases) (auto simp: instance_reported_def)
qed

end
