(* ===== verification/InstanceProperties.thy ===== *)
theory InstanceProperties
  imports InstanceContract Fixtures
begin

text \<open>
  What one run, and any sequence of runs, of the instance reconciler does to the cloud and to the API
  server. The facts come from the interpretations \<open>inst_reconciler\<close> and \<open>inst_tracked\<close>; each is written
  out over the model. A run is observed by its outcome and by the events it adds to the history.
\<close>

abbreviation inst_version :: "OCIInstance \<Rightarrow> string" where
  "inst_version x \<equiv> ResourceVersion (InstMeta x)"

abbreviation inst_id :: "OCIInstance \<Rightarrow> string" where
  "inst_id x \<equiv> InstanceID (OCIInstance.Status x)"

text \<open>The launches that made an instance with an id.\<close>

fun launched :: "ComputeCall \<Rightarrow> bool" where
  "launched (LaunchCall d (Inr i)) \<longleftrightarrow> InstId i \<noteq> None \<and> InstId i \<noteq> Some ''''"
| "launched _ \<longleftrightarrow> False"

definition launches :: "(OCIInstance, ComputeCall) Event list \<Rightarrow> nat" where
  "launches evs = length (filter launched (oci_calls evs))"

lemma made_launched: "made (compute_kind c) = launched c"
  by (cases c rule: launched.cases) (auto elim!: made.elims)

lemma result_of: "RequeueAfter res = d \<longleftrightarrow> res = \<lparr>RequeueAfter = d\<rparr>"
  by (cases res) simp

lemma creations_launches: "creations instanceDescriptor evs = launches evs"
  by (simp add: creations_def launches_def made_launched)

section \<open>Launching\<close>

text \<open>C3: the reconciler launches an instance only for an object that it has just read, that is not being
  deleted, holds the finalizer, is not given up on and records no instance id, only after the API server
  has accepted its status write of phase Provisioning, with the request that the answered spec asks for,
  and it makes no other call to the cloud in that run.\<close>
theorem launch_guarded:
  assumes "Oci (LaunchCall d r) \<in> set (events (Reconcile ext req) s)"
  shows "\<exists>x pre y rest. sdk_prefix pre \<and> oci_calls rest = [] \<and>
     events (Reconcile ext req) s = KGet req (Inr x) # pre @
       [KStatusUpdate (InstanceTypes.set_phase InstancePhaseProvisioning x) (Inr y), Oci (LaunchCall d r)] @ rest \<and>
     InstanceID (OCIInstance.Status x) = '''' \<and> d = launchDetails (OCIInstance.Spec y) \<and>
     IsZero ext (DeletionTimestamp (InstMeta x)) \<and> ContainsFinalizer ext x ociInstanceFinalizer \<and>
     \<not> failed_and_observed x"
proof -
  obtain k where "d_kind instanceDescriptor (LaunchCall d r) = Create k" by (cases r) simp_all
  from inst_reconciler.create_guarded [OF assms this] show ?thesis by fastforce
qed

theorem launch_guarded_witness:
  "\<exists>x pre y rest. events (Reconcile inst_ext demo_request) launching_sys = KGet demo_request (Inr x) # pre @
     [KStatusUpdate (InstanceTypes.set_phase InstancePhaseProvisioning x) (Inr y),
      Oci (LaunchCall (launchDetails demo_inst_spec) (Inr launched_demo))] @ rest \<and>
     launchDetails demo_inst_spec = launchDetails (OCIInstance.Spec y)"
  using launch_guarded [of "launchDetails demo_inst_spec" "Inr launched_demo" inst_ext demo_request launching_sys]
  by (auto simp: launching_run)

text \<open>Over any number of reconciles of one object, whatever stale reads and foreign writes an API
  server with optimistic concurrency lets happen in between, each instance launched beyond the first is
  paid for by a status write of the reconciler that failed.\<close>
theorem launched_at_most_once:
  assumes "served inst_version inst_id vs (events (reconciles (Reconcile ext req) n) s) vs'"
    and "proper inst_version vs"
  shows "launches (events (reconciles (Reconcile ext req) n) s) \<le>
    Suc (failed_writes (events (reconciles (Reconcile ext req) n) s))"
  using inst_tracked.created_once [of vs ext req n s vs'] assms by (simp add: creations_launches)

lemma one_run_events [simp]: "events (reconciles (Reconcile ext req) (Suc 0)) s = events (Reconcile ext req) s"
  by (simp add: inst_tracked.many_events events_def [of "reconciles m 0" for m])

theorem launched_at_most_once_witness:
  "launches (events (reconciles (Reconcile inst_ext demo_request) (Suc 0)) launching_sys) = 1 \<and> (1::nat) \<le>
     Suc (failed_writes (events (reconciles (Reconcile inst_ext demo_request) (Suc 0)) launching_sys))"
proof -
  have "served inst_version inst_id [inst_ready 1 '''' '''' 0]
      (events (reconciles (Reconcile inst_ext demo_request) (Suc 0)) launching_sys)
      [inst_ready 1 '''' '''' 0, inst_ready 2 '''' ''Provisioning'' 0, inst_ready 3 ''ocid1'' ''Provisioning'' 1]"
    unfolding one_run_events conjunct2 [OF launching_run]
    by (intro served_intros served_done [THEN back_subst [where P = "served _ _ _ _"]])
      (simp_all add: proper_def demo_inst_def demo_meta_def version_text_def eval_nat_numeral)
  from launched_at_most_once [OF this] show ?thesis
    by (simp add: proper_def launching_run launches_def failed_writes_def)
qed

text \<open>Once the API server holds an instance id for an object, no sequence of reconciles of it clears or replaces
  that id, whatever stale reads and foreign writes happen in between.\<close>
theorem recorded_id_is_permanent:
  assumes "served inst_version inst_id vs (events (reconciles (Reconcile ext req) n) s) vs'"
    and "proper inst_version vs" "inst_id (last vs) \<noteq> ''''"
  shows "inst_id (last vs') = inst_id (last vs)"
  using inst_tracked.many_keep_id [of vs ext req n s vs'] assms by simp

theorem recorded_id_is_permanent_witness:
  "served inst_version inst_id [inst_ready 1 ''ocid1'' '''' 0] (events (reconciles (Reconcile inst_ext demo_request) (Suc 0)) polling_sys)
      [inst_ready 1 ''ocid1'' '''' 0, inst_ready 2 ''ocid1'' ''Running'' 1] \<and>
   inst_id (inst_ready 2 ''ocid1'' ''Running'' 1) = inst_id (inst_ready 1 ''ocid1'' '''' 0)"
proof -
  have "served inst_version inst_id [inst_ready 1 ''ocid1'' '''' 0] (events (reconciles (Reconcile inst_ext demo_request) (Suc 0)) polling_sys)
      [inst_ready 1 ''ocid1'' '''' 0, inst_ready 2 ''ocid1'' ''Running'' 1]"
    unfolding one_run_events conjunct2 [OF polling_run]
    by (intro served_intros served_done [THEN back_subst [where P = "served _ _ _ _"]])
      (simp_all add: proper_def demo_inst_def demo_meta_def version_text_def eval_nat_numeral)
  with recorded_id_is_permanent [OF this] show ?thesis by (simp add: proper_def inst_demo_facts)
qed

text \<open>When the cloud answers a launch with an id, the run ends with the status write that records this
  id, phase Provisioning and the generation of the answered object; the run returns an error exactly when
  that write fails, and otherwise asks to be requeued.\<close>
theorem launched_id_recorded:
  assumes "Oci (LaunchCall d (Inr inst)) \<in> set (events (Reconcile ext req) s)" "InstId inst = Some i"
  shows "\<exists>y a res. last (events (Reconcile ext req) s) =
      KStatusUpdate (InstanceTypes.SetObservedGeneration (Generation (InstMeta y))
        (InstanceTypes.set_phase InstancePhaseProvisioning (set_instance_id i y))) a \<and>
    d = launchDetails (OCIInstance.Spec y) \<and> 0 < RequeueAfter res \<and>
    outcome (Reconcile ext req) s =
      (case a of Inl err \<Rightarrow> Returned zeroResult (Some err) | Inr z \<Rightarrow> Returned res None)"
proof -
  have "d_kind instanceDescriptor (LaunchCall d (Inr inst)) = Create (Inr (Some i))" using assms(2) by simp
  from inst_reconciler.created_id [OF assms(1) this] show ?thesis by (auto simp: written_case)
qed

theorem launched_id_recorded_witness:
  "\<exists>y a. last (events (Reconcile inst_ext demo_request) launching_sys) =
      KStatusUpdate (InstanceTypes.SetObservedGeneration (Generation (InstMeta y))
        (InstanceTypes.set_phase InstancePhaseProvisioning (set_instance_id ''ocid1'' y))) a"
  using launched_id_recorded [of "launchDetails demo_inst_spec" launched_demo inst_ext demo_request
      launching_sys "''ocid1''"]
  by (auto simp: launching_run)

text \<open>C35: when the cloud answers a launch without an id, the run panics right after that call: nothing is
  recorded, and the deferred count books the run as a success.\<close>
theorem launch_without_id_panics:
  assumes "Oci (LaunchCall d (Inr inst)) \<in> set (events (Reconcile ext req) s)" "InstId inst = None"
  shows "outcome (Reconcile ext req) s = Panicked \<and>
    last (events (Reconcile ext req) s) = Oci (LaunchCall d (Inr inst)) \<and>
    reconcileTotal (final (Reconcile ext req) s) (''ociinstance'', ''success'') =
      Suc (reconcileTotal s (''ociinstance'', ''success''))"
proof -
  have "d_kind instanceDescriptor (LaunchCall d (Inr inst)) = Create (Inr None)" using assms(2) by simp
  from inst_reconciler.created_without_id [OF assms(1) this] inst_reconciler.counted [of ext req s]
  show ?thesis by (auto simp: metricResultSuccess_def)
qed

text \<open>The zero mock, as the tests would inject it without setting any function field.\<close>

definition mocked_sys :: "InstWorld InstanceSys" where
  "mocked_sys = launching_sys\<lparr>ociClient := Some (mock_compute_client
     \<lparr>LaunchInstanceFn = None, GetInstanceFn = None, TerminateInstanceFn = None\<rparr>)\<rparr>"

lemma mocked_run:
  "outcome (Reconcile inst_ext demo_request) mocked_sys = Panicked \<and>
   events (Reconcile inst_ext demo_request) mocked_sys =
     [KGet demo_request (Inr (inst_ready 1 '''' '''' 0)),
      KStatusUpdate (inst_ready 1 '''' ''Provisioning'' 0) (Inr (inst_ready 2 '''' ''Provisioning'' 0)),
      Oci (LaunchCall (launchDetails demo_inst_spec) (Inr zeroCoreInstance))]"
  by (rule ran) (simp add: inst_run_defs inst_world_defs inst_sys_defs inst_setter_defs mocked_sys_def
      mock_compute_client_def Mock_LaunchInstance_def zeroCoreInstance_def)

theorem launch_without_id_panics_witness:
  "outcome (Reconcile inst_ext demo_request) mocked_sys = Panicked \<and>
   last (events (Reconcile inst_ext demo_request) mocked_sys) =
     Oci (LaunchCall (launchDetails demo_inst_spec) (Inr zeroCoreInstance)) \<and>
   reconcileTotal (final (Reconcile inst_ext demo_request) mocked_sys) (''ociinstance'', ''success'') =
     Suc (reconcileTotal mocked_sys (''ociinstance'', ''success''))"
  by (rule launch_without_id_panics) (simp_all add: mocked_run, simp add: zeroCoreInstance_def)

section \<open>Deletion\<close>

text \<open>C18: the reconciler terminates an instance only for an object that it has just read, that is being
  deleted and still holds the finalizer, and only the instance that its status records.\<close>
theorem terminate_guarded:
  assumes "Oci (TerminateCall i r) \<in> set (events (Reconcile ext req) s)"
  shows "\<exists>x evs. events (Reconcile ext req) s = KGet req (Inr x) # evs \<and>
     i = Some (InstanceID (OCIInstance.Status x)) \<and> InstanceID (OCIInstance.Status x) \<noteq> '''' \<and>
     \<not> IsZero ext (DeletionTimestamp (InstMeta x)) \<and> ContainsFinalizer ext x ociInstanceFinalizer"
proof -
  have "d_kind instanceDescriptor (TerminateCall i r) = Destroy i (answer_err r)" by simp
  from inst_reconciler.destroy_guarded [OF assms this] show ?thesis by simp
qed

theorem terminate_guarded_witness:
  "\<exists>x evs. events (Reconcile inst_ext demo_request) leaving_sys = KGet demo_request (Inr x) # evs \<and>
     ''ocid1'' = InstanceID (OCIInstance.Status x)"
  using terminate_guarded [of "Some ''ocid1''" "Inr ()" inst_ext demo_request leaving_sys]
  by (auto simp: leaving_run)

lemma compute_destroyed: "compute_kind c = Destroy (Some i) None \<longleftrightarrow> c = TerminateCall (Some i) (Inr ())"
  by (cases c rule: compute_kind.cases) (auto elim: answer_err.elims)

text \<open>C4: every write of the whole object (not of its status) either adds the finalizer to an object that
  lacks it and is not being deleted, or releases the finalizer of an object being deleted that records no
  instance, or whose recorded instance the cloud has agreed to terminate in the same run.\<close>
theorem finalizer_released_after_terminate:
  assumes "KUpdate y a \<in> set (events (Reconcile ext req) s)"
  shows "\<exists>x. hd (events (Reconcile ext req) s) = KGet req (Inr x) \<and>
     (IsZero ext (DeletionTimestamp (InstMeta x)) \<and> \<not> ContainsFinalizer ext x ociInstanceFinalizer \<and>
        y = AddFinalizer ext x ociInstanceFinalizer \<or>
      \<not> IsZero ext (DeletionTimestamp (InstMeta x)) \<and> ContainsFinalizer ext x ociInstanceFinalizer \<and>
        y = RemoveFinalizer ext x ociInstanceFinalizer \<and>
        (InstanceID (OCIInstance.Status x) = '''' \<or>
         Oci (TerminateCall (Some (InstanceID (OCIInstance.Status x))) (Inr ()))
           \<in> set (events (Reconcile ext req) s)))"
  using inst_reconciler.updates_guarded [OF assms] by (auto simp: compute_destroyed)

theorem finalizer_released_after_terminate_witness:
  "\<exists>x. KGet demo_request (Inr (inst_leaving 1 [ociInstanceFinalizer])) = KGet demo_request (Inr x) \<and>
     InstanceID (OCIInstance.Status x) = ''ocid1''"
  using finalizer_released_after_terminate [of "inst_leaving 1 []" "Inr (inst_leaving 2 [])" inst_ext
      demo_request leaving_sys]
  by (auto simp: leaving_run demo_inst_def)

section \<open>Failure\<close>

text \<open>C27: marking an instance as failed fetches it again by its key. If that fails the error is returned and
  nothing is written. Otherwise one status write goes out for the object just fetched, with phase Failed,
  the given reason and the generation of the fetched object, and nothing else changed.\<close>
theorem failure_marks_the_refetched_instance:
  "(\<exists>err. events (setFailedStatus instanceFailable ext x reason) s = [KGet (ObjectKeyFromObject ext x) (Inl err)] \<and>
      outcome (setFailedStatus instanceFailable ext x reason) s = Returned zeroResult (Some err)) \<or>
   (\<exists>y z a. events (setFailedStatus instanceFailable ext x reason) s =
        [KGet (ObjectKeyFromObject ext x) (Inr y), KStatusUpdate z a] \<and>
      z = y\<lparr>OCIInstance.Status := (OCIInstance.Status y)\<lparr>OCIInstanceStatus.Phase := ''Failed'',
        OCIInstanceStatus.FailureReason := reason, OCIInstanceStatus.ObservedGeneration := Generation (InstMeta y)\<rparr>\<rparr> \<and>
      outcome (setFailedStatus instanceFailable ext x reason) s =
        Returned zeroResult (case a of Inl err \<Rightarrow> Some err | Inr z' \<Rightarrow> None))"
  by (rule emits_run, unfold emits_def)
    (auto simp: mark_failed_def instanceFailable_def InstanceTypes.SetFailedStatus_def InstancePhaseFailed_def
      InstanceTypes.SetObservedGeneration_def InstanceTypes.GetGeneration_def split: prod.splits sum.splits)

text \<open>C19: once an object carries the status that \<open>setFailedStatus\<close> writes, and as long as its generation
  is the one that was marked, it is not being deleted and it holds the finalizer, a reconcile of it reads it
  and does nothing else: no call to the cloud, no write, no requeue, no error.\<close>
theorem failed_until_spec_changes:
  assumes "hd (events (Reconcile ext req) s) = KGet req (Inr x)"
    and "OCIInstance.Status x = OCIInstance.Status (mark_failed instanceFailable reason y)"
    and "Generation (InstMeta x) = Generation (InstMeta y)"
    and "IsZero ext (DeletionTimestamp (InstMeta x))" "ContainsFinalizer ext x ociInstanceFinalizer"
  shows "events (Reconcile ext req) s = [KGet req (Inr x)] \<and>
    outcome (Reconcile ext req) s = Returned zeroResult None"
proof -
  have "failed_and_observed x"
    using assms(2,3) inst_failable.mark_failed_fields(1,3) [of reason y]
    by (simp add: failed_and_observed_def instanceFailable_def InstanceTypes.GetGeneration_def)
  then show ?thesis using inst_reconciler.given_up [of ext req s x] assms by simp
qed

theorem failed_until_spec_changes_witness:
  "events (Reconcile inst_ext demo_request) given_up_sys = [KGet demo_request (Inr (inst_ready 1 '''' ''Failed'' 1))]"
proof -
  have "OCIInstance.Status (inst_ready 1 '''' ''Failed'' 1) =
      OCIInstance.Status (mark_failed instanceFailable '''' (inst_ready 1 '''' '''' 0))"
    by (simp add: demo_inst_def demo_meta_def mark_failed_def instanceFailable_def
        InstanceTypes.GetGeneration_def instance_phase_defs)
  with failed_until_spec_changes [of inst_ext demo_request given_up_sys "inst_ready 1 '''' ''Failed'' 1" "''''"
      "inst_ready 1 '''' '''' 0"]
  show ?thesis by (simp add: given_up_run inst_demo_facts)
qed

text \<open>An object that is not given up on (its last failure was at another generation, or it never
  failed) and records no instance gets a launch attempt: the run either cannot make a client, or writes
  phase Provisioning, and if that write goes through it sends the launch request of the answered spec.\<close>
theorem launch_attempted:
  assumes "hd (events (Reconcile ext req) s) = KGet req (Inr x)"
    and "IsZero ext (DeletionTimestamp (InstMeta x))" "ContainsFinalizer ext x ociInstanceFinalizer"
    and "\<not> failed_and_observed x" "InstanceID (OCIInstance.Status x) = ''''"
  shows "(\<exists>err rest. events (Reconcile ext req) s = KGet req (Inr x) # SdkClient (Some err) # rest) \<or>
    (\<exists>pre. sdk_prefix pre \<and>
       ((\<exists>err. events (Reconcile ext req) s =
           KGet req (Inr x) # pre @ [KStatusUpdate (InstanceTypes.set_phase InstancePhaseProvisioning x) (Inl err)]) \<or>
        (\<exists>y r rest. events (Reconcile ext req) s =
           KGet req (Inr x) # pre @ KStatusUpdate (InstanceTypes.set_phase InstancePhaseProvisioning x) (Inr y) #
             Oci (LaunchCall (launchDetails (OCIInstance.Spec y)) r) # rest)))"
  using inst_reconciler.creation_attempted [of ext req s x] assms by auto

theorem launch_attempted_witness:
  "\<exists>pre. sdk_prefix pre \<and> (\<exists>y r rest. events (Reconcile inst_ext demo_request) losing_sys =
     KGet demo_request (Inr (inst_ready 1 '''' '''' 0)) # pre @
       KStatusUpdate (InstanceTypes.set_phase InstancePhaseProvisioning (inst_ready 1 '''' '''' 0)) (Inr y) #
       Oci (LaunchCall (launchDetails (OCIInstance.Spec y)) r) # rest)"
  using launch_attempted [of inst_ext demo_request losing_sys "inst_ready 1 '''' '''' 0"]
  by (fastforce simp: losing_run inst_demo_facts failed_and_observed_def InstancePhaseFailed_def sdk_prefix_def)

section \<open>The end of a run\<close>

text \<open>When a run returns no error and asks for no requeue, the reason is on record: the object is gone
  from the API server, it is being deleted without the finalizer or is given up on and nothing was done,
  its finalizers were written, or its failure was written to its status.\<close>
theorem quiet_runs_are_settled:
  assumes "outcome (Reconcile ext req) s = Returned res None" "RequeueAfter res = 0"
  shows "(\<exists>err. events (Reconcile ext req) s = [KGet req (Inl err)] \<and> IsNotFound ext err) \<or>
    (\<exists>x. hd (events (Reconcile ext req) s) = KGet req (Inr x) \<and>
       (events (Reconcile ext req) s = [KGet req (Inr x)] \<and>
          (failed_and_observed x \<or> \<not> ContainsFinalizer ext x ociInstanceFinalizer) \<or>
        (\<exists>y z. last (events (Reconcile ext req) s) = KUpdate y (Inr z)) \<or>
        (\<exists>reason y z. last (events (Reconcile ext req) s) =
           KStatusUpdate (mark_failed instanceFailable reason y) (Inr z))))"
  using inst_reconciler.quiet [OF assms] by simp

theorem quiet_runs_are_settled_witness:
  "outcome (Reconcile inst_ext demo_request) given_up_sys = Returned zeroResult None \<and>
   (\<exists>x. hd (events (Reconcile inst_ext demo_request) given_up_sys) = KGet demo_request (Inr x))"
  using quiet_runs_are_settled [of inst_ext demo_request given_up_sys zeroResult]
  by (auto simp: given_up_run zeroResult_def)

text \<open>Every run counts itself once, under its outcome (a run that panics counts as a success, since
  the deferred function then sees a nil error), makes at most one call to the cloud, and observes exactly
  the calls it made, each once, under the labels of that call and of its result.\<close>
theorem every_run_is_counted:
  "\<exists>obs. calls (final (Reconcile ext req) s) = calls s @ events (Reconcile ext req) s \<and>
     length (oci_calls (events (Reconcile ext req) s)) \<le> 1 \<and>
     ociAPICallDuration (final (Reconcile ext req) s) = ociAPICallDuration s @ obs \<and>
     map fst obs = map compute_labels (oci_calls (events (Reconcile ext req) s)) \<and>
     reconcileTotal (final (Reconcile ext req) s) = (reconcileTotal s)
       ((''ociinstance'', outcome_label (outcome (Reconcile ext req) s)) :=
         Suc (reconcileTotal s (''ociinstance'', outcome_label (outcome (Reconcile ext req) s))))"
  by (rule inst_reconciler.counted)

text \<open>The reconciler refines the protocol: the calls of a run, their order, their arguments and the
  value returned are those of a run that the rules of \<open>reconcile_run\<close> permit for instances.\<close>
theorem reconcile_refines_protocol:
  "reconcile_run instanceDescriptor ext req (outcome (Reconcile ext req) s) (events (Reconcile ext req) s)"
  by (rule inst_reconciler.run_of)

section \<open>Syncing a launched instance\<close>

text \<open>C20: a run that polls an instance has just read an object that is not being deleted, holds the finalizer, is
  not given up on and records the instance it asks for, and it does no more than this: if the poll fails, it
  returns the error and asks for a retry in 30 seconds, without touching the status. Otherwise it writes the
  status once and ends, with the phase and the observed generation that the table \<open>instance_report\<close> lists for
  the answered state (Running, Terminating and Terminated as such, Provisioning and Starting as
  Provisioning, any other as Failed; the generation counts as observed unless the instance is coming up);
  if that write fails it returns the error, else it comes back after 5 minutes if the state is a settled one
  and the stored object is in phase Running, and after 30 seconds in all other cases.\<close>
theorem existing_instance_synced:
  assumes "Oci (GetCall i r) \<in> set (events (Reconcile ext req) s)"
  shows "\<exists>x pre. sdk_prefix pre \<and> i = Some (inst_id x) \<and> inst_id x \<noteq> '''' \<and>
     IsZero ext (DeletionTimestamp (InstMeta x)) \<and> ContainsFinalizer ext x ociInstanceFinalizer \<and>
     \<not> failed_and_observed x \<and>
     (case r of
        Inl err \<Rightarrow> events (Reconcile ext req) s = KGet req (Inr x) # pre @ [Oci (GetCall i r)] \<and>
          outcome (Reconcile ext req) s = Returned \<lparr>RequeueAfter = 30 * Second\<rparr> (Some err)
      | Inr resp \<Rightarrow> \<exists>a. events (Reconcile ext req) s = KGet req (Inr x) # pre @
            [Oci (GetCall i r), KStatusUpdate (instance_reported (InstLifecycleState resp) x) a] \<and>
          outcome (Reconcile ext req) s = (case a of
            Inl err \<Rightarrow> Returned zeroResult (Some err)
          | Inr z \<Rightarrow> Returned \<lparr>RequeueAfter = instance_again (InstLifecycleState resp) z\<rparr> None))"
proof -
  have "d_kind instanceDescriptor (GetCall i r) = Read i (answer_err r)" by simp
  note read = inst_reconciler.remote_read [OF assms this]
  show ?thesis
  proof (cases r)
    case (Inl err)
    with read show ?thesis by (auto simp: result_of)
  next
    case (Inr resp)
    with read obtain x pre a where
      "sdk_prefix pre" "i = Some (inst_id x)" "inst_id x \<noteq> ''''" "IsZero ext (DeletionTimestamp (InstMeta x))"
      "ContainsFinalizer ext x ociInstanceFinalizer" "\<not> failed_and_observed x"
      "events (Reconcile ext req) s = KGet req (Inr x) # pre @
         [Oci (GetCall i r), KStatusUpdate (instance_reported (InstLifecycleState resp) x) a]"
      "case a of Inl err \<Rightarrow> outcome (Reconcile ext req) s = Returned zeroResult (Some err)
       | Inr z \<Rightarrow> \<exists>res. RequeueAfter res = instance_again (InstLifecycleState resp) z \<and>
           outcome (Reconcile ext req) s = Returned res None"
      by (auto cong: sum.case_cong)
    then show ?thesis
      by (intro exI [of _ x] exI [of _ pre]) (auto simp: Inr result_of split: sum.splits)
  qed
qed

theorem existing_instance_synced_witness:
  "\<exists>x a. last (events (Reconcile inst_ext demo_request) polling_sys) =
     KStatusUpdate (instance_reported InstanceLifecycleStateRunning x) a \<and>
   OCIInstanceStatus.Phase (OCIInstance.Status (instance_reported InstanceLifecycleStateRunning x)) = ''Running'' \<and>
   OCIInstanceStatus.ObservedGeneration (OCIInstance.Status (instance_reported InstanceLifecycleStateRunning x)) =
     Generation (InstMeta x)"
  using existing_instance_synced [of "Some ''ocid1''" "Inr \<lparr>InstId = Some ''ocid1'',
      InstLifecycleState = InstanceLifecycleStateRunning\<rparr>" inst_ext demo_request polling_sys]
  by (auto simp: polling_run instance_reported_def)

text \<open>C33: when a poll answers a lifecycle state that the code does not name (STOPPED, STOPPING, MOVING, ...), the run
  ends with a status write of phase Failed at the current generation, which leaves the failure reason as it was,
  and, when that is stored, asks to come back in 30 seconds. But whoever reads the object in that status later, with its
  generation unchanged, not being deleted and with its finalizer, does nothing at all: no poll, no write, no
  requeue, no error. As long as its spec stays the same, the instance is never polled again,
  although it may be running by then.\<close>
theorem unnamed_states_are_final:
  assumes "Oci (GetCall i (Inr resp)) \<in> set (events (Reconcile ext req) s)"
    and "InstLifecycleState resp = InstanceLifecycleStateOther l"
  shows "\<exists>x pre y a. sdk_prefix pre \<and> events (Reconcile ext req) s =
       KGet req (Inr x) # pre @ [Oci (GetCall i (Inr resp)), KStatusUpdate y a] \<and>
     y = x\<lparr>OCIInstance.Status := (OCIInstance.Status x)\<lparr>OCIInstanceStatus.Phase := ''Failed'',
       OCIInstanceStatus.ObservedGeneration := Generation (InstMeta x)\<rparr>\<rparr> \<and>
     (\<forall>z. a = Inr z \<and> OCIInstance.Status z = OCIInstance.Status y \<longrightarrow>
        outcome (Reconcile ext req) s = Returned \<lparr>RequeueAfter = 30 * Second\<rparr> None) \<and>
     (\<forall>s' z. hd (events (Reconcile ext req) s') = KGet req (Inr z) \<and>
        OCIInstance.Status z = OCIInstance.Status y \<and> Generation (InstMeta z) = Generation (InstMeta y) \<and>
        IsZero ext (DeletionTimestamp (InstMeta z)) \<and> ContainsFinalizer ext z ociInstanceFinalizer \<longrightarrow>
        events (Reconcile ext req) s' = [KGet req (Inr z)] \<and>
        outcome (Reconcile ext req) s' = Returned zeroResult None)"
proof -
  have "d_kind instanceDescriptor (GetCall i (Inr resp)) = Read i None" by simp
  from inst_reconciler.remote_read [OF assms(1) this] obtain x pre y a where
    run: "sdk_prefix pre" "d_sync instanceDescriptor (GetCall i (Inr resp)) x y"
      "events (Reconcile ext req) s = KGet req (Inr x) # pre @ [Oci (GetCall i (Inr resp)), KStatusUpdate y a]"
      "case a of Inl err \<Rightarrow> outcome (Reconcile ext req) s = Returned zeroResult (Some err)
       | Inr z \<Rightarrow> \<exists>res. RequeueAfter res = instance_come_back (GetCall i (Inr resp)) z \<and>
           outcome (Reconcile ext req) s = Returned res None"
    by (auto cong: sum.case_cong)
  have y: "y = x\<lparr>OCIInstance.Status := (OCIInstance.Status x)\<lparr>OCIInstanceStatus.Phase := ''Failed'',
      OCIInstanceStatus.ObservedGeneration := Generation (InstMeta x)\<rparr>\<rparr>"
    using run(2) assms(2) by (simp add: instance_reported_def)
  have "failed_and_observed z" if "OCIInstance.Status z = OCIInstance.Status y"
      "Generation (InstMeta z) = Generation (InstMeta y)" for z
    using that y by (simp add: failed_and_observed_def instance_phase_defs)
  then show ?thesis
    using run(1,3,4) y assms(2) inst_reconciler.given_up [of ext req]
    by (intro exI [of _ x] exI [of _ pre] exI [of _ y] exI [of _ a])
      (auto simp: result_of instance_again_def)
qed

text \<open>A cloud that has stopped the instance, and the state that the run on it leaves behind.\<close>

definition stopped_sys :: "InstWorld InstanceSys" where
  "stopped_sys = inst_sys (Some (inst_ready 1 ''ocid1'' ''Running'' 1)) [] [InstanceLifecycleStateOther ''STOPPED'']"

lemma stopped_run:
  "Oci (GetCall (Some ''ocid1'') (Inr \<lparr>InstId = Some ''ocid1'', InstLifecycleState = InstanceLifecycleStateOther ''STOPPED''\<rparr>))
     \<in> set (events (Reconcile inst_ext demo_request) stopped_sys)"
  "last (events (Reconcile inst_ext demo_request) stopped_sys) =
     KStatusUpdate (inst_ready 1 ''ocid1'' ''Failed'' 1) (Inr (inst_ready 2 ''ocid1'' ''Failed'' 1))"
  "hd (events (Reconcile inst_ext demo_request) (final (Reconcile inst_ext demo_request) stopped_sys)) =
     KGet demo_request (Inr (inst_ready 2 ''ocid1'' ''Failed'' 1))"
proof -
  let ?m = "Reconcile inst_ext demo_request"
  have "post ?m (\<lambda>_ t. drop (length (calls stopped_sys)) (calls t) =
      [KGet demo_request (Inr (inst_ready 1 ''ocid1'' ''Running'' 1)), SdkClient None,
       Oci (GetCall (Some ''ocid1'') (Inr \<lparr>InstId = Some ''ocid1'', InstLifecycleState = InstanceLifecycleStateOther ''STOPPED''\<rparr>)),
       KStatusUpdate (inst_ready 1 ''ocid1'' ''Failed'' 1) (Inr (inst_ready 2 ''ocid1'' ''Failed'' 1))] \<and>
     post ?m (\<lambda>_ u. drop (length (calls t)) (calls u) = [KGet demo_request (Inr (inst_ready 2 ''ocid1'' ''Failed'' 1))]) t)
     stopped_sys"
    by (simp add: inst_run_defs inst_world_defs inst_setter_defs stopped_sys_def phase_of_lifecycle_def
        still_provisioning_def)
  then show "Oci (GetCall (Some ''ocid1'') (Inr \<lparr>InstId = Some ''ocid1'', InstLifecycleState = InstanceLifecycleStateOther ''STOPPED''\<rparr>))
      \<in> set (events ?m stopped_sys)"
    "last (events ?m stopped_sys) =
       KStatusUpdate (inst_ready 1 ''ocid1'' ''Failed'' 1) (Inr (inst_ready 2 ''ocid1'' ''Failed'' 1))"
    "hd (events ?m (final ?m stopped_sys)) = KGet demo_request (Inr (inst_ready 2 ''ocid1'' ''Failed'' 1))"
    by (simp_all add: post_outcome events_def)
qed

theorem unnamed_states_are_final_witness:
  "outcome (Reconcile inst_ext demo_request) stopped_sys = Returned \<lparr>RequeueAfter = 30 * Second\<rparr> None \<and>
   events (Reconcile inst_ext demo_request) (final (Reconcile inst_ext demo_request) stopped_sys) =
     [KGet demo_request (Inr (inst_ready 2 ''ocid1'' ''Failed'' 1))]"
proof -
  from unnamed_states_are_final [OF stopped_run(1) CoreInstance.select_convs(2)] obtain x pre y a where
    run: "events (Reconcile inst_ext demo_request) stopped_sys = KGet demo_request (Inr x) # pre @
        [Oci (GetCall (Some ''ocid1'') (Inr \<lparr>InstId = Some ''ocid1'',
           InstLifecycleState = InstanceLifecycleStateOther ''STOPPED''\<rparr>)), KStatusUpdate y a]"
      "\<forall>z. a = Inr z \<and> OCIInstance.Status z = OCIInstance.Status y \<longrightarrow>
        outcome (Reconcile inst_ext demo_request) stopped_sys = Returned \<lparr>RequeueAfter = 30 * Second\<rparr> None"
      "\<forall>s' z. hd (events (Reconcile inst_ext demo_request) s') = KGet demo_request (Inr z) \<and>
        OCIInstance.Status z = OCIInstance.Status y \<and> Generation (InstMeta z) = Generation (InstMeta y) \<and>
        IsZero inst_ext (DeletionTimestamp (InstMeta z)) \<and> ContainsFinalizer inst_ext z ociInstanceFinalizer \<longrightarrow>
        events (Reconcile inst_ext demo_request) s' = [KGet demo_request (Inr z)] \<and>
        outcome (Reconcile inst_ext demo_request) s' = Returned zeroResult None"
    by (elim exE conjE) (rule that; assumption)
  have "y = inst_ready 1 ''ocid1'' ''Failed'' 1" "a = Inr (inst_ready 2 ''ocid1'' ''Failed'' 1)"
    using stopped_run(2) run(1) by simp_all
  moreover have same: "OCIInstance.Status (inst_ready 2 ''ocid1'' ''Failed'' 1) =
      OCIInstance.Status (inst_ready (Suc 0) ''ocid1'' ''Failed'' 1)" by (simp add: demo_inst_def)
  ultimately show ?thesis
    using run(2) run(3) [THEN spec, THEN spec, of "final (Reconcile inst_ext demo_request) stopped_sys"
        "inst_ready 2 ''ocid1'' ''Failed'' 1"] stopped_run(3)
    by (simp add: inst_demo_facts same)
qed

section \<open>What is written to the API server\<close>

lemma instance_write_frame:
  "InstMeta (InstanceTypes.set_phase p x) = InstMeta x"
  "InstMeta (InstanceTypes.SetObservedGeneration g x) = InstMeta x"
  "InstMeta (mark_failed instanceFailable r x) = InstMeta x"
  "OCIInstance.Spec (mark_failed instanceFailable r x) = OCIInstance.Spec x"
  "PrivateIP (OCIInstance.Status (mark_failed instanceFailable r x)) = PrivateIP (OCIInstance.Status x)"
  "PublicIP (OCIInstance.Status (mark_failed instanceFailable r x)) = PublicIP (OCIInstance.Status x)"
  using inst_failable.mark_failed_fields(4) [of r x] by simp_all

lemma instance_report_phase: "instance_phase_ok (fst (instance_report l))"
  by (cases l) (simp_all add: instance_phase_ok_constants [unfolded instance_phase_defs])

lemma failed_phase_ok:
  "instance_phase_ok (OCIInstanceStatus.Phase (OCIInstance.Status (mark_failed instanceFailable r x)))"
  using inst_failable.mark_failed_fields(1) [of r x] by simp

text \<open>C28: every status the reconciler writes is that of an object which the API server answered in the same
  run, with the same metadata (hence the resource version that makes the write conditional), the same
  spec and the same addresses, its phase is one that the CRD admits, and phase Running, Terminating or
  Terminated is only written together with an instance id.\<close>
theorem status_writes_are_framed:
  assumes "KStatusUpdate y a \<in> set (events (Reconcile ext req) s)"
  shows "\<exists>x. held (events (Reconcile ext req) s) x \<and> InstMeta y = InstMeta x \<and>
     OCIInstance.Spec y = OCIInstance.Spec x \<and>
     PrivateIP (OCIInstance.Status y) = PrivateIP (OCIInstance.Status x) \<and>
     PublicIP (OCIInstance.Status y) = PublicIP (OCIInstance.Status x) \<and>
     instance_phase_ok (OCIInstanceStatus.Phase (OCIInstance.Status y)) \<and>
     (OCIInstanceStatus.Phase (OCIInstance.Status y) \<in> {''Running'', ''Terminating'', ''Terminated''} \<longrightarrow>
        InstanceID (OCIInstance.Status y) \<noteq> '''')"
proof -
  from inst_reconciler.status_writes [OF assms] obtain x where
    x: "held (events (Reconcile ext req) s) x" and
    "y = d_start instanceDescriptor x \<or> (\<exists>i. y = d_record instanceDescriptor i x) \<or>
     (\<exists>r. y = d_fail instanceDescriptor r x) \<or>
     (\<exists>c. d_sync instanceDescriptor c x y) \<and> d_id instanceDescriptor x \<noteq> ''''" by blast
  then show ?thesis
    using inst_failable.mark_failed_fields(1) [of _ x]
    by (intro exI [of _ x] conjI)
      (auto simp: instance_write_frame instance_reported_def instance_report_phase failed_phase_ok
        instance_phase_ok_constants [unfolded instance_phase_defs] instance_phase_defs elim!: instance_synced.elims)
qed

theorem status_writes_are_framed_witness:
  "instance_phase_ok ''Running'' \<and>
   (\<exists>x. held (events (Reconcile inst_ext demo_request) polling_sys) x \<and>
     InstMeta (inst_ready 1 ''ocid1'' ''Running'' 1) = InstMeta x)"
  using status_writes_are_framed [of "inst_ready 1 ''ocid1'' ''Running'' 1" "Inr (inst_ready 2 ''ocid1'' ''Running'' 1)"
      inst_ext demo_request polling_sys]
  by (auto simp: polling_run inst_demo_facts)

section \<open>The launch request\<close>

text \<open>C29: OCPUs and memory written as decimal numbers below 2^24 reach the cloud exactly.\<close>
theorem shape_config_exact:
  assumes "OCPUs sp = Some (decimal n)" "MemoryInGBs sp = Some (decimal m)" "n < 2 ^ 24" "m < 2 ^ 24"
  shows "\<exists>o' g. ShapeConfig (launchDetails sp) = Some \<lparr>Ocpus = Some o', ShapeMemoryInGBs = Some g\<rparr> \<and>
    f32_is_nat o' n \<and> f32_is_nat g m"
  using ParseFloat32_decimal [OF assms(3)] ParseFloat32_decimal [OF assms(4)] assms(1,2)
  by (auto simp: launchDetails_def shapeConfig_def Let_def split: prod.splits)

lemma decimal_demo: "decimal 2 = ''2''" "decimal 16 = ''16''"
  by code_simp+

theorem shape_config_exact_witness:
  "\<exists>o' g. ShapeConfig (launchDetails demo_inst_spec) = Some \<lparr>Ocpus = Some o', ShapeMemoryInGBs = Some g\<rparr> \<and>
    f32_is_nat o' 2 \<and> f32_is_nat g 16"
  by (rule shape_config_exact) (simp_all add: demo_inst_spec_def decimal_demo)

text \<open>The spec with its OCPUs given as text.\<close>

definition spec_with_ocpus :: "string \<Rightarrow> OCIInstanceSpec" where
  "spec_with_ocpus t = demo_inst_spec\<lparr>OCPUs := Some t\<rparr>"

text \<open>C31: a text that is no number is not refused: the error of the parser is dropped, and the launch
  request asks for 0.\<close>
theorem malformed_ocpus_become_zero:
  assumes "OCPUs sp = Some t" "MemoryInGBs sp = Some u" "snd (ParseFloat32 t) = Some ErrSyntax"
  shows "map_option Ocpus (ShapeConfig (launchDetails sp)) = Some (Some (F32_Fin False 0 (-149)))"
  using assms ParseFloat32_syntax_error [OF assms(3)]
  by (auto simp: launchDetails_def shapeConfig_def f32_zero_def Let_def split: prod.splits)

theorem malformed_ocpus_become_zero_witness:
  "map_option Ocpus (ShapeConfig (launchDetails (spec_with_ocpus ''two''))) = Some (Some (F32_Fin False 0 (-149)))"
proof -
  have "snd (ParseFloat32 ''two'') = Some ErrSyntax" by code_simp
  with malformed_ocpus_become_zero [of "spec_with_ocpus ''two''" "''two''" "''16''"] show ?thesis
    by (simp add: spec_with_ocpus_def demo_inst_spec_def)
qed

end
