(* ===== verification/PolicyContract.thy ===== *)
theory PolicyContract
  imports Histories PolicyController
begin

text \<open>
  The security policy controller refines the contract of \<open>Protocol\<close>: its descriptor, one refinement lemma per
  handler, and the interpretation of the locale \<open>reconciler\<close> on its \<open>Reconcile\<close> (here \<open>ReconcilePolicy\<close>).
\<close>

section \<open>The descriptor\<close>

text \<open>How one OCI call of the virtual network client reads as a creation, a read or a destruction.\<close>

fun vcn_kind :: "VcnCall \<Rightarrow> oci_kind" where
  "vcn_kind (CreateListCall req (Inl err)) = Create (Inl err)"
| "vcn_kind (CreateListCall req (Inr i)) = Create (Inr (ListId i))"
| "vcn_kind (GetListCall i a) = Read i (answer_err a)"
| "vcn_kind (DeleteListCall i a) = Destroy i (answer_err a)"

text \<open>
  What the status is to become for each state of the cloud, written down without reference to the code: the
  phase, and whether the list has settled, so that the generation of the policy counts as observed.
\<close>

fun policy_report :: "SecurityListLifecycleState \<Rightarrow> string \<times> bool" where
  "policy_report SecurityListLifecycleStateAvailable = (''Active'', True)"
| "policy_report SecurityListLifecycleStateProvisioning = (''Creating'', False)"
| "policy_report SecurityListLifecycleStateTerminating = (''Deleting'', True)"
| "policy_report SecurityListLifecycleStateTerminated = (''Deleted'', True)"
| "policy_report (SecurityListLifecycleStateOther l) = (''Failed'', True)"

definition policy_reported :: "SecurityListLifecycleState \<Rightarrow> OCISecurityPolicy \<Rightarrow> OCISecurityPolicy" where
  "policy_reported l x = x\<lparr>OCISecurityPolicy.Status := (OCISecurityPolicy.Status x)\<lparr>OCISecurityPolicyStatus.Phase := fst (policy_report l),
     OCISecurityPolicyStatus.ObservedGeneration := (if snd (policy_report l) then Generation (PolMeta x)
       else OCISecurityPolicyStatus.ObservedGeneration (OCISecurityPolicy.Status x))\<rparr>\<rparr>"

text \<open>A list being provisioned is looked at again after 30 seconds, any other after 5 minutes.\<close>

definition policy_again :: "SecurityListLifecycleState \<Rightarrow> Duration" where
  "policy_again l = (if snd (policy_report l) then 5 * Minute else 30 * Second)"

fun policy_synced :: "VcnCall \<Rightarrow> OCISecurityPolicy \<Rightarrow> OCISecurityPolicy \<Rightarrow> bool" where
  "policy_synced (GetListCall i (Inr resp)) x y \<longleftrightarrow> y = policy_reported (ListLifecycleState resp) x"
| "policy_synced _ x y \<longleftrightarrow> False"

fun policy_come_back :: "VcnCall \<Rightarrow> OCISecurityPolicy \<Rightarrow> Duration" where
  "policy_come_back (GetListCall i (Inr resp)) z = policy_again (ListLifecycleState resp)"
| "policy_come_back _ z = 0"

definition policyDescriptor :: "(OCISecurityPolicy, VcnCall) Descriptor" where
  "policyDescriptor = \<lparr>
     d_finalizer = ociSecurityPolicyFinalizer,
     d_deleted_at = (\<lambda>x. DeletionTimestamp (PolMeta x)),
     d_gave_up = policy_failed_and_observed,
     d_id = (\<lambda>x. SecurityListID (OCISecurityPolicy.Status x)),
     d_kind = vcn_kind,
     d_request = (\<lambda>x c. \<exists>a. c = CreateListCall (createListDetails (OCISecurityPolicy.Spec x)) a),
     d_start = PolicyTypes.set_phase SecurityPolicyPhaseCreating,
     d_record = (\<lambda>i x. PolicyTypes.SetObservedGeneration (Generation (PolMeta x))
       (PolicyTypes.set_phase SecurityPolicyPhaseActive (set_security_list_id i x))),
     d_fail = mark_failed policyFailable,
     d_sync = policy_synced, d_again = policy_come_back\<rparr>"


lemma policyDescriptor_simps [simp]:
  "d_finalizer policyDescriptor = ociSecurityPolicyFinalizer"
  "d_deleted_at policyDescriptor = (\<lambda>x. DeletionTimestamp (PolMeta x))"
  "d_gave_up policyDescriptor = policy_failed_and_observed"
  "d_id policyDescriptor = (\<lambda>x. SecurityListID (OCISecurityPolicy.Status x))"
  "d_kind policyDescriptor = vcn_kind"
  "d_request policyDescriptor = (\<lambda>x c. \<exists>a. c = CreateListCall (createListDetails (OCISecurityPolicy.Spec x)) a)"
  "d_start policyDescriptor = PolicyTypes.set_phase SecurityPolicyPhaseCreating"
  "d_record policyDescriptor = (\<lambda>i x. PolicyTypes.SetObservedGeneration (Generation (PolMeta x))
       (PolicyTypes.set_phase SecurityPolicyPhaseActive (set_security_list_id i x)))"
  "d_fail policyDescriptor = mark_failed policyFailable"
  "d_sync policyDescriptor = policy_synced"
  "d_again policyDescriptor = policy_come_back"
  by (simp_all add: policyDescriptor_def)



lemma policy_report_code:
  "fst (policy_report l) = phase_of_list_lifecycle l"
  "snd (policy_report l) \<longleftrightarrow> l \<noteq> SecurityListLifecycleStateProvisioning"
  by (cases l; simp add: phase_of_list_lifecycle_def policy_phase_defs)+

text \<open>What the code writes is as reported.\<close>

lemma policy_reported_code:
  "policy_reported SecurityListLifecycleStateProvisioning x =
     PolicyTypes.set_phase (phase_of_list_lifecycle SecurityListLifecycleStateProvisioning) x"
  "l \<noteq> SecurityListLifecycleStateProvisioning \<Longrightarrow> policy_reported l x = PolicyTypes.SetObservedGeneration
     (PolicyTypes.GetGeneration (PolicyTypes.set_phase (phase_of_list_lifecycle l) x))
     (PolicyTypes.set_phase (phase_of_list_lifecycle l) x)"
  by (simp_all add: policy_reported_def policy_report_code PolicyTypes.GetGeneration_def PolicyTypes.set_phase_def
      PolicyTypes.SetObservedGeneration_def)
    (simp add: phase_of_list_lifecycle_def policy_phase_defs)?

section \<open>Refinement\<close>

lemmas pol_deletion_rules = deletion_rules [where D = policyDescriptor, simplified]
lemmas pol_failing_rules = failing_rules [where D = policyDescriptor, simplified]
lemmas pol_existing_rules = existing_rules [where D = policyDescriptor, simplified]
lemmas pol_new_rules = new_rules [where D = policyDescriptor, simplified]
lemmas pol_reconcile_rules = reconcile_rules [where D = policyDescriptor, simplified]

lemma policy_active_not_creating: "SecurityPolicyPhaseActive \<noteq> SecurityPolicyPhaseCreating"
  by (simp add: policy_phase_defs)

lemmas policy_durations = securityPolicyRequeueAfter_def Minute_def Second_def

lemma handlePolicyDeletion_refines:
  "emits (handlePolicyDeletion ext x) s (deletion_run policyDescriptor ext x)"
  unfolding emits_def handlePolicyDeletion_def newVirtualNetworkClient_def call_delete_list_def
  by (auto simp: call_defs Let_def securityPolicyRequeueAfter_def intro!: pol_deletion_rules
      split: prod.splits sum.splits option.splits)

lemma policy_setFailedStatus_refines:
  "emits (setFailedStatus policyFailable ext x reason) s (failing_run policyDescriptor ext x reason)"
  unfolding emits_def by (auto intro!: pol_failing_rules split: prod.splits sum.splits)

lemma reconcileExistingPolicy_refines:
  "emits (reconcileExistingPolicy ext x c) s (existing_run policyDescriptor x)"
  unfolding emits_def reconcileExistingPolicy_def call_get_list_def
  by (auto simp: call_defs Let_def policy_durations policy_reported_code policy_again_def policy_report_code
      intro!: pol_existing_rules
      split: prod.splits sum.splits)

lemma reconcileNewPolicy_refines:
  "emits (reconcileNewPolicy ext x c) s (new_run policyDescriptor ext x)"
  unfolding emits_def reconcileNewPolicy_def call_create_list_def
  by (auto simp: call_defs Let_def policy_durations PolicyTypes.GetGeneration_def policy_active_not_creating
      intro!: pol_new_rules
      split: prod.splits sum.splits option.splits)


lemma reconcileActivePolicy_refines:
  "emits (reconcileActivePolicy ext x) s (active_run policyDescriptor ext x)"
proof -
  have existing: "sdk_prefix pre \<Longrightarrow> calls s' = calls s @ pre \<Longrightarrow> SecurityListID (OCISecurityPolicy.Status x) \<noteq> '''' \<Longrightarrow>
      post (reconcileExistingPolicy ext x c)
        (\<lambda>out t. \<exists>evs. calls t = calls s @ evs \<and> active_run policyDescriptor ext x out evs) s'"
    for pre s' c
    by (rule emits_after [OF reconcileExistingPolicy_refines]) (auto intro: active_run.existing)
  have new: "sdk_prefix pre \<Longrightarrow> calls s' = calls s @ pre \<Longrightarrow> SecurityListID (OCISecurityPolicy.Status x) = '''' \<Longrightarrow>
      post (reconcileNewPolicy ext x c)
        (\<lambda>out t. \<exists>evs. calls t = calls s @ evs \<and> active_run policyDescriptor ext x out evs) s'"
    for pre s' c
    by (rule emits_after [OF reconcileNewPolicy_refines]) (auto intro: active_run.new)
  have failing: "calls s' = calls s @ [SdkClient (Some err)] \<Longrightarrow>
      post (setFailedStatus policyFailable ext x reason)
        (\<lambda>out t. \<exists>evs. calls t = calls s @ evs \<and> active_run policyDescriptor ext x out evs) s'"
    for s' err reason
    by (rule emits_after [OF policy_setFailedStatus_refines]) (auto intro: active_run.no_client)
  show ?thesis
    unfolding emits_def reconcileActivePolicy_def newVirtualNetworkClient_def
    by (auto simp: call_defs Let_def simp del: post_setFailedStatus
        intro: existing [of "[]"] existing [of "[SdkClient None]"] new [of "[]"] new [of "[SdkClient None]"]
          failing split: prod.splits sum.splits option.splits)
qed

lemma reconcilePolicyBody_refines:
  "emits (reconcilePolicyBody ext req) s (reconcile_run policyDescriptor ext req)"
proof -
  have deleting: "calls s' = calls s @ [KGet req (Inr x)] \<Longrightarrow>
      \<not> IsZero ext (DeletionTimestamp (PolMeta x)) \<Longrightarrow>
      post (handlePolicyDeletion ext x)
        (\<lambda>out t. \<exists>evs. calls t = calls s @ evs \<and> reconcile_run policyDescriptor ext req out evs) s'"
    for s' x
    by (rule emits_after [OF handlePolicyDeletion_refines]) (auto intro: pol_reconcile_rules)
  have active: "calls s' = calls s @ [KGet req (Inr x)] \<Longrightarrow>
      IsZero ext (DeletionTimestamp (PolMeta x)) \<Longrightarrow> ContainsFinalizer ext x ociSecurityPolicyFinalizer \<Longrightarrow>
      \<not> policy_failed_and_observed x \<Longrightarrow>
      post (reconcileActivePolicy ext x)
        (\<lambda>out t. \<exists>evs. calls t = calls s @ evs \<and> reconcile_run policyDescriptor ext req out evs) s'"
    for s' x
    by (rule emits_after [OF reconcileActivePolicy_refines]) (auto intro: pol_reconcile_rules)
  show ?thesis
    unfolding emits_def reconcilePolicyBody_def
    by (auto simp: call_defs intro: deleting active pol_reconcile_rules split: prod.splits sum.splits)
qed

lemma ReconcilePolicy_refines:
  "emits (ReconcilePolicy ext req) s (reconcile_run policyDescriptor ext req)"
  using reconcilePolicyBody_refines unfolding emits_def ReconcilePolicy_def by simp


section \<open>Bookkeeping\<close>

text \<open>The label under which each call of the virtual network client is measured.\<close>

fun vcn_labels :: "VcnCall \<Rightarrow> string \<times> string \<times> string" where
  "vcn_labels (CreateListCall req a) = (''ocisecuritypolicy'', ''create_security_list'', answer_label a)"
| "vcn_labels (GetListCall i a) = (''ocisecuritypolicy'', ''get_security_list'', answer_label a)"
| "vcn_labels (DeleteListCall i a) = (''ocisecuritypolicy'', ''delete_security_list'', answer_label a)"

lemma handlePolicyDeletion_kept: "post (handlePolicyDeletion ext x) (\<lambda>_ t. kept vcn_labels s t) s"
  unfolding handlePolicyDeletion_def newVirtualNetworkClient_def call_delete_list_def kept_def
  by (auto simp: call_defs Let_def split: prod.splits sum.splits option.splits)

lemma policy_setFailedStatus_kept:
  "post (setFailedStatus policyFailable ext x reason) (\<lambda>_ t. kept vcn_labels s t) s"
  unfolding kept_def by (auto split: prod.splits sum.splits)

lemma reconcileExistingPolicy_kept: "post (reconcileExistingPolicy ext x c) (\<lambda>_ t. kept vcn_labels s t) s"
  unfolding reconcileExistingPolicy_def call_get_list_def kept_def
  by (auto simp: call_defs Let_def split: prod.splits sum.splits)

lemma reconcileNewPolicy_kept: "post (reconcileNewPolicy ext x c) (\<lambda>_ t. kept vcn_labels s t) s"
  unfolding reconcileNewPolicy_def call_create_list_def kept_def
  by (auto simp: call_defs Let_def split: prod.splits sum.splits option.splits)

lemma reconcileActivePolicy_kept: "post (reconcileActivePolicy ext x) (\<lambda>_ t. kept vcn_labels s t) s"
  unfolding reconcileActivePolicy_def newVirtualNetworkClient_def
  by (auto simp: call_defs Let_def simp del: post_setFailedStatus
      intro!: kept_after [OF reconcileExistingPolicy_kept] kept_after [OF reconcileNewPolicy_kept]
        kept_after [OF policy_setFailedStatus_kept]
      split: prod.splits sum.splits option.splits) (auto simp: kept_def)

lemma reconcilePolicyBody_kept: "post (reconcilePolicyBody ext req) (\<lambda>_ t. kept vcn_labels s t) s"
  unfolding reconcilePolicyBody_def
  by (auto simp: call_defs intro!: kept_after [OF handlePolicyDeletion_kept] kept_after [OF reconcileActivePolicy_kept]
      split: prod.splits sum.splits) (auto simp: kept_def)

interpretation pol_reconciler: reconciler policyDescriptor ReconcilePolicy "''ocisecuritypolicy''" vcn_labels
proof
  fix ext req and s :: "'w PolicySys"
  show "emits (ReconcilePolicy ext req) s (reconcile_run policyDescriptor ext req)"
    by (rule ReconcilePolicy_refines)
  show "post (ReconcilePolicy ext req) (\<lambda>out t. \<exists>u. kept vcn_labels s u \<and>
      t = u\<lparr>reconcileTotal := (reconcileTotal s)((''ocisecuritypolicy'', outcome_label out) :=
        Suc (reconcileTotal s (''ocisecuritypolicy'', outcome_label out)))\<rparr>) s"
    unfolding ReconcilePolicy_def by (rule kept_then_counted [OF reconcilePolicyBody_kept])
qed


text \<open>What the status writes do to resource version and remote id.\<close>

interpretation pol_tracked: tracked_reconciler policyDescriptor ReconcilePolicy "''ocisecuritypolicy''" vcn_labels
  "\<lambda>x. ResourceVersion (PolMeta x)"
proof
  show "ResourceVersion (PolMeta (d_start policyDescriptor x)) = ResourceVersion (PolMeta x)" for x by simp
  show "d_id policyDescriptor (d_start policyDescriptor x) = d_id policyDescriptor x" for x by simp
  show "d_id policyDescriptor (d_record policyDescriptor i x) = i" for i x by simp
  show "ResourceVersion (PolMeta (d_fail policyDescriptor reason x)) = ResourceVersion (PolMeta x)" for reason x
    using pol_failable.mark_failed_fields(4) [of reason x] by simp
  show "d_id policyDescriptor (d_fail policyDescriptor reason x) = d_id policyDescriptor x" for reason x
    using pol_failable.mark_failed_fields(4) [of reason x] by simp
  show "ResourceVersion (PolMeta y) = ResourceVersion (PolMeta x) \<and> d_id policyDescriptor y = d_id policyDescriptor x"
    if "d_sync policyDescriptor c x y" for c x y
    using that by (cases "(c, x, y)" rule: policy_synced.cases) (auto simp: policy_reported_def)
qed

end
