(* ===== verification/PolicyProperties.thy ===== *)
theory PolicyProperties
  imports PolicyContract Fixtures
begin

text \<open>
  What one run, and any sequence of runs, of the security policy reconciler does to the cloud and to the API
  server. The facts come from the interpretations \<open>pol_reconciler\<close> and \<open>pol_tracked\<close>; each is written
  out over the model. A run is observed by its outcome and by the events it adds to the history.
\<close>

abbreviation pol_version :: "OCISecurityPolicy \<Rightarrow> string" where
  "pol_version x \<equiv> ResourceVersion (PolMeta x)"

abbreviation pol_id :: "OCISecurityPolicy \<Rightarrow> string" where
  "pol_id x \<equiv> SecurityListID (OCISecurityPolicy.Status x)"

text \<open>The creations that made a security list with an id.\<close>

fun list_created :: "VcnCall \<Rightarrow> bool" where
  "list_created (CreateListCall d (Inr i)) \<longleftrightarrow> ListId i \<noteq> None \<and> ListId i \<noteq> Some ''''"
| "list_created _ \<longleftrightarrow> False"

definition list_creations :: "(OCISecurityPolicy, VcnCall) Event list \<Rightarrow> nat" where
  "list_creations evs = length (filter list_created (oci_calls evs))"

lemma made_list_created: "made (vcn_kind c) = list_created c"
  by (cases c rule: list_created.cases) (auto elim!: made.elims)

lemma policy_result_of: "RequeueAfter res = d \<longleftrightarrow> res = \<lparr>RequeueAfter = d\<rparr>"
  by (cases res) simp

lemma creations_list_creations: "creations policyDescriptor evs = list_creations evs"
  by (simp add: creations_def list_creations_def made_list_created)

section \<open>Creation\<close>

text \<open>C15: the reconciler creates a security list only for a policy that it has just read, that is not being
  deleted, holds the finalizer, is not given up on and records no security list, only after the API
  server has accepted its status write of phase Creating, with the request that the answered spec asks for,
  and it makes no other call to the cloud in that run.\<close>
theorem create_list_guarded:
  assumes "Oci (CreateListCall d r) \<in> set (events (ReconcilePolicy ext req) s)"
  shows "\<exists>x pre y rest. sdk_prefix pre \<and> oci_calls rest = [] \<and>
     events (ReconcilePolicy ext req) s = KGet req (Inr x) # pre @
       [KStatusUpdate (PolicyTypes.set_phase SecurityPolicyPhaseCreating x) (Inr y), Oci (CreateListCall d r)] @ rest \<and>
     SecurityListID (OCISecurityPolicy.Status x) = '''' \<and> d = createListDetails (OCISecurityPolicy.Spec y) \<and>
     IsZero ext (DeletionTimestamp (PolMeta x)) \<and> ContainsFinalizer ext x ociSecurityPolicyFinalizer \<and>
     \<not> policy_failed_and_observed x"
proof -
  obtain k where "d_kind policyDescriptor (CreateListCall d r) = Create k" by (cases r) simp_all
  from pol_reconciler.create_guarded [OF assms this] show ?thesis by fastforce
qed

theorem create_list_guarded_witness:
  "\<exists>x pre y rest. events (ReconcilePolicy pol_ext demo_request) creating_sys = KGet demo_request (Inr x) # pre @
     [KStatusUpdate (PolicyTypes.set_phase SecurityPolicyPhaseCreating x) (Inr y),
      Oci (CreateListCall (createListDetails demo_pol_spec) (Inr created_demo))] @ rest \<and>
     createListDetails demo_pol_spec = createListDetails (OCISecurityPolicy.Spec y)"
  using create_list_guarded [of "createListDetails demo_pol_spec" "Inr created_demo" pol_ext demo_request creating_sys]
  by (auto simp: creating_run)

text \<open>Over any number of reconciles of one policy, whatever stale reads and foreign writes an API
  server with optimistic concurrency lets happen in between, each security list created beyond the
  first is paid for by a status write of the reconciler that failed.\<close>
theorem list_created_at_most_once:
  assumes "served pol_version pol_id vs (events (reconciles (ReconcilePolicy ext req) n) s) vs'"
    and "proper pol_version vs"
  shows "list_creations (events (reconciles (ReconcilePolicy ext req) n) s) \<le>
    Suc (failed_writes (events (reconciles (ReconcilePolicy ext req) n) s))"
  using pol_tracked.created_once [of vs ext req n s vs'] assms by (simp add: creations_list_creations)

lemma one_policy_run_events [simp]: "events (reconciles (ReconcilePolicy ext req) (Suc 0)) s = events (ReconcilePolicy ext req) s"
  by (simp add: pol_tracked.many_events events_def [of "reconciles m 0" for m])

theorem list_created_at_most_once_witness:
  "list_creations (events (reconciles (ReconcilePolicy pol_ext demo_request) (Suc 0)) creating_sys) = 1 \<and> (1::nat) \<le>
     Suc (failed_writes (events (reconciles (ReconcilePolicy pol_ext demo_request) (Suc 0)) creating_sys))"
proof -
  have "served pol_version pol_id [pol_ready 1 '''' '''' 0]
      (events (reconciles (ReconcilePolicy pol_ext demo_request) (Suc 0)) creating_sys)
      [pol_ready 1 '''' '''' 0, pol_ready 2 '''' ''Creating'' 0, pol_ready 3 ''ocid1'' ''Active'' 1]"
    unfolding one_policy_run_events conjunct2 [OF creating_run]
    by (intro served_intros served_done [THEN back_subst [where P = "served _ _ _ _"]])
      (simp_all add: proper_def demo_pol_def demo_meta_def version_text_def eval_nat_numeral)
  from list_created_at_most_once [OF this] show ?thesis
    by (simp add: proper_def creating_run list_creations_def failed_writes_def)
qed

text \<open>Once the API server holds a security list id for an object, no sequence of reconciles of it clears or replaces
  that id, whatever stale reads and foreign writes happen in between.\<close>
theorem recorded_list_id_is_permanent:
  assumes "served pol_version pol_id vs (events (reconciles (ReconcilePolicy ext req) n) s) vs'"
    and "proper pol_version vs" "pol_id (last vs) \<noteq> ''''"
  shows "pol_id (last vs') = pol_id (last vs)"
  using pol_tracked.many_keep_id [of vs ext req n s vs'] assms by simp

theorem recorded_list_id_is_permanent_witness:
  "served pol_version pol_id [pol_ready 1 ''ocid1'' '''' 0] (events (reconciles (ReconcilePolicy pol_ext demo_request) (Suc 0)) pol_polling_sys)
      [pol_ready 1 ''ocid1'' '''' 0, pol_ready 2 ''ocid1'' ''Active'' 1] \<and>
   pol_id (pol_ready 2 ''ocid1'' ''Active'' 1) = pol_id (pol_ready 1 ''ocid1'' '''' 0)"
proof -
  have "served pol_version pol_id [pol_ready 1 ''ocid1'' '''' 0] (events (reconciles (ReconcilePolicy pol_ext demo_request) (Suc 0)) pol_polling_sys)
      [pol_ready 1 ''ocid1'' '''' 0, pol_ready 2 ''ocid1'' ''Active'' 1]"
    unfolding one_policy_run_events conjunct2 [OF pol_polling_run]
    by (intro served_intros served_done [THEN back_subst [where P = "served _ _ _ _"]])
      (simp_all add: proper_def demo_pol_def demo_meta_def version_text_def eval_nat_numeral)
  with recorded_list_id_is_permanent [OF this] show ?thesis by (simp add: proper_def pol_demo_facts)
qed

text \<open>When the cloud answers a creation with an id, the run ends with the status write that records this
  id, phase Active (whatever lifecycle state the cloud answered) and the generation of the answered object; the run returns an error exactly when
  that write fails, and otherwise asks to be requeued.\<close>
theorem list_created_id_recorded:
  assumes "Oci (CreateListCall d (Inr inst)) \<in> set (events (ReconcilePolicy ext req) s)" "ListId inst = Some i"
  shows "\<exists>y a res. last (events (ReconcilePolicy ext req) s) =
      KStatusUpdate (PolicyTypes.SetObservedGeneration (Generation (PolMeta y))
        (PolicyTypes.set_phase SecurityPolicyPhaseActive (set_security_list_id i y))) a \<and>
    d = createListDetails (OCISecurityPolicy.Spec y) \<and> 0 < RequeueAfter res \<and>
    outcome (ReconcilePolicy ext req) s =
      (case a of Inl err \<Rightarrow> Returned zeroResult (Some err) | Inr z \<Rightarrow> Returned res None)"
proof -
  have "d_kind policyDescriptor (CreateListCall d (Inr inst)) = Create (Inr (Some i))" using assms(2) by simp
  from pol_reconciler.created_id [OF assms(1) this] show ?thesis by (auto simp: written_case)
qed

theorem list_created_id_recorded_witness:
  "\<exists>y a. last (events (ReconcilePolicy pol_ext demo_request) creating_sys) =
      KStatusUpdate (PolicyTypes.SetObservedGeneration (Generation (PolMeta y))
        (PolicyTypes.set_phase SecurityPolicyPhaseActive (set_security_list_id ''ocid1'' y))) a"
  using list_created_id_recorded [of "createListDetails demo_pol_spec" created_demo pol_ext demo_request
      creating_sys "''ocid1''"]
  by (auto simp: creating_run)

section \<open>Deletion\<close>

text \<open>The reconciler deletes a security list only for a policy that it has just read, that is being
  deleted and still holds the finalizer, and only the list that its status records.\<close>
theorem delete_list_guarded:
  assumes "Oci (DeleteListCall i r) \<in> set (events (ReconcilePolicy ext req) s)"
  shows "\<exists>x evs. events (ReconcilePolicy ext req) s = KGet req (Inr x) # evs \<and>
     i = Some (SecurityListID (OCISecurityPolicy.Status x)) \<and> SecurityListID (OCISecurityPolicy.Status x) \<noteq> '''' \<and>
     \<not> IsZero ext (DeletionTimestamp (PolMeta x)) \<and> ContainsFinalizer ext x ociSecurityPolicyFinalizer"
proof -
  have "d_kind policyDescriptor (DeleteListCall i r) = Destroy i (answer_err r)" by simp
  from pol_reconciler.destroy_guarded [OF assms this] show ?thesis by simp
qed

theorem delete_list_guarded_witness:
  "\<exists>x evs. events (ReconcilePolicy pol_ext demo_request) pol_leaving_sys = KGet demo_request (Inr x) # evs \<and>
     ''ocid1'' = SecurityListID (OCISecurityPolicy.Status x)"
  using delete_list_guarded [of "Some ''ocid1''" "Inr ()" pol_ext demo_request pol_leaving_sys]
  by (auto simp: pol_leaving_run)

lemma vcn_destroyed: "vcn_kind c = Destroy (Some i) None \<longleftrightarrow> c = DeleteListCall (Some i) (Inr ())"
  by (cases c rule: vcn_kind.cases) (auto elim: answer_err.elims)

text \<open>Every write of the whole policy (not of its status) either adds the finalizer to a policy that
  lacks it and is not being deleted, or releases the finalizer of a policy being deleted that records no
  list, or whose recorded list the cloud has agreed to delete in the same run.\<close>
theorem list_finalizer_released_after_delete:
  assumes "KUpdate y a \<in> set (events (ReconcilePolicy ext req) s)"
  shows "\<exists>x. hd (events (ReconcilePolicy ext req) s) = KGet req (Inr x) \<and>
     (IsZero ext (DeletionTimestamp (PolMeta x)) \<and> \<not> ContainsFinalizer ext x ociSecurityPolicyFinalizer \<and>
        y = AddFinalizer ext x ociSecurityPolicyFinalizer \<or>
      \<not> IsZero ext (DeletionTimestamp (PolMeta x)) \<and> ContainsFinalizer ext x ociSecurityPolicyFinalizer \<and>
        y = RemoveFinalizer ext x ociSecurityPolicyFinalizer \<and>
        (SecurityListID (OCISecurityPolicy.Status x) = '''' \<or>
         Oci (DeleteListCall (Some (SecurityListID (OCISecurityPolicy.Status x))) (Inr ()))
           \<in> set (events (ReconcilePolicy ext req) s)))"
  using pol_reconciler.updates_guarded [OF assms] by (auto simp: vcn_destroyed)

section \<open>Failure\<close>

text \<open>Once a policy carries the status that \<open>setFailedStatus\<close> writes, and as long as its generation
  is the one that was marked, a reconcile of it reads it and does nothing else: no call to the cloud, no
  write, no requeue, no error.\<close>
theorem failed_policy_until_spec_changes:
  assumes "hd (events (ReconcilePolicy ext req) s) = KGet req (Inr x)"
    and "OCISecurityPolicy.Status x = OCISecurityPolicy.Status (mark_failed policyFailable reason y)"
    and "Generation (PolMeta x) = Generation (PolMeta y)"
    and "IsZero ext (DeletionTimestamp (PolMeta x))" "ContainsFinalizer ext x ociSecurityPolicyFinalizer"
  shows "events (ReconcilePolicy ext req) s = [KGet req (Inr x)] \<and>
    outcome (ReconcilePolicy ext req) s = Returned zeroResult None"
proof -
  have "policy_failed_and_observed x"
    using assms(2,3) pol_failable.mark_failed_fields(1,3) [of reason y]
    by (simp add: policy_failed_and_observed_def policyFailable_def PolicyTypes.GetGeneration_def)
  then show ?thesis using pol_reconciler.given_up [of ext req s x] assms by simp
qed

theorem failed_policy_until_spec_changes_witness:
  "events (ReconcilePolicy pol_ext demo_request) pol_given_up_sys = [KGet demo_request (Inr (pol_ready 1 '''' ''Failed'' 1))]"
proof -
  have "OCISecurityPolicy.Status (pol_ready 1 '''' ''Failed'' 1) =
      OCISecurityPolicy.Status (mark_failed policyFailable '''' (pol_ready 1 '''' '''' 0))"
    by (simp add: demo_pol_def demo_meta_def mark_failed_def policyFailable_def
        PolicyTypes.GetGeneration_def policy_phase_defs)
  with failed_policy_until_spec_changes [of pol_ext demo_request pol_given_up_sys "pol_ready 1 '''' ''Failed'' 1" "''''"
      "pol_ready 1 '''' '''' 0"]
  show ?thesis by (simp add: pol_given_up_run pol_demo_facts)
qed

section \<open>The end of a run\<close>

text \<open>When a run of the policy reconciler returns no error and asks for no requeue, the reason is on record: the object is gone
  from the API server, it is being deleted without the finalizer or is given up on and nothing was done,
  its finalizers were written, or its failure was written to its status.\<close>
theorem quiet_policy_runs_are_settled:
  assumes "outcome (ReconcilePolicy ext req) s = Returned res None" "RequeueAfter res = 0"
  shows "(\<exists>err. events (ReconcilePolicy ext req) s = [KGet req (Inl err)] \<and> IsNotFound ext err) \<or>
    (\<exists>x. hd (events (ReconcilePolicy ext req) s) = KGet req (Inr x) \<and>
       (events (ReconcilePolicy ext req) s = [KGet req (Inr x)] \<and>
          (policy_failed_and_observed x \<or> \<not> ContainsFinalizer ext x ociSecurityPolicyFinalizer) \<or>
        (\<exists>y z. last (events (ReconcilePolicy ext req) s) = KUpdate y (Inr z)) \<or>
        (\<exists>reason y z. last (events (ReconcilePolicy ext req) s) =
           KStatusUpdate (mark_failed policyFailable reason y) (Inr z))))"
  using pol_reconciler.quiet [OF assms] by simp

theorem quiet_policy_runs_are_settled_witness:
  "outcome (ReconcilePolicy pol_ext demo_request) pol_given_up_sys = Returned zeroResult None \<and>
   (\<exists>x. hd (events (ReconcilePolicy pol_ext demo_request) pol_given_up_sys) = KGet demo_request (Inr x))"
  using quiet_policy_runs_are_settled [of pol_ext demo_request pol_given_up_sys zeroResult]
  by (auto simp: pol_given_up_run zeroResult_def)

text \<open>Every run of the policy reconciler counts itself once, under its outcome (a run that panics counts as a success, since
  the deferred function then sees a nil error), makes at most one call to the cloud, and observes exactly
  the calls it made, each once, under the labels of that call and of its result.\<close>
theorem every_policy_run_is_counted:
  "\<exists>obs. calls (final (ReconcilePolicy ext req) s) = calls s @ events (ReconcilePolicy ext req) s \<and>
     length (oci_calls (events (ReconcilePolicy ext req) s)) \<le> 1 \<and>
     ociAPICallDuration (final (ReconcilePolicy ext req) s) = ociAPICallDuration s @ obs \<and>
     map fst obs = map vcn_labels (oci_calls (events (ReconcilePolicy ext req) s)) \<and>
     reconcileTotal (final (ReconcilePolicy ext req) s) = (reconcileTotal s)
       ((''ocisecuritypolicy'', outcome_label (outcome (ReconcilePolicy ext req) s)) :=
         Suc (reconcileTotal s (''ocisecuritypolicy'', outcome_label (outcome (ReconcilePolicy ext req) s))))"
  by (rule pol_reconciler.counted)

text \<open>The policy reconciler refines the protocol: the calls of a run, their order, their arguments and the
  value returned are those of a run that the rules of \<open>reconcile_run\<close> permit for policies.\<close>
theorem policy_reconcile_refines_protocol:
  "reconcile_run policyDescriptor ext req (outcome (ReconcilePolicy ext req) s) (events (ReconcilePolicy ext req) s)"
  by (rule pol_reconciler.run_of)

section \<open>What is written to the API server\<close>

lemma policy_write_frame:
  "PolMeta (PolicyTypes.set_phase p x) = PolMeta x"
  "PolMeta (PolicyTypes.SetObservedGeneration g x) = PolMeta x"
  "PolMeta (mark_failed policyFailable r x) = PolMeta x"
  "OCISecurityPolicy.Spec (mark_failed policyFailable r x) = OCISecurityPolicy.Spec x"
  "OCISecurityPolicyStatus.Conditions (OCISecurityPolicy.Status (mark_failed policyFailable r x)) =
     OCISecurityPolicyStatus.Conditions (OCISecurityPolicy.Status x)"
  using pol_failable.mark_failed_fields(4) [of r x] by simp_all

lemma policy_report_phase: "policy_phase_ok (fst (policy_report l))"
  by (cases l) (simp_all add: policy_phase_ok_constants [unfolded policy_phase_defs])

lemma failed_policy_phase_ok:
  "policy_phase_ok (OCISecurityPolicyStatus.Phase (OCISecurityPolicy.Status (mark_failed policyFailable r x)))"
  using pol_failable.mark_failed_fields(1) [of r x] by simp

text \<open>Every status the policy reconciler writes is that of a policy which the API server answered in the same
  run, with the same metadata (hence the resource version that makes the write conditional), the same
  spec and the same conditions, its phase is one that the CRD admits, and phase Deleting or Deleted is
  only written together with the id of a list.\<close>
theorem policy_status_writes_are_framed:
  assumes "KStatusUpdate y a \<in> set (events (ReconcilePolicy ext req) s)"
  shows "\<exists>x. held (events (ReconcilePolicy ext req) s) x \<and> PolMeta y = PolMeta x \<and>
     OCISecurityPolicy.Spec y = OCISecurityPolicy.Spec x \<and>
     OCISecurityPolicyStatus.Conditions (OCISecurityPolicy.Status y) =
       OCISecurityPolicyStatus.Conditions (OCISecurityPolicy.Status x) \<and>
     policy_phase_ok (OCISecurityPolicyStatus.Phase (OCISecurityPolicy.Status y)) \<and>
     (OCISecurityPolicyStatus.Phase (OCISecurityPolicy.Status y) \<in> {''Deleting'', ''Deleted''} \<longrightarrow>
        SecurityListID (OCISecurityPolicy.Status y) \<noteq> '''')"
proof -
  from pol_reconciler.status_writes [OF assms] obtain x where
    x: "held (events (ReconcilePolicy ext req) s) x" and
    "y = d_start policyDescriptor x \<or> (\<exists>i. y = d_record policyDescriptor i x) \<or>
     (\<exists>r. y = d_fail policyDescriptor r x) \<or>
     (\<exists>c. d_sync policyDescriptor c x y) \<and> d_id policyDescriptor x \<noteq> ''''" by blast
  then show ?thesis
    using pol_failable.mark_failed_fields(1) [of _ x]
    by (intro exI [of _ x] conjI)
      (auto simp: policy_write_frame policy_reported_def policy_report_phase failed_policy_phase_ok
        policy_phase_ok_constants [unfolded policy_phase_defs] policy_phase_defs elim!: policy_synced.elims)
qed

theorem policy_status_writes_are_framed_witness:
  "policy_phase_ok ''Active'' \<and>
   (\<exists>x. held (events (ReconcilePolicy pol_ext demo_request) pol_polling_sys) x \<and>
     PolMeta (pol_ready 1 ''ocid1'' ''Active'' 1) = PolMeta x)"
  using policy_status_writes_are_framed [of "pol_ready 1 ''ocid1'' ''Active'' 1" "Inr (pol_ready 2 ''ocid1'' ''Active'' 1)"
      pol_ext demo_request pol_polling_sys]
  by (auto simp: pol_polling_run pol_demo_facts)

section \<open>Syncing an existing list\<close>

text \<open>A run that polls a list has just read a policy that is not being deleted, holds the finalizer, is not given
  up on and records the list it asks for, and it does no more than this: if the poll fails, it returns the
  error and asks for a retry in 30 seconds, without touching the status. Otherwise it writes the status once
  and ends, with the phase and the observed generation that the table \<open>policy_report\<close> lists for the answered
  state; if that write fails it returns the error, else it comes back after 30 seconds for a list being
  provisioned and after 5 minutes for any other.\<close>
theorem existing_list_synced:
  assumes "Oci (GetListCall i r) \<in> set (events (ReconcilePolicy ext req) s)"
  shows "\<exists>x pre. sdk_prefix pre \<and> i = Some (pol_id x) \<and> pol_id x \<noteq> '''' \<and>
     IsZero ext (DeletionTimestamp (PolMeta x)) \<and> ContainsFinalizer ext x ociSecurityPolicyFinalizer \<and>
     \<not> policy_failed_and_observed x \<and>
     (case r of
        Inl err \<Rightarrow> events (ReconcilePolicy ext req) s = KGet req (Inr x) # pre @ [Oci (GetListCall i r)] \<and>
          outcome (ReconcilePolicy ext req) s = Returned \<lparr>RequeueAfter = 30 * Second\<rparr> (Some err)
      | Inr resp \<Rightarrow> \<exists>a. events (ReconcilePolicy ext req) s = KGet req (Inr x) # pre @
            [Oci (GetListCall i r), KStatusUpdate (policy_reported (ListLifecycleState resp) x) a] \<and>
          outcome (ReconcilePolicy ext req) s = (case a of
            Inl err \<Rightarrow> Returned zeroResult (Some err)
          | Inr z \<Rightarrow> Returned \<lparr>RequeueAfter = policy_again (ListLifecycleState resp)\<rparr> None))"
proof -
  have "d_kind policyDescriptor (GetListCall i r) = Read i (answer_err r)" by simp
  note read = pol_reconciler.remote_read [OF assms this]
  show ?thesis
  proof (cases r)
    case (Inl err)
    with read show ?thesis by (auto simp: policy_result_of)
  next
    case (Inr resp)
    with read obtain x pre a where
      "sdk_prefix pre" "i = Some (pol_id x)" "pol_id x \<noteq> ''''" "IsZero ext (DeletionTimestamp (PolMeta x))"
      "ContainsFinalizer ext x ociSecurityPolicyFinalizer" "\<not> policy_failed_and_observed x"
      "events (ReconcilePolicy ext req) s = KGet req (Inr x) # pre @
         [Oci (GetListCall i r), KStatusUpdate (policy_reported (ListLifecycleState resp) x) a]"
      "case a of Inl err \<Rightarrow> outcome (ReconcilePolicy ext req) s = Returned zeroResult (Some err)
       | Inr z \<Rightarrow> \<exists>res. RequeueAfter res = policy_again (ListLifecycleState resp) \<and>
           outcome (ReconcilePolicy ext req) s = Returned res None"
      by (auto cong: sum.case_cong)
    then show ?thesis
      by (intro exI [of _ x] exI [of _ pre]) (auto simp: Inr policy_result_of split: sum.splits)
  qed
qed

text \<open>C32: the rules of a policy that already records a security list never reach the cloud: a run that reads
  such a policy sends the cloud nothing but that list's id, to read it or to delete it. A changed spec is
  therefore not applied; and yet the run that reads the list in any state but PROVISIONING ends with a status
  write that names the generation of the policy it read as observed and changes nothing else but the phase, to
  Active if the list is available.\<close>
theorem recorded_list_never_updated:
  assumes "hd (events (ReconcilePolicy ext req) s) = KGet req (Inr x)"
    and "SecurityListID (OCISecurityPolicy.Status x) \<noteq> ''''"
  shows "(\<forall>c. Oci c \<in> set (events (ReconcilePolicy ext req) s) \<longrightarrow>
      (\<exists>a. c = GetListCall (Some (SecurityListID (OCISecurityPolicy.Status x))) a) \<or>
      (\<exists>a. c = DeleteListCall (Some (SecurityListID (OCISecurityPolicy.Status x))) a)) \<and>
    (\<forall>i resp. Oci (GetListCall i (Inr resp)) \<in> set (events (ReconcilePolicy ext req) s) \<and>
        ListLifecycleState resp \<noteq> SecurityListLifecycleStateProvisioning \<longrightarrow>
      (\<exists>a p. last (events (ReconcilePolicy ext req) s) = KStatusUpdate
         (x\<lparr>OCISecurityPolicy.Status := (OCISecurityPolicy.Status x)\<lparr>OCISecurityPolicyStatus.Phase := p,
            OCISecurityPolicyStatus.ObservedGeneration := Generation (PolMeta x)\<rparr>\<rparr>) a \<and>
         (ListLifecycleState resp = SecurityListLifecycleStateAvailable \<longrightarrow> p = ''Active'')))"
proof (intro conjI allI impI)
  show "(\<exists>a. c = GetListCall (Some (SecurityListID (OCISecurityPolicy.Status x))) a) \<or>
      (\<exists>a. c = DeleteListCall (Some (SecurityListID (OCISecurityPolicy.Status x))) a)"
    if "Oci c \<in> set (events (ReconcilePolicy ext req) s)" for c
    using pol_reconciler.existing_calls [of ext req s x c] assms that by (cases c rule: vcn_kind.cases) auto
next
  fix i resp
  assume poll: "Oci (GetListCall i (Inr resp)) \<in> set (events (ReconcilePolicy ext req) s) \<and>
    ListLifecycleState resp \<noteq> SecurityListLifecycleStateProvisioning"
  have "d_kind policyDescriptor (GetListCall i (Inr resp)) = Read i None" by simp
  from pol_reconciler.remote_read [OF conjunct1 [OF poll] this] obtain x' pre y a where
    run: "d_sync policyDescriptor (GetListCall i (Inr resp)) x' y"
      "events (ReconcilePolicy ext req) s = KGet req (Inr x') # pre @ [Oci (GetListCall i (Inr resp)), KStatusUpdate y a]"
    by force
  have "snd (policy_report (ListLifecycleState resp))" using poll by (simp add: policy_report_code)
  then show "\<exists>a p. last (events (ReconcilePolicy ext req) s) = KStatusUpdate
      (x\<lparr>OCISecurityPolicy.Status := (OCISecurityPolicy.Status x)\<lparr>OCISecurityPolicyStatus.Phase := p,
         OCISecurityPolicyStatus.ObservedGeneration := Generation (PolMeta x)\<rparr>\<rparr>) a \<and>
      (ListLifecycleState resp = SecurityListLifecycleStateAvailable \<longrightarrow> p = ''Active'')"
    using run assms(1)
    by (intro exI [of _ a] exI [of _ "fst (policy_report (ListLifecycleState resp))"]) (simp add: policy_reported_def)
qed

theorem recorded_list_never_updated_witness:
  "\<exists>a. last (events (ReconcilePolicy pol_ext demo_request) pol_polling_sys) = KStatusUpdate
     ((pol_ready 1 ''ocid1'' '''' 0)\<lparr>OCISecurityPolicy.Status := (OCISecurityPolicy.Status (pol_ready 1 ''ocid1'' '''' 0))
        \<lparr>OCISecurityPolicyStatus.Phase := ''Active'', OCISecurityPolicyStatus.ObservedGeneration := 1\<rparr>\<rparr>) a"
  using recorded_list_never_updated [of pol_ext demo_request pol_polling_sys "pol_ready 1 ''ocid1'' '''' 0"]
  by (auto simp: pol_polling_run pol_demo_facts)

section \<open>The rules that are sent\<close>

text \<open>C21: the creation request holds every rule of the spec exactly once and in the order of the spec: the
  rules of direction INGRESS as ingress rules, all others as egress rules. A side with no rule is left nil.
  The compartment, the VCN, the name and the tags are those of the spec.\<close>
theorem rules_are_partitioned:
  "elems (IngressSecurityRules (createListDetails sp)) = map ingressRule (filter is_ingress (Rules sp)) \<and>
   elems (EgressSecurityRules (createListDetails sp)) =
     map egressRule (filter (\<lambda>r. \<not> is_ingress r) (Rules sp)) \<and>
   (IngressSecurityRules (createListDetails sp) = None \<longleftrightarrow> filter is_ingress (Rules sp) = []) \<and>
   (EgressSecurityRules (createListDetails sp) = None \<longleftrightarrow> filter (\<lambda>r. \<not> is_ingress r) (Rules sp) = []) \<and>
   length (elems (IngressSecurityRules (createListDetails sp))) +
     length (elems (EgressSecurityRules (createListDetails sp))) = length (Rules sp) \<and>
   ListCompartmentId (createListDetails sp) = Some (OCISecurityPolicySpec.CompartmentID sp) \<and>
   ListVcnId (createListDetails sp) = Some (VcnID sp) \<and>
   ListDisplayName (createListDetails sp) = Some (OCISecurityPolicySpec.DisplayName sp) \<and>
   ListFreeformTags (createListDetails sp) = OCISecurityPolicySpec.FreeformTags sp"
  using convertRules_ingress [of "Rules sp"] convertRules_egress [of "Rules sp"] convertRules_nil [of "Rules sp"]
    sum_length_filter_compl [of is_ingress "Rules sp"]
  by (simp add: createListDetails_def case_prod_unfold Let_def)

lemma ingress_of_spec: "elems (IngressSecurityRules (createListDetails sp)) = map ingressRule (filter is_ingress (Rules sp))"
  using convertRules_ingress [of "Rules sp"] by (simp add: createListDetails_def case_prod_unfold Let_def)

lemma egress_of_spec:
  "elems (EgressSecurityRules (createListDetails sp)) = map egressRule (filter (\<lambda>r. \<not> is_ingress r) (Rules sp))"
  using convertRules_egress [of "Rules sp"] by (simp add: createListDetails_def case_prod_unfold Let_def)

text \<open>C23: an ingress rule that gives both ports is sent with its protocol, source and description and with a
  port range of the same two numbers, although the 32-bit ports are converted to 64-bit integers.\<close>
theorem port_range_is_sent:
  assumes "r \<in> set (Rules sp)" "Direction r = ''INGRESS''" "MinPort r = Some lo" "MaxPort r = Some hi"
  shows "\<exists>q p lo' hi'. q \<in> set (elems (IngressSecurityRules (createListDetails sp))) \<and>
    IngressProtocol q = Some (Protocol r) \<and> IngressSource q = Some (Source r) \<and>
    IngressDescription q = Some (Description r) \<and>
    IngressTcpOptions q = Some \<lparr>DestinationPortRange = Some p\<rparr> \<and>
    PortMin p = Some lo' \<and> PortMax p = Some hi' \<and> sint lo' = sint lo \<and> sint hi' = sint hi"
proof -
  have "ingressRule r \<in> set (elems (IngressSecurityRules (createListDetails sp)))"
    using assms by (simp add: ingress_of_spec is_ingress_def SecurityRuleDirectionIngress_def)
  then show ?thesis
    by (intro exI conjI) (auto simp: ingressRule_def tcpOptions_def assms sint_scast_up)
qed

theorem port_range_is_sent_witness:
  "\<exists>q p. q \<in> set (elems (IngressSecurityRules (createListDetails demo_pol_spec))) \<and>
    IngressTcpOptions q = Some \<lparr>DestinationPortRange = Some p\<rparr>"
  using port_range_is_sent [of demo_rule demo_pol_spec 22 22] by (auto simp: demo_pol_spec_def demo_rule_def)

text \<open>C22: when the API server has admitted the spec, every port range of the request has both ends, and both
  lie between 1 and 65535.\<close>
theorem sent_ports_are_in_range:
  assumes "policy_spec_ok sp"
    and "IngressTcpOptions q = Some t \<and> q \<in> set (elems (IngressSecurityRules (createListDetails sp))) \<or>
      EgressTcpOptions q' = Some t \<and> q' \<in> set (elems (EgressSecurityRules (createListDetails sp)))"
  shows "port_range_ok t"
  using assms by (auto simp: ingress_of_spec egress_of_spec ingressRule_def egressRule_def policy_spec_ok_def
      list_all_iff intro: tcpOptions_bounds)

theorem sent_ports_are_in_range_witness:
  "port_range_ok \<lparr>DestinationPortRange = Some \<lparr>PortMin = Some 22, PortMax = Some 22\<rparr>\<rparr>"
proof -
  have ok: "policy_spec_ok demo_pol_spec"
    by (simp add: policy_spec_ok_def PolicyTypes.id_field_ok_def demo_pol_spec_def demo_rule_def rule_ok_def
        direction_ok_def port_ok_def)
  have "ingressRule demo_rule \<in> set (elems (IngressSecurityRules (createListDetails demo_pol_spec)))"
    by (simp add: ingress_of_spec demo_pol_spec_def demo_rule_def is_ingress_def SecurityRuleDirectionIngress_def)
  then show ?thesis
    using sent_ports_are_in_range [OF ok, of "ingressRule demo_rule"]
    by (simp add: ingressRule_def tcpOptions_def demo_rule_def)
qed

text \<open>C24: the CRD admits a rule with one port and not the other, but such a rule is sent with no port
  restriction at all: an ingress rule meant for one port opens every port to its source.\<close>
theorem lone_port_opens_all_ports:
  assumes "policy_spec_ok sp" "r \<in> set (Rules sp)" "Direction r = ''INGRESS''" "MinPort r = None \<or> MaxPort r = None"
  shows "\<exists>q \<in> set (elems (IngressSecurityRules (createListDetails sp))).
    IngressProtocol q = Some (Protocol r) \<and> IngressSource q = Some (Source r) \<and> IngressTcpOptions q = None"
proof
  show "ingressRule r \<in> set (elems (IngressSecurityRules (createListDetails sp)))"
    using assms by (simp add: ingress_of_spec is_ingress_def SecurityRuleDirectionIngress_def)
  show "IngressProtocol (ingressRule r) = Some (Protocol r) \<and> IngressSource (ingressRule r) = Some (Source r) \<and>
      IngressTcpOptions (ingressRule r) = None"
    using assms(4) by (auto simp: ingressRule_def tcpOptions_def split: option.splits)
qed

definition lone_port_spec :: OCISecurityPolicySpec where
  "lone_port_spec = demo_pol_spec\<lparr>Rules := [demo_rule\<lparr>MaxPort := None\<rparr>]\<rparr>"

theorem lone_port_opens_all_ports_witness:
  "\<exists>q \<in> set (elems (IngressSecurityRules (createListDetails lone_port_spec))).
    IngressSource q = Some ''0.0.0.0/0'' \<and> IngressTcpOptions q = None"
  using lone_port_opens_all_ports [of lone_port_spec "demo_rule\<lparr>MaxPort := None\<rparr>"]
  by (auto simp: lone_port_spec_def policy_spec_ok_def PolicyTypes.id_field_ok_def demo_pol_spec_def demo_rule_def
      rule_ok_def direction_ok_def port_ok_def)

end
