(* ===== verification/Operator.thy ===== *)
theory Operator
  imports InstanceProperties PolicyProperties "HOL-Library.Multiset"
begin

text \<open>
  The operator as one process: both reconcilers over the same outside world and the same collectors, each
  with its own client field, fed by work queues with keys of any number of objects, and restarted now
  and then. The reconcilers run as they are; what one of them does is to the other one more change of
  the outside world between its runs. (Changes of the world while a run is in progress, among them those
  that a concurrent run of the other controller makes, are part of every call of the run.)
\<close>

section \<open>The process\<close>

text \<open>The logs are ghost state: the runs so far, each with its key, its outcome and its events.\<close>

type_synonym ('r, 'o) RunLog = "(NamespacedName \<times> Outcome \<times> ('r, 'o) Event list) list"

record 'w Process =
  outside :: 'w
  instanceClient :: "'w OCIComputeClient option"
  policyClient :: "'w OCIVirtualNetworkClient option"
  runsTotal :: "string \<times> string \<Rightarrow> nat"
  durations :: "((string \<times> string \<times> string) \<times> Duration) list"
  transitions :: "string \<times> string \<Rightarrow> nat"
  instanceLog :: "(OCIInstance, ComputeCall) RunLog"
  policyLog :: "(OCISecurityPolicy, VcnCall) RunLog"

text \<open>What \<open>main\<close> makes: two reconcilers without OCI client.\<close>

definition newReconcilers :: "'w Process \<Rightarrow> 'w Process" where
  "newReconcilers p = p\<lparr>instanceClient := None, policyClient := None\<rparr>"

text \<open>
  A new process: new reconcilers, and collectors at zero. The cloud, the API server and the logs outlive the
  process.
\<close>

definition restart :: "'w Process \<Rightarrow> 'w Process" where
  "restart p = (newReconcilers p)\<lparr>runsTotal := (\<lambda>_. 0), durations := [], transitions := (\<lambda>_. 0)\<rparr>"

definition started :: "'w \<Rightarrow> 'w Process" where
  "started w = \<lparr>outside = w, instanceClient = None, policyClient = None, runsTotal = (\<lambda>_. 0),
     durations = [], transitions = (\<lambda>_. 0), instanceLog = [], policyLog = []\<rparr>"

text \<open>What a reconciler sees of the process, and the process after it ran.\<close>

definition reconciler_state :: "'c option \<Rightarrow> 'w Process \<Rightarrow> ('w, 'r, 'o, 'c) Sys" where
  "reconciler_state c p = \<lparr>world = outside p, calls = [], ociClient = c, reconcileTotal = runsTotal p,
     ociAPICallDuration = durations p, phaseTransitions = transitions p\<rparr>"

definition absorb :: "('w, 'r, 'o, 'c) Sys \<Rightarrow> 'w Process \<Rightarrow> 'w Process" where
  "absorb s p = p\<lparr>outside := world s, runsTotal := reconcileTotal s, durations := ociAPICallDuration s,
     transitions := phaseTransitions s\<rparr>"

definition run_instance :: "'w InstanceExt \<Rightarrow> NamespacedName \<Rightarrow> 'w Process \<Rightarrow> 'w Process" where
  "run_instance ext req p =
     (case run_state (Reconcile ext req) (reconciler_state (instanceClient p) p) of (out, s) \<Rightarrow>
       (absorb s p)\<lparr>instanceClient := ociClient s, instanceLog := instanceLog p @ [(req, out, calls s)]\<rparr>)"

definition run_policy :: "'w PolicyExt \<Rightarrow> NamespacedName \<Rightarrow> 'w Process \<Rightarrow> 'w Process" where
  "run_policy ext req p =
     (case run_state (ReconcilePolicy ext req) (reconciler_state (policyClient p) p) of (out, s) \<Rightarrow>
       (absorb s p)\<lparr>policyClient := ociClient s, policyLog := policyLog p @ [(req, out, calls s)]\<rparr>)"

text \<open>The work: a key of either kind, a restart of the process, or anything that happens elsewhere.\<close>

datatype 'w Job = InstanceJob NamespacedName | PolicyJob NamespacedName | Restart | Elsewhere "'w \<Rightarrow> 'w"

fun perform :: "'w InstanceExt \<Rightarrow> 'w PolicyExt \<Rightarrow> 'w Job \<Rightarrow> 'w Process \<Rightarrow> 'w Process" where
  "perform iext pext (InstanceJob req) p = run_instance iext req p"
| "perform iext pext (PolicyJob req) p = run_policy pext req p"
| "perform iext pext Restart p = restart p"
| "perform iext pext (Elsewhere f) p = p\<lparr>outside := f (outside p)\<rparr>"

definition operate :: "'w InstanceExt \<Rightarrow> 'w PolicyExt \<Rightarrow> 'w Job list \<Rightarrow> 'w \<Rightarrow> 'w Process" where
  "operate iext pext jobs w = fold (perform iext pext) jobs (started w)"

lemma operate_invariant:
  assumes "P (started w)" "\<And>job p. job \<in> set jobs \<Longrightarrow> P p \<Longrightarrow> P (perform iext pext job p)"
  shows "P (operate iext pext jobs w)"
  unfolding operate_def by (rule fold_invariant [where Q = "\<lambda>job. job \<in> set jobs"]) (use assms in auto)

lemma reconciler_state_simps [simp]:
  "calls (reconciler_state c p) = []" "reconcileTotal (reconciler_state c p) = runsTotal p"
  "ociAPICallDuration (reconciler_state c p) = durations p"
  by (simp_all add: reconciler_state_def)

text \<open>One run, by its outcome and its events.\<close>

lemma run_instance_logs:
  fixes p :: "'w Process"
  defines "s \<equiv> reconciler_state (instanceClient p) p :: 'w InstanceSys"
  shows "instanceLog (run_instance ext req p) = instanceLog p @ [(req, outcome (Reconcile ext req) s, events (Reconcile ext req) s)]"
    and "policyLog (run_instance ext req p) = policyLog p"
    and "runsTotal (run_instance ext req p) = reconcileTotal (final (Reconcile ext req) s)"
    and "durations (run_instance ext req p) = ociAPICallDuration (final (Reconcile ext req) s)"
  by (simp_all add: run_instance_def s_def outcome_def events_def final_def absorb_def split: prod.splits)

lemma run_policy_logs:
  fixes p :: "'w Process"
  defines "s \<equiv> reconciler_state (policyClient p) p :: 'w PolicySys"
  shows "policyLog (run_policy ext req p) = policyLog p @ [(req, outcome (ReconcilePolicy ext req) s, events (ReconcilePolicy ext req) s)]"
    and "instanceLog (run_policy ext req p) = instanceLog p"
    and "runsTotal (run_policy ext req p) = reconcileTotal (final (ReconcilePolicy ext req) s)"
    and "durations (run_policy ext req p) = ociAPICallDuration (final (ReconcilePolicy ext req) s)"
  by (simp_all add: run_policy_def s_def outcome_def events_def final_def absorb_def split: prod.splits)

lemma restart_logs [simp]:
  "instanceLog (restart p) = instanceLog p" "policyLog (restart p) = policyLog p"
  by (simp_all add: restart_def newReconcilers_def)

section \<open>Every run keeps its contract\<close>

definition all_refine :: "'w InstanceExt \<Rightarrow> 'w PolicyExt \<Rightarrow> 'w Process \<Rightarrow> bool" where
  "all_refine iext pext p \<longleftrightarrow>
     list_all (\<lambda>(req, out, evs). reconcile_run instanceDescriptor iext req out evs) (instanceLog p) \<and>
     list_all (\<lambda>(req, out, evs). reconcile_run policyDescriptor pext req out evs) (policyLog p)"

lemma run_reads: "reconcile_run D ext req out evs \<Longrightarrow> \<exists>r. hd evs = KGet req r"
  by (auto elim!: reconcile_runE)

lemma operate_all_refine: "all_refine iext pext (operate iext pext jobs w)"
proof (rule operate_invariant)
  show "all_refine iext pext (started w)" by (simp add: all_refine_def started_def)
next
  fix job and p :: "'a Process"
  assume "all_refine iext pext p"
  then show "all_refine iext pext (perform iext pext job p)"
    by (cases job) (auto simp: all_refine_def run_instance_logs run_policy_logs
        inst_reconciler.run_of pol_reconciler.run_of)
qed

text \<open>The runs for one key, and the history of its object.\<close>

definition runs_for :: "NamespacedName \<Rightarrow> ('r, 'o) RunLog \<Rightarrow> (Outcome \<times> ('r, 'o) Event list) list" where
  "runs_for req log = map snd (filter (\<lambda>run. fst run = req) log)"

definition history_of :: "NamespacedName \<Rightarrow> ('r, 'o) RunLog \<Rightarrow> ('r, 'o) Event list" where
  "history_of req log = concat (map snd (runs_for req log))"

definition instanceHistory ::
    "'w InstanceExt \<Rightarrow> 'w PolicyExt \<Rightarrow> 'w Job list \<Rightarrow> 'w \<Rightarrow> NamespacedName \<Rightarrow> (OCIInstance, ComputeCall) Event list" where
  "instanceHistory iext pext jobs w req = history_of req (instanceLog (operate iext pext jobs w))"

definition policyHistory ::
    "'w InstanceExt \<Rightarrow> 'w PolicyExt \<Rightarrow> 'w Job list \<Rightarrow> 'w \<Rightarrow> NamespacedName \<Rightarrow> (OCISecurityPolicy, VcnCall) Event list" where
  "policyHistory iext pext jobs w req = history_of req (policyLog (operate iext pext jobs w))"

lemma runs_for_refine:
  "list_all (\<lambda>(req, out, evs). reconcile_run D ext req out evs) log \<Longrightarrow> run_list D ext req (runs_for req log)"
  by (auto simp: run_list_def runs_for_def list_all_iff)

lemmas instance_runs_refine =
  runs_for_refine [OF conjunct1 [OF operate_all_refine [unfolded all_refine_def]]]
lemmas policy_runs_refine =
  runs_for_refine [OF conjunct2 [OF operate_all_refine [unfolded all_refine_def]]]

section \<open>The books\<close>

text \<open>
  How many runs in a log returned an error, how many are to be counted with a label, and the calls to the
  cloud that the log shows.
\<close>

definition failed_runs :: "('r, 'o) RunLog \<Rightarrow> nat" where
  "failed_runs log = length (filter (\<lambda>(req, out, evs). run_failed out) log)"

definition runs_with :: "string \<Rightarrow> ('r, 'o) RunLog \<Rightarrow> nat" where
  "runs_with l log = (if l = ''error'' then failed_runs log
     else if l = ''success'' then length log - failed_runs log else 0)"

definition cloud_calls :: "('r, 'o) RunLog \<Rightarrow> 'o list" where
  "cloud_calls log = concat (map (\<lambda>(req, out, evs). oci_calls evs) log)"

lemma failed_runs_length: "failed_runs log \<le> length log"
  by (simp add: failed_runs_def)

lemma log_append [simp]:
  "runs_with l (log @ [(req, out, evs)]) = runs_with l log + (if outcome_label out = l then 1 else 0)"
  "cloud_calls (log @ [(req, out, evs)]) = cloud_calls log @ oci_calls evs"
  using failed_runs_length [of log]
  by (auto simp: runs_with_def failed_runs_def outcome_label_run cloud_calls_def)

definition books_right :: "'w Process \<Rightarrow> bool" where
  "books_right p \<longleftrightarrow>
     (\<forall>l. runsTotal p (''ociinstance'', l) = runs_with l (instanceLog p)) \<and>
     (\<forall>l. runsTotal p (''ocisecuritypolicy'', l) = runs_with l (policyLog p)) \<and>
     mset (map fst (durations p)) =
       mset (map compute_labels (cloud_calls (instanceLog p))) + mset (map vcn_labels (cloud_calls (policyLog p)))"

lemma books_outside: "books_right p \<Longrightarrow> books_right (p\<lparr>outside := w\<rparr>)"
  by (simp add: books_right_def)

lemma run_instance_books: "books_right p \<Longrightarrow> books_right (run_instance ext req p)"
  using inst_reconciler.counted [of ext req "reconciler_state (instanceClient p) p"]
  by (auto simp: books_right_def run_instance_logs simp del: mset_map)

lemma run_policy_books: "books_right p \<Longrightarrow> books_right (run_policy ext req p)"
  using pol_reconciler.counted [of ext req "reconciler_state (policyClient p) p"]
  by (auto simp: books_right_def run_policy_logs simp del: mset_map)

section \<open>Properties\<close>

text \<open>C16: In the whole operator, whatever objects the two reconcilers work on in whatever order, however often
  the process is restarted and whatever happens elsewhere in between, every run of each reconciler is one
  that its protocol permits, and every run of a key starts by reading that key.\<close>
theorem operator_refines_protocols:
  "list_all (\<lambda>(req, out, evs). reconcile_run instanceDescriptor iext req out evs \<and> (\<exists>r. hd evs = KGet req r))
     (instanceLog (operate iext pext jobs w)) \<and>
   list_all (\<lambda>(req, out, evs). reconcile_run policyDescriptor pext req out evs \<and> (\<exists>r. hd evs = KGet req r))
     (policyLog (operate iext pext jobs w))"
  using operate_all_refine [of iext pext jobs w] unfolding all_refine_def
  by (auto elim!: list.pred_mono_strong run_reads)

text \<open>The bound on launches is one of the operator. Over all the work it does, for an object whose history
  an API server with optimistic concurrency serves, each instance launched beyond the first is paid for by
  a status write that failed, and an instance id that was recorded at the beginning is still there at the
  end; work on other objects, the other controller and restarts of the process change nothing of this.\<close>
theorem operator_launches_once:
  assumes "served inst_version inst_id vs (instanceHistory iext pext jobs w req) vs'" "proper inst_version vs"
  shows "launches (instanceHistory iext pext jobs w req) \<le> Suc (failed_writes (instanceHistory iext pext jobs w req)) \<and>
    (inst_id (last vs) = '''' \<or> inst_id (last vs') = inst_id (last vs))"
proof -
  have "run_list instanceDescriptor iext req (runs_for req (instanceLog (operate iext pext jobs w)))"
    by (rule instance_runs_refine)
  then show ?thesis
    using inst_tracked.runs_created_once [of iext req _ vs vs'] inst_tracked.runs_keep_id [of iext req _ vs vs'] assms
    by (auto simp: instanceHistory_def history_of_def creations_launches)
qed

text \<open>The same for policies: over all the work of the operator, each security list created beyond the first
  is paid for by a status write that failed, and a recorded list id stays.\<close>
theorem operator_creates_lists_once:
  assumes "served pol_version pol_id vs (policyHistory iext pext jobs w req) vs'" "proper pol_version vs"
  shows "list_creations (policyHistory iext pext jobs w req) \<le> Suc (failed_writes (policyHistory iext pext jobs w req)) \<and>
    (pol_id (last vs) = '''' \<or> pol_id (last vs') = pol_id (last vs))"
proof -
  have "run_list policyDescriptor pext req (runs_for req (policyLog (operate iext pext jobs w)))"
    by (rule policy_runs_refine)
  then show ?thesis
    using pol_tracked.runs_created_once [of pext req _ vs vs'] pol_tracked.runs_keep_id [of pext req _ vs vs'] assms
    by (auto simp: policyHistory_def history_of_def creations_list_creations)
qed

text \<open>C17: The books of the process are right. As long as it is not restarted, \<open>reconcileTotal\<close> holds for each
  controller under ''error'' the number of its runs that returned an error, under ''success'' the number of all
  others (a run that panicked is among them), and nothing under any other label, the counts of one controller
  untouched by the other; and every call to the cloud that the logs show is observed exactly once, under
  its controller, its operation and ''error'' or ''success'' as the cloud answered (the labels of the
  observations, not the times measured).\<close>
theorem operator_books:
  assumes "Restart \<notin> set jobs"
  shows "let p = operate iext pext jobs w in
     runsTotal p (''ociinstance'', ''error'') = failed_runs (instanceLog p) \<and>
     runsTotal p (''ociinstance'', ''success'') = length (instanceLog p) - failed_runs (instanceLog p) \<and>
     runsTotal p (''ocisecuritypolicy'', ''error'') = failed_runs (policyLog p) \<and>
     runsTotal p (''ocisecuritypolicy'', ''success'') = length (policyLog p) - failed_runs (policyLog p) \<and>
     (\<forall>l. l \<noteq> ''error'' \<and> l \<noteq> ''success'' \<longrightarrow>
        runsTotal p (''ociinstance'', l) = 0 \<and> runsTotal p (''ocisecuritypolicy'', l) = 0) \<and>
     mset (map fst (durations p)) =
       mset (map compute_labels (cloud_calls (instanceLog p))) + mset (map vcn_labels (cloud_calls (policyLog p)))"
proof -
  have "books_right (operate iext pext jobs w)"
  proof (rule operate_invariant)
    show "books_right (started w)" by (simp add: books_right_def started_def runs_with_def failed_runs_def cloud_calls_def)
  next
    fix job and q :: "'a Process"
    assume "job \<in> set jobs" "books_right q"
    moreover from this assms have "job \<noteq> Restart" by auto
    ultimately show "books_right (perform iext pext job q)"
      by (cases job rule: Job.exhaust) (simp_all add: run_instance_books run_policy_books books_outside)
  qed
  then show ?thesis by (simp add: books_right_def runs_with_def Let_def)
qed

section \<open>Such work\<close>

definition launching_world :: InstWorld where
  "launching_world = world_start (Some (inst_ready 1 '''' '''' 0)) [] [InstanceLifecycleStateRunning]"

lemma fresh_reconciler: "reconciler_state None (started w) = fresh_sys w None"
  by (simp add: reconciler_state_def started_def fresh_sys_def)

definition launching_work :: "InstWorld Process \<Rightarrow> bool" where
  "launching_work p \<longleftrightarrow> instanceLog p = [(demo_request, outcome (Reconcile inst_ext demo_request) launching_sys,
     events (Reconcile inst_ext demo_request) launching_sys)] \<and> policyLog p = []"

text \<open>A launch, then a restart.\<close>

lemma work_launched:
  "launching_work (operate inst_ext pext [InstanceJob demo_request, Restart]
     launching_world)"
  by (simp add: launching_work_def operate_def run_instance_logs launching_sys_def launching_world_def inst_sys_def
      fresh_reconciler [symmetric], simp add: started_def)

theorem operator_books_witness:
  "\<forall>pext. let p = operate inst_ext pext [InstanceJob demo_request] launching_world in
     runsTotal p (''ociinstance'', ''success'') = 1 \<and> runsTotal p (''ociinstance'', ''error'') = 0 \<and>
     mset (map fst (durations p)) = {#(''ociinstance'', ''launch'', ''success'')#}"
proof
  fix pext
  let ?p = "\<lambda>more. operate inst_ext pext (InstanceJob demo_request # more) launching_world"
  have "instanceLog (?p []) = instanceLog (?p [Restart])" "policyLog (?p []) = policyLog (?p [Restart])"
    by (simp_all add: operate_def)
  then have "instanceLog (?p []) = [(demo_request, outcome (Reconcile inst_ext demo_request) launching_sys,
      events (Reconcile inst_ext demo_request) launching_sys)]" "policyLog (?p []) = []"
    using work_launched [of pext] by (simp_all add: launching_work_def)
  then show "let p = ?p [] in
     runsTotal p (''ociinstance'', ''success'') = 1 \<and> runsTotal p (''ociinstance'', ''error'') = 0 \<and>
     mset (map fst (durations p)) = {#(''ociinstance'', ''launch'', ''success'')#}"
    using operator_books [of "[InstanceJob demo_request]" inst_ext pext launching_world]
    by (simp add: Let_def failed_runs_def cloud_calls_def launching_run)
qed

end
