(* ===== verification/Bystanders.thy ===== *)
theory Bystanders
  imports InstanceController PolicyController
begin

text \<open>
  What a run does to the outside world, call by call. If every call that a run can make keeps a law on
  worlds and events, so does the run. The calls that count are those of a run for some keys (\<open>keys\<close>), whose
  objects are all \<open>own\<close>, with clients that are \<open>good\<close>; the rest of the world may answer as it likes. One use is
  the law that the run leaves something alone, say another object (\<open>quiet\<close>); another that the API server
  answers by optimistic concurrency (theory \<open>Cluster\<close>).
\<close>

section \<open>Calls\<close>

text \<open>
  \<open>L w es w'\<close> relates the world before a run, the events so far and the world after them. A call adds its
  event, reading the clock adds none.
\<close>

type_synonym ('w, 'r, 'o) law = "'w \<Rightarrow> ('r, 'o) Event list \<Rightarrow> 'w \<Rightarrow> bool"

definition chained :: "('w, 'r, 'o) law \<Rightarrow> bool" where
  "chained L \<longleftrightarrow> (\<forall>w es w1 fs w2. L w es w1 \<longrightarrow> L w1 fs w2 \<longrightarrow> L w (es @ fs) w2)"

definition lawful_call :: "('w, 'r, 'o) law \<Rightarrow> ('w \<Rightarrow> 'a \<times> 'w) \<Rightarrow> ('a \<Rightarrow> ('r, 'o) Event list) \<Rightarrow> bool" where
  "lawful_call L f ev \<longleftrightarrow> (\<forall>w. L w (ev (fst (f w))) (snd (f w)))"

definition lawful_answer ::
    "('w, 'r, 'o) law \<Rightarrow> ('a \<Rightarrow> bool) \<Rightarrow> ('w \<Rightarrow> (go_error + 'a) \<times> 'w) \<Rightarrow> (go_error + 'a \<Rightarrow> ('r, 'o) Event list) \<Rightarrow> bool" where
  "lawful_answer L good f ev \<longleftrightarrow> (\<forall>w. L w (ev (fst (f w))) (snd (f w)) \<and> (\<forall>x. fst (f w) = Inr x \<longrightarrow> good x))"

definition lawful_ext ::
    "('w, 'r, 'o) law \<Rightarrow> ('r \<Rightarrow> ObjectMeta) \<Rightarrow> (NamespacedName \<Rightarrow> bool) \<Rightarrow> (ObjectMeta \<Rightarrow> bool) \<Rightarrow> ('c \<Rightarrow> bool) \<Rightarrow>
     ('w, 'r, 'c) Ext \<Rightarrow> bool" where
  "lawful_ext L meta keys own good ext \<longleftrightarrow>
     (\<forall>k. keys k \<longrightarrow> lawful_answer L (\<lambda>x. own (meta x)) (Get (K8s ext) k) (\<lambda>r. [KGet k r])) \<and>
     (\<forall>y. own (meta y) \<longrightarrow>
        lawful_answer L (\<lambda>x. own (meta x)) (StatusUpdate (K8s ext) y) (\<lambda>r. [KStatusUpdate y r])) \<and>
     (\<forall>y f. own (meta y) \<longrightarrow>
        lawful_call L (Update (K8s ext) (AddFinalizer ext y f)) (\<lambda>r. [KUpdate (AddFinalizer ext y f) r]) \<and>
        lawful_call L (Update (K8s ext) (RemoveFinalizer ext y f)) (\<lambda>r. [KUpdate (RemoveFinalizer ext y f) r]) \<and>
        keys (ObjectKeyFromObject ext y)) \<and>
     lawful_answer L good (NewSdkClient ext) (\<lambda>r. [SdkClient (case r of Inl e \<Rightarrow> Some e | Inr _ \<Rightarrow> None)]) \<and>
     lawful_call L (Now ext) (\<lambda>_. [])"

definition lawful_compute :: "('w, OCIInstance, ComputeCall) law \<Rightarrow> 'w OCIComputeClient \<Rightarrow> bool" where
  "lawful_compute L c \<longleftrightarrow> (\<forall>d. lawful_call L (LaunchInstance c d) (\<lambda>r. [Oci (LaunchCall d r)])) \<and>
     (\<forall>i. lawful_call L (GetInstance c i) (\<lambda>r. [Oci (GetCall i r)])) \<and>
     (\<forall>i. lawful_call L (TerminateInstance c i) (\<lambda>r. [Oci (TerminateCall i r)]))"

definition lawful_network :: "('w, OCISecurityPolicy, VcnCall) law \<Rightarrow> 'w OCIVirtualNetworkClient \<Rightarrow> bool" where
  "lawful_network L c \<longleftrightarrow> (\<forall>d. lawful_call L (CreateSecurityList c d) (\<lambda>r. [Oci (CreateListCall d r)])) \<and>
     (\<forall>i. lawful_call L (GetSecurityList c i) (\<lambda>r. [Oci (GetListCall i r)])) \<and>
     (\<forall>i. lawful_call L (DeleteSecurityList c i) (\<lambda>r. [Oci (DeleteListCall i r)]))"

text \<open>Since the state \<open>s0\<close> the world has moved by \<open>L\<close>, and a client that is held is a good one.\<close>

definition lawful_since ::
    "('w, 'r, 'o) law \<Rightarrow> ('c \<Rightarrow> bool) \<Rightarrow> ('w, 'r, 'o, 'c) Sys \<Rightarrow> ('w, 'r, 'o, 'c) Sys \<Rightarrow> bool" where
  "lawful_since L good s0 s \<longleftrightarrow> (\<exists>es. calls s = calls s0 @ es \<and> L (world s0) es (world s)) \<and>
     (\<forall>c. ociClient s = Some c \<longrightarrow> good c)"

lemma lawful_since_count [simp]:
  "lawful_since L good s0 (s\<lparr>phaseTransitions := n\<rparr>) = lawful_since L good s0 s"
  "lawful_since L good s0 (s\<lparr>reconcileTotal := n\<rparr>) = lawful_since L good s0 s"
  by (simp_all add: lawful_since_def)

lemma lawful_since_client [simp, intro]:
  "lawful_since L good s0 s \<Longrightarrow> good c \<Longrightarrow> lawful_since L good s0 (s\<lparr>ociClient := Some c\<rparr>)"
  by (simp add: lawful_since_def)

lemma lawful_callD: "lawful_call L f ev \<Longrightarrow> f w = (a, w') \<Longrightarrow> L w (ev a) w'"
  by (metis lawful_call_def fst_conv snd_conv)

lemma lawful_answerD:
  "lawful_answer L good f ev \<Longrightarrow> f w = (a, w') \<Longrightarrow> L w (ev a) w' \<and> (\<forall>x. a = Inr x \<longrightarrow> good x)"
  by (metis lawful_answer_def fst_conv snd_conv)

lemma lawful_since_step:
  assumes "chained L" "lawful_since L good s0 s" "L (world s) es w'"
  shows "lawful_since L good s0 (s\<lparr>world := w', calls := calls s @ es\<rparr>)"
  using assms unfolding lawful_since_def chained_def by fastforce

lemma lawful_ext_call:
  assumes "chained L" "lawful_answer L good f (\<lambda>r. [ev r])" "lawful_since L ok s0 s"
    and "\<And>a t. lawful_since L ok s0 t \<Longrightarrow> (\<And>x. a = Inr x \<Longrightarrow> good x) \<Longrightarrow> Q a t"
  shows "post (ext_call f ev) Q s"
  using lawful_answerD [OF assms(2), of "world s"] lawful_since_step [OF assms(1,3)]
  by (auto split: prod.split intro!: assms(4))

lemma lawful_plain_call:
  assumes "chained L" "lawful_call L f (\<lambda>r. [ev r])" "lawful_since L ok s0 s"
    and "\<And>a t. lawful_since L ok s0 t \<Longrightarrow> Q a t"
  shows "post (ext_call f ev) Q s"
  using lawful_callD [OF assms(2), of "world s"] lawful_since_step [OF assms(1,3)]
  by (auto split: prod.split intro!: assms(4))

lemma lawful_measured:
  assumes "chained L" "lawful_call L (Now ext) (\<lambda>_. [])" "lawful_call L f (\<lambda>r. [Oci (ev r)])" "lawful_since L ok s0 s"
    and "\<And>a t. lawful_since L ok s0 t \<Longrightarrow> Q a t"
  shows "post (measureOCICall ext ctl op (oci_call f ev)) Q s"
proof -
  obtain t0 w0 where c0: "Now ext (world s) = (t0, w0)" by (cases "Now ext (world s)")
  obtain r w1 where f: "f w0 = (r, w1)" by (cases "f w0")
  obtain t1 w2 where c1: "Now ext w1 = (t1, w2)" by (cases "Now ext w1")
  have "L (world s) [] w0" "L w0 [Oci (ev r)] w1" "L w1 [] w2"
    using lawful_callD [OF assms(2) c0] lawful_callD [OF assms(3) f] lawful_callD [OF assms(2) c1] .
  then have "L (world s) ([] @ [Oci (ev r)] @ []) w2" using assms(1) unfolding chained_def by blast
  then have "lawful_since L ok s0 (s\<lparr>world := w2, calls := calls s @ [Oci (ev r)]\<rparr>)"
    by (intro lawful_since_step [OF assms(1,4)]) simp
  then show ?thesis by (auto simp: c0 f c1 oci_call_def lawful_since_def intro!: assms(5))
qed

section \<open>Runs\<close>

text \<open>The facts about one \<open>lawful_ext\<close>, as rules for the calls of a run.\<close>

lemma lawful_rules:
  assumes L: "chained L" and q: "lawful_ext L meta keys own good ext"
  shows "keys k \<Longrightarrow> lawful_since L good s0 s \<Longrightarrow>
      (\<And>a t. lawful_since L good s0 t \<Longrightarrow> (\<And>x. a = Inr x \<Longrightarrow> own (meta x)) \<Longrightarrow> Q a t) \<Longrightarrow> post (k8s_get ext k) Q s"
    and "own (meta y) \<Longrightarrow> lawful_since L good s0 s \<Longrightarrow>
      (\<And>a t. lawful_since L good s0 t \<Longrightarrow> (\<And>x. a = Inr x \<Longrightarrow> own (meta x)) \<Longrightarrow> Q a t) \<Longrightarrow>
      post (k8s_status_update ext y) Q s"
    and "own (meta y) \<Longrightarrow> lawful_since L good s0 s \<Longrightarrow> (\<And>a t. lawful_since L good s0 t \<Longrightarrow> Q' a t) \<Longrightarrow>
      post (k8s_update ext (AddFinalizer ext y f)) Q' s"
    and "own (meta y) \<Longrightarrow> lawful_since L good s0 s \<Longrightarrow> (\<And>a t. lawful_since L good s0 t \<Longrightarrow> Q' a t) \<Longrightarrow>
      post (k8s_update ext (RemoveFinalizer ext y f)) Q' s"
    and "lawful_since L good s0 s \<Longrightarrow>
      (\<And>a t. lawful_since L good s0 t \<Longrightarrow> (\<And>c. a = Inr c \<Longrightarrow> good c) \<Longrightarrow> Q'' a t) \<Longrightarrow> post (new_sdk_client ext) Q'' s"
    and "own (meta y) \<Longrightarrow> keys (ObjectKeyFromObject ext y)"
    and "lawful_call L (Now ext) (\<lambda>_. [])"
  using q unfolding lawful_ext_def call_defs
  by (auto simp del: post_ext_call intro: lawful_ext_call [OF L] lawful_plain_call [OF L])

lemma lawful_setFailedStatus:
  assumes L: "chained L" and q: "lawful_ext L meta keys own good ext"
    and frame: "\<And>x. meta (mark_failed F reason x) = meta x"
    and "own (meta x)" "lawful_since L good s0 s"
  shows "post (setFailedStatus F ext x reason) (\<lambda>_. lawful_since L good s0) s"
  unfolding setFailedStatus_def post_bind
  by (rule lawful_rules(1) [OF L q lawful_rules(6) [OF L q assms(4)] assms(5)])
    (auto split: sum.split simp: frame simp del: post_ext_call intro!: lawful_rules(2) [OF L q])

text \<open>Instances.\<close>

lemma lawful_instance:
  fixes s :: "'w InstanceSys"
  assumes L: "chained L" and q: "lawful_ext L InstMeta keys own good ext"
    and good: "\<And>c. good c \<Longrightarrow> lawful_compute L c"
    and k: "keys req" and s: "lawful_since L good s0 s"
  shows "post (Reconcile ext req) (\<lambda>_. lawful_since L good s0) s"
proof -
  let ?J = "lawful_since L good s0 :: 'w InstanceSys \<Rightarrow> bool"
  note rules = lawful_rules [OF L q]
  note measured = lawful_measured [OF L lawful_rules(7) [OF L q]]
  have c: "lawful_call L (LaunchInstance c d) (\<lambda>r. [Oci (LaunchCall d r)])"
    "lawful_call L (GetInstance c i) (\<lambda>r. [Oci (GetCall i r)])"
    "lawful_call L (TerminateInstance c i) (\<lambda>r. [Oci (TerminateCall i r)])"
    if "good c" for c d i using good [OF that] by (simp_all add: lawful_compute_def)
  have failing: "post (setFailedStatus instanceFailable ext x reason) (\<lambda>_. ?J) t"
    if "own (InstMeta x)" "?J t" for x reason t
    using inst_failable.mark_failed_fields(4) that by (intro lawful_setFailedStatus [OF L q]) simp_all
  have new: "post (reconcileNew ext x c) (\<lambda>_. ?J) t" if "own (InstMeta x)" "good c" "?J t" for x c t
    using that unfolding reconcileNew_def post_bind call_launch_def
    by (auto simp del: post_ext_call post_measureOCICall post_setFailedStatus
        intro!: rules(2) measured c failing split: sum.split option.split)
  have existing: "post (reconcileExisting ext x c) (\<lambda>_. ?J) t" if "own (InstMeta x)" "good c" "?J t" for x c t
    using that unfolding reconcileExisting_def post_bind call_get_def Let_def
    by (auto simp del: post_ext_call post_measureOCICall
        intro!: rules(2) measured c split: sum.split option.split)
  have deletion: "post (handleDeletion ext x) (\<lambda>_. ?J) t" if "own (InstMeta x)" "?J t" for x t
  proof (cases "ociClient t")
    case None
    then show ?thesis
      using that unfolding handleDeletion_def newComputeClient_def call_terminate_def Let_def
      by (auto simp del: post_ext_call post_measureOCICall
          intro!: rules(4,5) measured c split: sum.split option.split)
  next
    case (Some c')
    then have "good c'" using that by (simp add: lawful_since_def)
    then show ?thesis
      using that Some unfolding handleDeletion_def call_terminate_def Let_def
      by (auto simp del: post_ext_call post_measureOCICall
          intro!: rules(4) measured c split: sum.split option.split)
  qed
  have active: "post (reconcileActive ext x) (\<lambda>_. ?J) t" if "own (InstMeta x)" "?J t" for x t
  proof (cases "ociClient t")
    case None
    then show ?thesis
      using that unfolding reconcileActive_def newComputeClient_def
      by (auto simp del: post_ext_call post_measureOCICall post_setFailedStatus
          intro!: rules(5) failing existing new split: sum.split option.split)
  next
    case (Some c')
    then have "good c'" using that by (simp add: lawful_since_def)
    then show ?thesis
      using that Some unfolding reconcileActive_def
      by (auto intro!: existing new)
  qed
  show ?thesis
    using k s unfolding Reconcile_def reconcileBody_def post_bind
    by (auto simp del: post_ext_call intro!: rules(1,3) deletion active split: sum.split)
qed

text \<open>Policies.\<close>

lemma lawful_policy:
  fixes s :: "'w PolicySys"
  assumes L: "chained L" and q: "lawful_ext L PolMeta keys own good ext"
    and good: "\<And>c. good c \<Longrightarrow> lawful_network L c"
    and k: "keys req" and s: "lawful_since L good s0 s"
  shows "post (ReconcilePolicy ext req) (\<lambda>_. lawful_since L good s0) s"
proof -
  let ?J = "lawful_since L good s0 :: 'w PolicySys \<Rightarrow> bool"
  note rules = lawful_rules [OF L q]
  note measured = lawful_measured [OF L lawful_rules(7) [OF L q]]
  have c: "lawful_call L (CreateSecurityList c d) (\<lambda>r. [Oci (CreateListCall d r)])"
    "lawful_call L (GetSecurityList c i) (\<lambda>r. [Oci (GetListCall i r)])"
    "lawful_call L (DeleteSecurityList c i) (\<lambda>r. [Oci (DeleteListCall i r)])"
    if "good c" for c d i using good [OF that] by (simp_all add: lawful_network_def)
  have failing: "post (setFailedStatus policyFailable ext x reason) (\<lambda>_. ?J) t"
    if "own (PolMeta x)" "?J t" for x reason t
    using pol_failable.mark_failed_fields(4) that by (intro lawful_setFailedStatus [OF L q]) simp_all
  have new: "post (reconcileNewPolicy ext x c) (\<lambda>_. ?J) t" if "own (PolMeta x)" "good c" "?J t" for x c t
    using that unfolding reconcileNewPolicy_def post_bind call_create_list_def
    by (auto simp del: post_ext_call post_measureOCICall post_setFailedStatus
        intro!: rules(2) measured c failing split: sum.split option.split)
  have existing: "post (reconcileExistingPolicy ext x c) (\<lambda>_. ?J) t" if "own (PolMeta x)" "good c" "?J t" for x c t
    using that unfolding reconcileExistingPolicy_def post_bind call_get_list_def Let_def
    by (auto simp del: post_ext_call post_measureOCICall
        intro!: rules(2) measured c split: sum.split option.split)
  have deletion: "post (handlePolicyDeletion ext x) (\<lambda>_. ?J) t" if "own (PolMeta x)" "?J t" for x t
  proof (cases "ociClient t")
    case None
    then show ?thesis
      using that unfolding handlePolicyDeletion_def newVirtualNetworkClient_def call_delete_list_def Let_def
      by (auto simp del: post_ext_call post_measureOCICall
          intro!: rules(4,5) measured c split: sum.split option.split)
  next
    case (Some c')
    then have "good c'" using that by (simp add: lawful_since_def)
    then show ?thesis
      using that Some unfolding handlePolicyDeletion_def call_delete_list_def Let_def
      by (auto simp del: post_ext_call post_measureOCICall
          intro!: rules(4) measured c split: sum.split option.split)
  qed
  have active: "post (reconcileActivePolicy ext x) (\<lambda>_. ?J) t" if "own (PolMeta x)" "?J t" for x t
  proof (cases "ociClient t")
    case None
    then show ?thesis
      using that unfolding reconcileActivePolicy_def newVirtualNetworkClient_def
      by (auto simp del: post_ext_call post_measureOCICall post_setFailedStatus
          intro!: rules(5) failing existing new split: sum.split option.split)
  next
    case (Some c')
    then have "good c'" using that by (simp add: lawful_since_def)
    then show ?thesis
      using that Some unfolding reconcileActivePolicy_def
      by (auto intro!: existing new)
  qed
  show ?thesis
    using k s unfolding ReconcilePolicy_def reconcilePolicyBody_def post_bind
    by (auto simp del: post_ext_call intro!: rules(1,3) deletion active split: sum.split)
qed

section \<open>Quiet runs\<close>

text \<open>A law that does not look at the events: \<open>T\<close> relates the worlds.\<close>

definition moves :: "('w \<Rightarrow> 'w \<Rightarrow> bool) \<Rightarrow> ('w, 'r, 'o) law" where
  "moves T w es w' \<longleftrightarrow> T w w'"

lemma chained_moves [simp]: "chained (moves T) \<longleftrightarrow> transp T"
  by (auto simp: chained_def moves_def transp_def)

definition quiet_call :: "('w \<Rightarrow> 'w \<Rightarrow> bool) \<Rightarrow> ('w \<Rightarrow> 'a \<times> 'w) \<Rightarrow> bool" where
  "quiet_call T f \<longleftrightarrow> (\<forall>w. T w (snd (f w)))"

definition quiet_answer :: "('w \<Rightarrow> 'w \<Rightarrow> bool) \<Rightarrow> ('a \<Rightarrow> bool) \<Rightarrow> ('w \<Rightarrow> (go_error + 'a) \<times> 'w) \<Rightarrow> bool" where
  "quiet_answer T good f \<longleftrightarrow> (\<forall>w. T w (snd (f w)) \<and> (\<forall>x. fst (f w) = Inr x \<longrightarrow> good x))"

definition quiet_ext ::
    "('w \<Rightarrow> 'w \<Rightarrow> bool) \<Rightarrow> ('r \<Rightarrow> ObjectMeta) \<Rightarrow> (NamespacedName \<Rightarrow> bool) \<Rightarrow> (ObjectMeta \<Rightarrow> bool) \<Rightarrow> ('c \<Rightarrow> bool) \<Rightarrow>
     ('w, 'r, 'c) Ext \<Rightarrow> bool" where
  "quiet_ext T meta keys own good ext \<longleftrightarrow>
     (\<forall>k. keys k \<longrightarrow> quiet_answer T (\<lambda>x. own (meta x)) (Get (K8s ext) k)) \<and>
     (\<forall>y. own (meta y) \<longrightarrow> quiet_answer T (\<lambda>x. own (meta x)) (StatusUpdate (K8s ext) y)) \<and>
     (\<forall>y f. own (meta y) \<longrightarrow> quiet_call T (Update (K8s ext) (AddFinalizer ext y f)) \<and>
        quiet_call T (Update (K8s ext) (RemoveFinalizer ext y f)) \<and> keys (ObjectKeyFromObject ext y)) \<and>
     quiet_answer T good (NewSdkClient ext) \<and> quiet_call T (Now ext)"

definition quiet_compute :: "('w \<Rightarrow> 'w \<Rightarrow> bool) \<Rightarrow> 'w OCIComputeClient \<Rightarrow> bool" where
  "quiet_compute T c \<longleftrightarrow> (\<forall>d. quiet_call T (LaunchInstance c d)) \<and> (\<forall>i. quiet_call T (GetInstance c i)) \<and>
     (\<forall>i. quiet_call T (TerminateInstance c i))"

definition quiet_network :: "('w \<Rightarrow> 'w \<Rightarrow> bool) \<Rightarrow> 'w OCIVirtualNetworkClient \<Rightarrow> bool" where
  "quiet_network T c \<longleftrightarrow> (\<forall>d. quiet_call T (CreateSecurityList c d)) \<and> (\<forall>i. quiet_call T (GetSecurityList c i)) \<and>
     (\<forall>i. quiet_call T (DeleteSecurityList c i))"

lemma quiet_lawful:
  "lawful_call (moves T) f ev \<longleftrightarrow> quiet_call T f"
  "lawful_answer (moves T) ok g ev' \<longleftrightarrow> quiet_answer T ok g"
  "lawful_ext (moves T) meta keys own good ext \<longleftrightarrow> quiet_ext T meta keys own good ext"
  "lawful_compute (moves T) cc \<longleftrightarrow> quiet_compute T cc"
  "lawful_network (moves T) nc \<longleftrightarrow> quiet_network T nc"
  by (simp_all add: lawful_call_def lawful_answer_def lawful_ext_def lawful_compute_def lawful_network_def
      quiet_call_def quiet_answer_def quiet_ext_def quiet_compute_def quiet_network_def moves_def)

text \<open>The world has moved by \<open>T\<close> since \<open>w\<close>, and a client that is held is a good one.\<close>

definition undisturbed ::
    "('w \<Rightarrow> 'w \<Rightarrow> bool) \<Rightarrow> ('c \<Rightarrow> bool) \<Rightarrow> 'w \<Rightarrow> ('w, 'r, 'o, 'c) Sys \<Rightarrow> bool" where
  "undisturbed T good w s \<longleftrightarrow> T w (world s) \<and> (\<forall>c. ociClient s = Some c \<longrightarrow> good c)"

lemma lawful_start:
  "L (world s) [] (world s) \<Longrightarrow> \<forall>c. ociClient s = Some c \<longrightarrow> good c \<Longrightarrow> lawful_since L good s s"
  by (simp add: lawful_since_def)

lemma lawful_undisturbed:
  assumes "transp T" "lawful_since (moves T) good s t" "undisturbed T good w s"
  shows "undisturbed T good w t"
  using assms by (auto simp: lawful_since_def moves_def undisturbed_def dest: transpD)

lemma quiet_instance:
  assumes T: "transp T" "reflp T" and q: "quiet_ext T InstMeta keys own good ext"
    and good: "\<And>c. good c \<Longrightarrow> quiet_compute T c"
    and k: "keys req" and s: "undisturbed T good w s"
  shows "post (Reconcile ext req) (\<lambda>_. undisturbed T good w) s"
proof -
  have "lawful_since (moves T) good s s"
    using s T(2) by (intro lawful_start) (auto simp: moves_def undisturbed_def dest: reflpD)
  then have "post (Reconcile ext req) (\<lambda>_. lawful_since (moves T) good s) s"
    using T q good k by (intro lawful_instance [where keys = keys and own = own]) (auto simp: quiet_lawful)
  then show ?thesis by (rule post_mono) (rule lawful_undisturbed [OF T(1) _ s])
qed

lemma quiet_policy:
  assumes T: "transp T" "reflp T" and q: "quiet_ext T PolMeta keys own good ext"
    and good: "\<And>c. good c \<Longrightarrow> quiet_network T c"
    and k: "keys req" and s: "undisturbed T good w s"
  shows "post (ReconcilePolicy ext req) (\<lambda>_. undisturbed T good w) s"
proof -
  have "lawful_since (moves T) good s s"
    using s T(2) by (intro lawful_start) (auto simp: moves_def undisturbed_def dest: reflpD)
  then have "post (ReconcilePolicy ext req) (\<lambda>_. lawful_since (moves T) good s) s"
    using T q good k by (intro lawful_policy [where keys = keys and own = own]) (auto simp: quiet_lawful)
  then show ?thesis by (rule post_mono) (rule lawful_undisturbed [OF T(1) _ s])
qed

section \<open>An object left alone\<close>

text \<open>The object is the same, and no setbacks were added.\<close>

definition apart :: "('w \<Rightarrow> 'a) \<Rightarrow> ('w \<Rightarrow> nat) \<Rightarrow> 'w \<Rightarrow> 'w \<Rightarrow> bool" where
  "apart obj left w w' \<longleftrightarrow> obj w' = obj w \<and> left w' \<le> left w"

lemma apart_order [simp]: "transp (apart obj left)" "reflp (apart obj left)" "apart obj left w w"
  by (auto simp: apart_def transp_def reflp_def)

end
