(* ===== verification/OtherWork.thy ===== *)
theory OtherWork
  imports Operator Bystanders
begin

text \<open>
  The work of the operator that is not about a given object: reconciles of other objects, the other
  controller, restarts, and what happens elsewhere. \<open>bystanders\<close> says that all of it keeps a relation on the
  outside world, such as that the object is left alone.
\<close>

section \<open>The views of the process\<close>

abbreviation instance_view :: "'w Process \<Rightarrow> 'w InstanceSys" where
  "instance_view p \<equiv> reconciler_state (instanceClient p) p"

abbreviation policy_view :: "'w Process \<Rightarrow> 'w PolicySys" where
  "policy_view p \<equiv> reconciler_state (policyClient p) p"

lemma view_simps [simp]:
  "world (reconciler_state c p) = outside p" "ociClient (reconciler_state c p) = c"
  by (simp_all add: reconciler_state_def)

lemma run_instance_view:
  "outside (run_instance ext req p) = world (final (Reconcile ext req) (instance_view p))"
  "instanceClient (run_instance ext req p) = ociClient (final (Reconcile ext req) (instance_view p))"
  "policyClient (run_instance ext req p) = policyClient p"
  by (simp_all add: run_instance_def final_def absorb_def split: prod.splits)

lemma run_policy_view:
  "outside (run_policy ext req p) = world (final (ReconcilePolicy ext req) (policy_view p))"
  "policyClient (run_policy ext req p) = ociClient (final (ReconcilePolicy ext req) (policy_view p))"
  "instanceClient (run_policy ext req p) = instanceClient p"
  by (simp_all add: run_policy_def final_def absorb_def split: prod.splits)

lemma started_view [simp]:
  "outside (started w) = w" "instanceClient (started w) = None" "policyClient (started w) = None"
  by (simp_all add: started_def)

lemma restarted_view [simp]:
  "outside (restart p) = outside p" "instanceClient (restart p) = None"
  "policyClient (restart p) = None"
  by (simp_all add: restart_def newReconcilers_def)

section \<open>Bystanders\<close>

text \<open>
  The work that is not about the object: runs for the keys \<open>ikeys\<close> and \<open>pkeys\<close>, whose objects are \<open>iown\<close> and
  \<open>pown\<close> and which use good clients only, and the changes elsewhere. All of it keeps \<open>T\<close>.
\<close>

definition bystanders ::
    "('w \<Rightarrow> 'w \<Rightarrow> bool) \<Rightarrow> (NamespacedName \<Rightarrow> bool) \<Rightarrow> (ObjectMeta \<Rightarrow> bool) \<Rightarrow> ('w OCIComputeClient \<Rightarrow> bool) \<Rightarrow>
     (NamespacedName \<Rightarrow> bool) \<Rightarrow> (ObjectMeta \<Rightarrow> bool) \<Rightarrow> ('w OCIVirtualNetworkClient \<Rightarrow> bool) \<Rightarrow>
     'w InstanceExt \<Rightarrow> 'w PolicyExt \<Rightarrow> 'w Job list \<Rightarrow> bool" where
  "bystanders T ikeys iown igood pkeys pown pgood iext pext jobs \<longleftrightarrow>
     quiet_ext T InstMeta ikeys iown igood iext \<and> (\<forall>c. igood c \<longrightarrow> quiet_compute T c) \<and>
     quiet_ext T PolMeta pkeys pown pgood pext \<and> (\<forall>c. pgood c \<longrightarrow> quiet_network T c) \<and>
     (\<forall>f. Elsewhere f \<in> set jobs \<longrightarrow> (\<forall>w. T w (f w)))"

definition good_clients :: "('w OCIComputeClient \<Rightarrow> bool) \<Rightarrow> ('w OCIVirtualNetworkClient \<Rightarrow> bool) \<Rightarrow> 'w Process \<Rightarrow> bool" where
  "good_clients igood pgood p \<longleftrightarrow> (\<forall>c. instanceClient p = Some c \<longrightarrow> igood c) \<and> (\<forall>c. policyClient p = Some c \<longrightarrow> pgood c)"

fun other_job :: "(NamespacedName \<Rightarrow> bool) \<Rightarrow> (NamespacedName \<Rightarrow> bool) \<Rightarrow> 'w Job \<Rightarrow> bool" where
  "other_job ikeys pkeys (InstanceJob k) \<longleftrightarrow> ikeys k"
| "other_job ikeys pkeys (PolicyJob k) \<longleftrightarrow> pkeys k"
| "other_job ikeys pkeys _ \<longleftrightarrow> True"

lemma other_work:
  assumes b: "bystanders T ikeys iown igood pkeys pown pgood iext pext jobs" and T: "transp T" "reflp T"
    and job: "job \<in> set jobs" "other_job ikeys pkeys job" and p: "good_clients igood pgood p"
  shows "T (outside p) (outside (perform iext pext job p)) \<and> good_clients igood pgood (perform iext pext job p)"
proof (cases job)
  case (InstanceJob k)
  have "undisturbed T igood (outside p) (instance_view p)"
    using T(2) p by (auto simp: undisturbed_def good_clients_def dest: reflpD)
  from quiet_instance [OF T _ _ _ this, where own = iown and req = k and ext = iext]
  have "undisturbed T igood (outside p) (final (Reconcile iext k) (instance_view p))"
    using b job InstanceJob by (auto simp: bystanders_def post_outcome)
  then show ?thesis using InstanceJob p by (simp add: run_instance_view undisturbed_def good_clients_def)
next
  case (PolicyJob k)
  have "undisturbed T pgood (outside p) (policy_view p)"
    using T(2) p by (auto simp: undisturbed_def good_clients_def dest: reflpD)
  from quiet_policy [OF T _ _ _ this, where own = pown and req = k and ext = pext]
  have "undisturbed T pgood (outside p) (final (ReconcilePolicy pext k) (policy_view p))"
    using b job PolicyJob by (auto simp: bystanders_def post_outcome)
  then show ?thesis using PolicyJob p by (simp add: run_policy_view undisturbed_def good_clients_def)
next
  case Restart
  then show ?thesis using T(2) by (simp add: good_clients_def reflpD)
next
  case (Elsewhere f)
  then show ?thesis using b job p by (simp add: bystanders_def good_clients_def)
qed

end
