(* ===== verification/SharedWorlds.thy ===== *)
theory SharedWorlds
  imports InstanceProgress PolicyProgress OtherWork
begin

text \<open>
  Two worlds side by side, for the witnesses about the whole operator: one for the instances and one for the
  policies. A call goes to a part of the whole (\<open>get\<close>, \<open>put\<close>) and leaves the other part (\<open>away\<close>) as it is.
  Each part holds one object, which is found under one key only.
\<close>

section \<open>Calls to a part of the world\<close>

definition on_part :: "('w \<Rightarrow> 'u) \<Rightarrow> ('u \<Rightarrow> 'w \<Rightarrow> 'w) \<Rightarrow> ('u \<Rightarrow> 'a \<times> 'u) \<Rightarrow> 'w \<Rightarrow> 'a \<times> 'w" where
  "on_part get put f w = (fst (f (get w)), put (snd (f (get w))) w)"

definition part_ext ::
    "('w \<Rightarrow> 'u) \<Rightarrow> ('u \<Rightarrow> 'w \<Rightarrow> 'w) \<Rightarrow> 'd \<Rightarrow> ('u, 'r, 'c) Ext \<Rightarrow> ('w, 'r, 'd) Ext" where
  "part_ext get put c ext = \<lparr>
     K8s = \<lparr>Get = (\<lambda>k. if k = demo_request then on_part get put (Get (K8s ext) k) else (\<lambda>w. (Inl not_found_error, w))),
       Update = (\<lambda>x. on_part get put (Update (K8s ext) x)),
       StatusUpdate = (\<lambda>x. on_part get put (StatusUpdate (K8s ext) x))\<rparr>,
     IsNotFound = IsNotFound ext, IsZero = IsZero ext, ContainsFinalizer = ContainsFinalizer ext,
     AddFinalizer = AddFinalizer ext, RemoveFinalizer = RemoveFinalizer ext,
     ObjectKeyFromObject = ObjectKeyFromObject ext,
     NewSdkClient = (\<lambda>w. (Inr c, w)), Now = on_part get put (Now ext)\<rparr>"

definition part_compute :: "('w \<Rightarrow> 'u) \<Rightarrow> ('u \<Rightarrow> 'w \<Rightarrow> 'w) \<Rightarrow> 'u OCIComputeClient \<Rightarrow> 'w OCIComputeClient" where
  "part_compute get put c = \<lparr>LaunchInstance = (\<lambda>d. on_part get put (LaunchInstance c d)),
     GetInstance = (\<lambda>i. on_part get put (GetInstance c i)),
     TerminateInstance = (\<lambda>i. on_part get put (TerminateInstance c i))\<rparr>"

definition part_network :: "('w \<Rightarrow> 'u) \<Rightarrow> ('u \<Rightarrow> 'w \<Rightarrow> 'w) \<Rightarrow> 'u OCIVirtualNetworkClient \<Rightarrow> 'w OCIVirtualNetworkClient" where
  "part_network get put c = \<lparr>CreateSecurityList = (\<lambda>d. on_part get put (CreateSecurityList c d)),
     GetSecurityList = (\<lambda>i. on_part get put (GetSecurityList c i)),
     DeleteSecurityList = (\<lambda>i. on_part get put (DeleteSecurityList c i))\<rparr>"

lemma part_terminate: "TerminateInstance (part_compute get put c) i = on_part get put (TerminateInstance c i)"
  by (simp add: part_compute_def)

lemma part_delete: "DeleteSecurityList (part_network get put c) i = on_part get put (DeleteSecurityList c i)"
  by (simp add: part_network_def)

lemmas part_defs = on_part_def part_ext_def part_compute_def part_network_def

locale part =
  fixes get :: "'w \<Rightarrow> 'u" and put :: "'u \<Rightarrow> 'w \<Rightarrow> 'w" and away :: "'w \<Rightarrow> 'v"
  assumes get_put [simp]: "get (put u w) = u"
    and away_put [simp]: "away (put u w) = away w"
begin

text \<open>A patient world is patient as a part of a larger one.\<close>

lemma part_moves [simp]:
  "still (obj \<circ> get) (left \<circ> get) w (put u w) = still obj left (get w) u"
  "setback (obj \<circ> get) (left \<circ> get) w (put u w) = setback obj left (get w) u"
  by (simp_all add: still_def setback_def)

lemma part_same_rest [simp]: "same_rest (part_ext get put c ext) G x y = same_rest ext G x y"
  by (simp add: same_rest_def part_ext_def)

lemma part_api:
  assumes "patient_api ext G demo_request obj left"
  shows "patient_api (part_ext get put c ext) G demo_request (obj \<circ> get) (left \<circ> get)"
  using assms
  by (simp add: patient_api_def part_ext_def on_part_def same_rest_def case_prod_unfold cong: sum.case_cong)

lemma part_deletion:
  assumes "patient_deletion ext G demo_request obj left"
  shows "patient_deletion (part_ext get put c ext) G demo_request (obj \<circ> get) (left \<circ> get)"
  using assms
  by (simp add: patient_deletion_def part_ext_def on_part_def case_prod_unfold cong: sum.case_cong if_cong split del: if_split)

lemma part_clock:
  "patient_clock ext obj left \<Longrightarrow> patient_clock (part_ext get put c ext) (obj \<circ> get) (left \<circ> get)"
  by (simp add: patient_clock_def part_defs still_def)

lemma part_sdk: "ready_sdk (part_ext get put c ext) c obj left" "patient_sdk (part_ext get put c ext) c obj left"
  by (simp_all add: ready_sdk_def patient_sdk_def part_ext_def still_def)

lemma part_call: "patient_call f obj left \<Longrightarrow> patient_call (on_part get put f) (obj \<circ> get) (left \<circ> get)"
  by (auto simp: patient_call_def on_part_def still_def setback_def case_prod_unfold split: sum.splits)

lemma part_patient_cloud:
  "patient_compute cc obj left \<Longrightarrow> patient_compute (part_compute get put cc) (obj \<circ> get) (left \<circ> get)"
  "patient_network nc obj' left \<Longrightarrow> patient_network (part_network get put nc) (obj' \<circ> get) (left \<circ> get)"
  by (simp_all add: patient_compute_def patient_network_def part_compute_def part_network_def on_part_def
      case_prod_unfold cong: sum.case_cong)

text \<open>Calls to one part keep a relation that only looks at the other, and so do runs for keys without an object.\<close>

lemma put_quiet_call: "(\<And>u w. T w (put u w)) \<Longrightarrow> quiet_call T (on_part get put f)"
  by (simp add: quiet_call_def on_part_def)

lemma put_quiet:
  assumes "\<And>u w. T w (put u w)" "reflp T"
  shows "quiet_ext T meta (\<lambda>_. True) (\<lambda>_. True) (\<lambda>c'. c' = c) (part_ext get put c ext)"
    "quiet_compute T (part_compute get put cc)" "quiet_network T (part_network get put nc)"
  using assms
  by (auto simp: quiet_ext_def quiet_compute_def quiet_network_def quiet_answer_def quiet_call_def part_defs
      dest: reflpD)

lemma idle_quiet:
  assumes "\<And>w. T w (put (snd (Now ext (get w))) w)" "reflp T"
  shows "quiet_ext T meta (\<lambda>k. k \<noteq> demo_request) (\<lambda>_. False) (\<lambda>c'. c' = c) (part_ext get put c ext)"
  using assms by (auto simp: quiet_ext_def quiet_answer_def quiet_call_def part_defs dest: reflpD)

lemma part_quiet:
  "quiet_compute (apart obj left) cc \<Longrightarrow> quiet_compute (apart (obj \<circ> get) (left \<circ> get)) (part_compute get put cc)"
  "quiet_network (apart obj left) nc \<Longrightarrow> quiet_network (apart (obj \<circ> get) (left \<circ> get)) (part_network get put nc)"
  by (simp_all add: quiet_compute_def quiet_network_def quiet_call_def apart_def part_defs)

end

text \<open>The two halves of a pair.\<close>

definition put_fst :: "'a \<Rightarrow> 'a \<times> 'b \<Rightarrow> 'a \<times> 'b" where
  "put_fst a w = (a, snd w)"

definition put_snd :: "'b \<Rightarrow> 'a \<times> 'b \<Rightarrow> 'a \<times> 'b" where
  "put_snd b w = (fst w, b)"

interpretation inst_part: part fst put_fst snd
  by unfold_locales (simp_all add: put_fst_def)

interpretation pol_part: part snd put_snd fst
  by unfold_locales (simp_all add: put_snd_def)

section \<open>Work in such a world\<close>

text \<open>Both kinds have an object of the same name, runs for other keys come in between, and the process restarts.\<close>

definition mixed_work :: "nat \<Rightarrow> 'w Job list" where
  "mixed_work n = concat (replicate n [InstanceJob demo_request, PolicyJob demo_request, Restart,
     InstanceJob \<lparr>NN_Namespace = ''ns'', NN_Name = ''other''\<rparr>, PolicyJob demo_request, InstanceJob demo_request])"

text \<open>What keeps a relation on one part, for all work on the pair that happens nowhere else.\<close>

lemma beside_instances:
  assumes "\<And>u w. T w (put_snd u w)" "\<And>w. T w (put_fst (snd (Now iext (fst w))) w)" "reflp T"
    and "quiet_compute T (part_compute fst put_fst cc)" "\<And>f. Elsewhere f \<notin> set jobs"
  shows "bystanders T (\<lambda>k. k \<noteq> demo_request) (\<lambda>_. False) (\<lambda>c'. c' = part_compute fst put_fst cc)
    (\<lambda>_. True) (\<lambda>_. True) (\<lambda>c'. c' = part_network snd put_snd nc)
    (part_ext fst put_fst (part_compute fst put_fst cc) iext) (part_ext snd put_snd (part_network snd put_snd nc) pext) jobs"
  unfolding bystanders_def
  using assms(4,5) inst_part.idle_quiet [of T, OF assms(2,3)] pol_part.put_quiet [of T, OF assms(1,3)] by auto

lemma beside_policies:
  assumes "\<And>u w. T w (put_fst u w)" "\<And>w. T w (put_snd (snd (Now pext (snd w))) w)" "reflp T"
    and "quiet_network T (part_network snd put_snd nc)" "\<And>f. Elsewhere f \<notin> set jobs"
  shows "bystanders T (\<lambda>_. True) (\<lambda>_. True) (\<lambda>c'. c' = part_compute fst put_fst cc)
    (\<lambda>k. k \<noteq> demo_request) (\<lambda>_. False) (\<lambda>c'. c' = part_network snd put_snd nc)
    (part_ext fst put_fst (part_compute fst put_fst cc) iext) (part_ext snd put_snd (part_network snd put_snd nc) pext) jobs"
  unfolding bystanders_def
  using assms(4,5) pol_part.idle_quiet [of T, OF assms(2,3)] inst_part.put_quiet [of T, OF assms(1,3)] by auto

lemma mixed_work_here: "Elsewhere f \<notin> set (mixed_work n)"
  by (simp add: mixed_work_def)

section \<open>The two controllers in one world\<close>

abbreviation shared_compute :: "('i \<times> nat) OCIComputeClient \<Rightarrow> (('i \<times> nat) \<times> 'p \<times> nat) OCIComputeClient" where
  "shared_compute c \<equiv> part_compute fst put_fst c"

abbreviation shared_network :: "('p \<times> nat) OCIVirtualNetworkClient \<Rightarrow> (('i \<times> nat) \<times> 'p \<times> nat) OCIVirtualNetworkClient" where
  "shared_network c \<equiv> part_network snd put_snd c"

abbreviation shared_inst_ext where
  "shared_inst_ext ext c \<equiv> part_ext fst put_fst (shared_compute c) ext"

abbreviation shared_pol_ext where
  "shared_pol_ext ext c \<equiv> part_ext snd put_snd (shared_network c) ext"

text \<open>What the patient worlds are.\<close>

lemma steady_inst:
  "patient_api (steady_ext inst_parts c) instanceGoal demo_request fst snd"
  "patient_clock (steady_ext inst_parts c) fst snd"
  by (auto simp: patient_api_def patient_clock_def same_rest_def still_def setback_def patient_world_defs
      inst_parts_def split: prod.splits)

lemma steady_pol:
  "patient_api (steady_ext pol_parts c) policyGoal demo_request fst snd"
  "patient_clock (steady_ext pol_parts c) fst snd"
  by (auto simp: patient_api_def patient_clock_def same_rest_def still_def setback_def patient_world_defs
      pol_parts_def split: prod.splits)

lemma fading_inst:
  "patient_deletion (fading_ext inst_parts c) instanceGoal demo_request fst snd"
  "patient_clock (fading_ext inst_parts c) fst snd"
  by (auto simp: patient_deletion_def patient_clock_def still_def setback_def patient_world_defs
      inst_parts_def not_found_error_def conflict_error_def split: prod.splits option.splits if_splits)

lemma fading_pol:
  "patient_deletion (fading_ext pol_parts c) policyGoal demo_request fst snd"
  "patient_clock (fading_ext pol_parts c) fst snd"
  by (auto simp: patient_deletion_def patient_clock_def still_def setback_def patient_world_defs
      pol_parts_def not_found_error_def conflict_error_def split: prod.splits option.splits if_splits)

lemma clouds_patient:
  "patient_compute slow_compute fst snd" "patient_network slow_network fst snd"
  by (auto simp: patient_compute_def patient_network_def still_def setback_def patient_world_defs
      still_provisioning_def split: prod.splits)

lemma sturdy_calls:
  "patient_call (TerminateInstance sturdy_compute i) fst snd"
  "patient_call (DeleteSecurityList sturdy_network i) fst snd"
  by (auto simp: patient_call_def still_def setback_def patient_world_defs cloud_error_def split: prod.splits)

lemma clouds_quiet:
  "quiet_compute (apart fst snd) slow_compute" "quiet_compute (apart fst snd) sturdy_compute"
  "quiet_network (apart fst snd) slow_network" "quiet_network (apart fst snd) sturdy_network"
  by (auto simp: quiet_compute_def quiet_network_def quiet_call_def apart_def patient_world_defs split: prod.splits)

end
