(* ===== verification/Lifecycle.thy ===== *)
theory Lifecycle
  imports Operator
begin

text \<open>
  The life of a status. Two small machines say how the status of an instance and of a policy may move,
  without reference to the code; the locale \<open>lifecycle\<close> derives from the protocol that whatever the
  operator does, the statuses that the API server stores for an object form a path of its machine. What
  holds of every reachable status then follows by induction along the path.
\<close>

section \<open>Machines\<close>

text \<open>An instance: announced, launched, and then as the cloud reports it. Any of them may fail.\<close>

inductive instance_move :: "OCIInstanceStatus \<Rightarrow> OCIInstanceStatus \<Rightarrow> bool" where
  announced: "InstanceID st = '''' \<Longrightarrow>
    instance_move st (st\<lparr>OCIInstanceStatus.Phase := ''Provisioning''\<rparr>)"
| launched: "InstanceID st = '''' \<Longrightarrow> OCIInstanceStatus.Phase st = ''Provisioning'' \<Longrightarrow>
    instance_move st (st\<lparr>InstanceID := i, OCIInstanceStatus.Phase := ''Provisioning'',
      OCIInstanceStatus.ObservedGeneration := g\<rparr>)"
| polled: "InstanceID st \<noteq> '''' \<Longrightarrow>
    instance_move st (st\<lparr>OCIInstanceStatus.Phase := ''Provisioning''\<rparr>)"
| settled: "InstanceID st \<noteq> '''' \<Longrightarrow> p \<in> {''Running'', ''Terminating'', ''Terminated'', ''Failed''} \<Longrightarrow>
    instance_move st (st\<lparr>OCIInstanceStatus.Phase := p, OCIInstanceStatus.ObservedGeneration := g\<rparr>)"
| failed: "instance_move st (st\<lparr>OCIInstanceStatus.Phase := ''Failed'', OCIInstanceStatus.FailureReason := r,
    OCIInstanceStatus.ObservedGeneration := g\<rparr>)"

text \<open>A policy: its list is active as soon as it has been created.\<close>

inductive policy_move :: "OCISecurityPolicyStatus \<Rightarrow> OCISecurityPolicyStatus \<Rightarrow> bool" where
  announced: "SecurityListID st = '''' \<Longrightarrow>
    policy_move st (st\<lparr>OCISecurityPolicyStatus.Phase := ''Creating''\<rparr>)"
| created: "SecurityListID st = '''' \<Longrightarrow> OCISecurityPolicyStatus.Phase st = ''Creating'' \<Longrightarrow>
    policy_move st (st\<lparr>SecurityListID := i, OCISecurityPolicyStatus.Phase := ''Active'',
      OCISecurityPolicyStatus.ObservedGeneration := g\<rparr>)"
| polled: "SecurityListID st \<noteq> '''' \<Longrightarrow>
    policy_move st (st\<lparr>OCISecurityPolicyStatus.Phase := ''Creating''\<rparr>)"
| settled: "SecurityListID st \<noteq> '''' \<Longrightarrow> p \<in> {''Active'', ''Deleting'', ''Deleted'', ''Failed''} \<Longrightarrow>
    policy_move st (st\<lparr>OCISecurityPolicyStatus.Phase := p, OCISecurityPolicyStatus.ObservedGeneration := g\<rparr>)"
| failed: "policy_move st (st\<lparr>OCISecurityPolicyStatus.Phase := ''Failed'', OCISecurityPolicyStatus.FailureReason := r,
    OCISecurityPolicyStatus.ObservedGeneration := g\<rparr>)"

section \<open>Runs are steps of a machine\<close>

text \<open>What the status writes of a reconciler owe the machine \<open>R\<close> on the statuses that \<open>st\<close> reads.\<close>

locale lifecycle = tracked_reconciler +
  fixes st :: "'a \<Rightarrow> 'k" and R :: "'k \<Rightarrow> 'k \<Rightarrow> bool"
  assumes start_move: "d_id D x = '''' \<Longrightarrow> R (st x) (st (d_start D x))"
    and record_move: "d_id D x = '''' \<Longrightarrow> st y = st (d_start D x) \<Longrightarrow> R (st y) (st (d_record D i y))"
    and fail_move: "R (st x) (st (d_fail D reason x))"
    and sync_move: "d_id D x \<noteq> '''' \<Longrightarrow> d_sync D c x y \<Longrightarrow> R (st x) (st y)"
    and record_version: "rv (d_record D i x) = rv x"
begin

lemma fail_derivable: "x \<in> seen \<Longrightarrow> derivable rv st R seen (KStatusUpdate (d_fail D reason x) a)"
  using fail_move [of x reason] by (intro derivable_status [of x]) (simp_all add: fail_tracked)

lemma failing_moves: "failing_run D ext x reason out evs \<Longrightarrow> derived rv st R seen evs"
  by (auto elim!: failing_runE simp: fail_derivable)

lemma deletion_moves: "deletion_run D ext x out evs \<Longrightarrow> derived rv st R seen evs"
  by (auto elim!: deletion_runE)

lemma existing_moves:
  assumes "existing_run D x out evs" "x \<in> seen" "d_id D x \<noteq> ''''"
  shows "derived rv st R seen evs"
  using assms by (auto elim!: existing_runE simp: derivable_status sync_tracked sync_move)

lemma new_moves:
  assumes "new_run D ext x out evs" "x \<in> seen" "d_id D x = ''''"
  shows "derived rv st R seen evs"
proof -
  have start: "derivable rv st R seen (KStatusUpdate (d_start D x) a :: ('a, 'b) Event)" for a
    using assms(2) start_move [OF assms(3)] by (intro derivable_status [of x]) (simp_all add: start_tracked)
  have "derivable rv st R (insert y seen) (KStatusUpdate (d_record D i y) a :: ('a, 'b) Event)"
    if "st y = st (d_start D x)" for y i a
    using record_move [OF assms(3) that] by (intro derivable_status [of y]) (simp_all add: record_version)
  then show ?thesis
    using assms(1) by (auto elim!: new_runE intro: failing_moves simp: start)
qed

lemma run_moves: "reconcile_run D ext req out evs \<Longrightarrow> derived rv st R {} evs"
  by (auto elim!: reconcile_runE active_runE intro: failing_moves deletion_moves existing_moves new_moves)

lemma runs_follow:
  "run_list D ext req runs \<Longrightarrow> served rv st vs (concat (map snd runs)) vs' \<Longrightarrow> proper rv vs \<Longrightarrow> follows st R vs vs'"
proof (induction runs arbitrary: vs)
  case Nil
  then show ?case by (auto intro: follows_others)
next
  case (Cons run runs)
  from Cons.prems(1) have r: "reconcile_run D ext req (fst run) (snd run)" "run_list D ext req runs"
    by (simp_all add: run_list_Cons)
  obtain vm where v: "served rv st vs (snd run) vm" "served rv st vm (concat (map snd runs)) vs'"
    using served_append [of rv st vs "snd run"] Cons.prems(2,3) by auto
  have "proper rv vm" using served_proper [OF v(1) Cons.prems(3)] by blast
  from derived_follows [OF run_moves [OF r(1)] v(1) Cons.prems(3)] Cons.IH [OF r(2) v(2) this] Cons.prems(3)
  show ?case by (auto simp: proper_def intro: follows_trans [of st R vs vm])
qed

end

section \<open>Both reconcilers\<close>

interpretation inst_life: lifecycle instanceDescriptor Reconcile "''ociinstance''" compute_labels
  "\<lambda>x. ResourceVersion (InstMeta x)" OCIInstance.Status instance_move
proof
  fix x y :: OCIInstance and i reason :: string
  let ?st = OCIInstance.Status
  show "d_id instanceDescriptor x = '''' \<Longrightarrow> instance_move (?st x) (?st (d_start instanceDescriptor x))"
    using instance_move.announced [of "?st x"] by (simp add: instance_phase_defs)
  show "instance_move (?st y) (?st (d_record instanceDescriptor i y))"
    if "d_id instanceDescriptor x = ''''" "?st y = ?st (d_start instanceDescriptor x)"
    using that instance_move.launched [where st = "?st y" and i = i and g = "Generation (InstMeta y)"] by (simp add: instance_phase_defs)
  show "instance_move (?st x) (?st (d_fail instanceDescriptor reason x))"
    using instance_move.failed [where st = "?st x" and r = reason and g = "Generation (InstMeta x)"]
    by (simp add: mark_failed_def instanceFailable_def InstanceTypes.SetFailedStatus_def
        InstanceTypes.SetObservedGeneration_def InstanceTypes.GetGeneration_def instance_phase_defs)
  show "instance_move (?st x) (?st y)"
    if old: "d_id instanceDescriptor x \<noteq> ''''" and sync: "d_sync instanceDescriptor c x y" for c
  proof (cases "(c, x, y)" rule: instance_synced.cases)
    case (1 i resp x' y')
    then show ?thesis
      using old sync instance_move.polled [of "?st x"]
        instance_move.settled [of "?st x" _ "Generation (InstMeta x)"]
      by (cases "InstLifecycleState resp") (simp_all add: instance_reported_def)
  qed (use sync in auto)
qed simp

interpretation pol_life: lifecycle policyDescriptor ReconcilePolicy "''ocisecuritypolicy''" vcn_labels
  "\<lambda>x. ResourceVersion (PolMeta x)" OCISecurityPolicy.Status policy_move
proof
  fix x y :: OCISecurityPolicy and i reason :: string
  let ?st = OCISecurityPolicy.Status
  show "d_id policyDescriptor x = '''' \<Longrightarrow> policy_move (?st x) (?st (d_start policyDescriptor x))"
    using policy_move.announced [of "?st x"] by (simp add: policy_phase_defs)
  show "policy_move (?st y) (?st (d_record policyDescriptor i y))"
    if "d_id policyDescriptor x = ''''" "?st y = ?st (d_start policyDescriptor x)"
    using that policy_move.created [where st = "?st y" and i = i and g = "Generation (PolMeta y)"] by (simp add: policy_phase_defs)
  show "policy_move (?st x) (?st (d_fail policyDescriptor reason x))"
    using policy_move.failed [where st = "?st x" and r = reason and g = "Generation (PolMeta x)"]
    by (simp add: mark_failed_def policyFailable_def PolicyTypes.SetFailedStatus_def
        PolicyTypes.SetObservedGeneration_def PolicyTypes.GetGeneration_def policy_phase_defs)
  show "policy_move (?st x) (?st y)"
    if old: "d_id policyDescriptor x \<noteq> ''''" and sync: "d_sync policyDescriptor c x y" for c
  proof (cases "(c, x, y)" rule: policy_synced.cases)
    case (1 i resp x' y')
    then show ?thesis
      using old sync policy_move.polled [of "?st x"]
        policy_move.settled [of "?st x" _ "Generation (PolMeta x)"]
      by (cases "ListLifecycleState resp") (simp_all add: policy_reported_def)
  qed (use sync in auto)
qed simp

section \<open>Reachable statuses\<close>

text \<open>What every step keeps holds of all versions, and an id that was recorded stays for good.\<close>

lemma follows_invariant:
  assumes "follows st R vs vs'" "vs \<noteq> []" "\<And>x y. R x y \<Longrightarrow> I x \<Longrightarrow> I y" "\<forall>x\<in>set vs. I (st x)"
  shows "\<forall>x\<in>set vs'. I (st x)"
proof -
  have path: "\<forall>y\<in>set (x # ws). I (st y)"
    if "successively (\<lambda>x y. st x = st y \<or> R (st x) (st y)) (x # ws)" "I (st x)" for x ws
    using that by (induction ws arbitrary: x) (auto intro: assms(3))
  obtain ws where "vs' = vs @ ws" "successively (\<lambda>x y. st x = st y \<or> R (st x) (st y)) (last vs # ws)"
    using assms(1) by (auto simp: follows_def)
  with path [of "last vs" ws] assms(2,4) show ?thesis by auto
qed

text \<open>A phase that needs an instance comes with its id; without one the object is new, announced or failed.\<close>

definition instance_status_ok :: "OCIInstanceStatus \<Rightarrow> bool" where
  "instance_status_ok st \<longleftrightarrow> (if InstanceID st = '''' then OCIInstanceStatus.Phase st \<in> {'''', ''Provisioning'', ''Failed''}
     else OCIInstanceStatus.Phase st \<in> {''Provisioning'', ''Running'', ''Terminating'', ''Terminated'', ''Failed''})"

lemma instance_move_ok: "instance_move st st' \<Longrightarrow> instance_status_ok st \<Longrightarrow> instance_status_ok st'"
  by (induction rule: instance_move.induct) (auto simp: instance_status_ok_def split: if_splits)

lemma instance_move_id: "instance_move st st' \<Longrightarrow> InstanceID st \<noteq> '''' \<Longrightarrow> InstanceID st' = InstanceID st"
  by (induction rule: instance_move.induct) auto

text \<open>For a policy, phase Active comes with a list id (an empty one if the cloud answered so).\<close>

definition policy_status_ok :: "OCISecurityPolicyStatus \<Rightarrow> bool" where
  "policy_status_ok st \<longleftrightarrow> (if SecurityListID st = ''''
     then OCISecurityPolicyStatus.Phase st \<in> {'''', ''Creating'', ''Active'', ''Failed''}
     else OCISecurityPolicyStatus.Phase st \<in> {''Creating'', ''Active'', ''Deleting'', ''Deleted'', ''Failed''})"

lemma policy_move_ok: "policy_move st st' \<Longrightarrow> policy_status_ok st \<Longrightarrow> policy_status_ok st'"
  by (induction rule: policy_move.induct) (auto simp: policy_status_ok_def split: if_splits)

section \<open>Histories of the operator\<close>

text \<open>The statuses of an instance follow its machine. Whatever the operator does, in whatever order, with
  restarts, stale reads and other writers in between: from the last version on that an API server with a
  status subresource held before, every version that it stores has the status of the one before it or is
  one step of \<open>instance_move\<close> away. So if the versions at the start had a status that makes sense, all have: a
  phase that needs an instance only comes with an instance id, and only the declared phases occur.\<close>
theorem instance_statuses_follow_machine:
  assumes "served inst_version OCIInstance.Status vs (instanceHistory iext pext jobs w req) vs'"
    and "proper inst_version vs"
  shows "follows OCIInstance.Status instance_move vs vs' \<and>
    ((\<forall>x\<in>set vs. instance_status_ok (OCIInstance.Status x)) \<longrightarrow>
     (\<forall>x\<in>set vs'. instance_status_ok (OCIInstance.Status x)))"
proof -
  have f: "follows OCIInstance.Status instance_move vs vs'"
    by (rule inst_life.runs_follow [OF instance_runs_refine assms [unfolded instanceHistory_def history_of_def]])
  show ?thesis
    using f follows_invariant [OF f, of instance_status_ok] assms(2) instance_move_ok by (auto simp: proper_def)
qed

text \<open>The statuses of a policy follow its machine, \<open>policy_move\<close>, in the same way; of the states in which
  something is being done to a list or was done, all but Active imply that a list id is recorded.\<close>
theorem policy_statuses_follow_machine:
  assumes "served pol_version OCISecurityPolicy.Status vs (policyHistory iext pext jobs w req) vs'"
    and "proper pol_version vs"
  shows "follows OCISecurityPolicy.Status policy_move vs vs' \<and>
    ((\<forall>x\<in>set vs. policy_status_ok (OCISecurityPolicy.Status x)) \<longrightarrow>
     (\<forall>x\<in>set vs'. policy_status_ok (OCISecurityPolicy.Status x)))"
proof -
  have f: "follows OCISecurityPolicy.Status policy_move vs vs'"
    by (rule pol_life.runs_follow [OF policy_runs_refine assms [unfolded policyHistory_def history_of_def]])
  show ?thesis
    using f follows_invariant [OF f, of policy_status_ok] assms(2) policy_move_ok by (auto simp: proper_def)
qed

end
