(* ===== verification/Orphans.thy ===== *)
theory Orphans
  imports Operator
begin

text \<open>
  What the finalizer is there for: when it is released, what was made for the object has been destroyed. The
  remote objects that a history makes are accounted for: the one whose id is recorded, and those whose id a
  failed status write lost. The first is destroyed before the release, the others are the orphans.
\<close>

section \<open>Remote objects made and destroyed\<close>

fun made_id :: "oci_kind \<Rightarrow> string option" where
  "made_id (Create (Inr (Some i))) = (if i = '''' then None else Some i)"
| "made_id _ = None"

fun destroyed_id :: "oci_kind \<Rightarrow> string option" where
  "destroyed_id (Destroy i None) = i"
| "destroyed_id _ = None"

lemma made_id_answer [simp]: "made_id (Create (Inr a)) = (if a = Some '''' then None else a)"
  by (cases a) auto

lemma destroyed_id_answer [simp]:
  "destroyed_id (Destroy i (answer_err a)) = (case a of Inl err \<Rightarrow> None | Inr u \<Rightarrow> i)"
  by (cases a) auto

definition made_ids :: "('r, 'o) Descriptor \<Rightarrow> ('r, 'o) Event list \<Rightarrow> string list" where
  "made_ids D evs = List.map_filter (\<lambda>c. made_id (d_kind D c)) (oci_calls evs)"

definition destroyed_ids :: "('r, 'o) Descriptor \<Rightarrow> ('r, 'o) Event list \<Rightarrow> string list" where
  "destroyed_ids D evs = List.map_filter (\<lambda>c. destroyed_id (d_kind D c)) (oci_calls evs)"

lemma ids_append [simp]:
  "made_ids D (es @ fs) = made_ids D es @ made_ids D fs"
  "destroyed_ids D (es @ fs) = destroyed_ids D es @ destroyed_ids D fs"
  by (simp_all add: made_ids_def destroyed_ids_def map_filter_def)

lemma made_ids_creations: "length (made_ids D evs) = creations D evs"
proof -
  have "made_id k \<noteq> None \<longleftrightarrow> made k" for k by (cases k rule: made.cases) auto
  then show ?thesis by (simp add: made_ids_def creations_def map_filter_def)
qed

lemma destroyed_idI:
  "Oci c \<in> set evs \<Longrightarrow> d_kind D c = Destroy (Some i) None \<Longrightarrow> i \<in> set (destroyed_ids D evs)"
  by (force simp: destroyed_ids_def map_filter_def oci_calls_def)

text \<open>The calls of the cloud, those made for the object that were never destroyed.\<close>

definition orphans :: "('r, 'o) Descriptor \<Rightarrow> ('r, 'o) Event list \<Rightarrow> string list" where
  "orphans D evs = filter (\<lambda>i. i \<notin> set (destroyed_ids D evs)) (made_ids D evs)"

section \<open>Where a recorded id comes from\<close>

lemma run_nonempty: "reconcile_run D ext req out evs \<Longrightarrow> evs \<noteq> []"
  by (auto elim!: reconcile_runE)

text \<open>A write of the object that went through: what it was made from was current.\<close>

lemma update_current:
  fixes es :: "('r, 'o) Event list"
  assumes "served rv rid vs (KGet k (Inr x) # es @ [KUpdate y (Inr z)]) vs'" "proper rv vs" "rv y = rv x"
  shows "rid (last vs') = rid x"
proof -
  from assms(1) obtain v1 where v1: "others_write rv rid vs v1" "x \<in> set v1"
    "served rv rid v1 (es @ [KUpdate y (Inr z) :: ('r, 'o) Event]) vs'" by auto
  have p1: "proper rv v1" using others_write_proper [OF v1(1) assms(2)] by blast
  obtain v2 where v2: "served rv rid v1 es v2" "served rv rid v2 [KUpdate y (Inr z) :: ('r, 'o) Event] vs'"
    using served_append [OF v1(3) p1] by blast
  have p2: "proper rv v2" "x \<in> set v2" using served_proper [OF v2(1) p1] v1(2) by auto
  from v2(2) obtain v3 v4 where v: "others_write rv rid v2 v3" "rv y = rv (last v3)" "rid z = rid (last v3)"
    "committed rv v3 z v4" "others_write rv rid v4 vs'" by auto
  have p3: "proper rv v3" "x \<in> set v3" using others_write_proper [OF v(1) p2(1)] p2(2) by auto
  then have "x = last v3" using v(2) assms(3) by (auto intro: proper_same simp: proper_def)
  then show ?thesis
    using v committed_proper [OF v(4) p3(1)] others_write_proper [OF v(5)] by auto
qed

context tracked_reconciler
begin

lemma creating_origin:
  assumes "creating x evs" "served rv (d_id D) vs evs vs'" "proper rv vs" "x \<in> set vs"
  shows "d_id D (last vs') = d_id D (last vs) \<or> d_id D (last vs') \<in> set (made_ids D evs)"
proof -
  from assms(1) obtain pre y c i a where e: "sdk_prefix pre" "d_kind D c = Create (Inr (Some i))"
    "d_id D x = ''''" "evs = (pre @ [KStatusUpdate (d_start D x) (Inr y)]) @
      [Oci c, KStatusUpdate (d_record D i y) a]"
    unfolding creating_def by auto
  obtain vm where vm: "served rv (d_id D) vs (pre @ [KStatusUpdate (d_start D x) (Inr y) :: ('a, 'b) Event]) vm"
    "served rv (d_id D) vm [Oci c, KStatusUpdate (d_record D i y) a] vs'"
    using served_append [OF assms(2) [unfolded e(4)] assms(3)] by blast
  have none: "d_id D (last vs) = ''''" by (rule creating_unrecorded [OF assms])
  have "d_id D (last vm) = d_id D (last vs)"
    using derived_keeps [OF _ vm(1) assms(3), of "{x}"] assms(4) e(1) by (simp add: start_derivable)
  then have "d_id D (last vs') \<in> {'''', i}"
    using recorded_or_not [OF vm(2)] start_accepted [OF vm(1) assms(3,4) e(3,1)] none by auto
  then show ?thesis using none e by (auto simp: made_ids_def map_filter_def)
qed

lemma run_origin:
  assumes "reconcile_run D ext req out evs" "served rv (d_id D) vs evs vs'" "proper rv vs"
  shows "d_id D (last vs') = d_id D (last vs) \<or> d_id D (last vs') \<in> set (made_ids D evs)"
  using run_derived [OF assms(1)]
proof
  assume "derived rv (d_id D) (=) {} evs \<and> creations D evs = 0"
  then show ?thesis using derived_keeps [OF _ assms(2,3)] by blast
next
  assume "\<exists>x evs'. evs = KGet req (Inr x) # evs' \<and> creating x evs'"
  then obtain x evs' where e: "evs = KGet req (Inr x) # evs'" "creating x evs'" by blast
  with assms(2) obtain v1 where v: "others_write rv (d_id D) vs v1" "x \<in> set v1"
    "served rv (d_id D) v1 evs' vs'" by auto
  note p = others_write_proper [OF v(1) assms(3)]
  then show ?thesis using creating_origin [OF e(2) v(3) _ v(2)] e(1) by (simp add: made_ids_def)
qed

lemma runs_origin:
  "run_list D ext req runs \<Longrightarrow> served rv (d_id D) vs (concat (map snd runs)) vs' \<Longrightarrow> proper rv vs \<Longrightarrow>
   d_id D (last vs') = d_id D (last vs) \<or> d_id D (last vs') \<in> set (made_ids D (concat (map snd runs)))"
proof (induction runs arbitrary: vs)
  case Nil
  then show ?case by (auto dest: others_write_proper)
next
  case (Cons run runs)
  obtain vm where v: "served rv (d_id D) vs (snd run) vm" "proper rv vm"
    "served rv (d_id D) vm (concat (map snd runs)) vs'" by (rule served_runs [OF Cons.prems(2,3)])
  from Cons.prems(1) have r: "reconcile_run D ext req (fst run) (snd run)" "run_list D ext req runs"
    by (simp_all add: run_list_Cons)
  from run_origin [OF r(1) v(1) Cons.prems(3)] Cons.IH [OF r(2) v(3,2)] show ?case by auto
qed

text \<open>
  A run that releases the finalizer has just had the recorded object destroyed. What is used of the library:
  adding the finalizer adds it, and removing it leaves the resource version.
\<close>

lemma release_destroyed:
  assumes run: "reconcile_run D ext req out evs" and served: "served rv (d_id D) vs evs vs'" "proper rv vs"
    and last: "last evs = KUpdate y (Inr z)" "\<not> ContainsFinalizer ext y (d_finalizer D)"
    and lib: "\<And>x. ContainsFinalizer ext (AddFinalizer ext x (d_finalizer D)) (d_finalizer D)"
      "\<And>x. rv (RemoveFinalizer ext x (d_finalizer D)) = rv x"
  shows "d_id D (last vs') = '''' \<or> d_id D (last vs') \<in> set (destroyed_ids D evs)"
proof -
  have "KUpdate y (Inr z) \<in> set evs" using last(1) run_nonempty [OF run] last_in_set by metis
  from run_update [OF run this] obtain x where x: "hd evs = KGet req (Inr x)" "rv y = rv x"
    "d_id D x = '''' \<or> (\<exists>c. Oci c \<in> set evs \<and> d_kind D c = Destroy (Some (d_id D x)) None)"
    using last(2) lib by auto
  obtain es where es: "evs = KGet req (Inr x) # es" using x(1) run_nonempty [OF run] by (cases evs) auto
  moreover from this last(1) have "es \<noteq> []" by auto
  ultimately have "evs = KGet req (Inr x) # butlast es @ [KUpdate y (Inr z)]"
    using last(1) append_butlast_last_id [of es] by simp
  with served(1) have "d_id D (last vs') = d_id D x" using update_current served(2) x(2) by metis
  then show ?thesis using x(3) by (auto intro: destroyed_idI)
qed

lemma runs_release:
  assumes runs: "run_list D ext req runs" and served: "served rv (d_id D) vs (concat (map snd runs)) vs'" "proper rv vs"
    and ne: "runs \<noteq> []" and last: "last (concat (map snd runs)) = KUpdate y (Inr z)" "\<not> ContainsFinalizer ext y (d_finalizer D)"
    and lib: "\<And>x. ContainsFinalizer ext (AddFinalizer ext x (d_finalizer D)) (d_finalizer D)"
      "\<And>x. rv (RemoveFinalizer ext x (d_finalizer D)) = rv x"
  shows "d_id D (last vs') = '''' \<or> d_id D (last vs') \<in> set (destroyed_ids D (concat (map snd runs)))"
proof -
  obtain rs run where r: "runs = rs @ [run]" using ne rev_exhaust by blast
  then have run: "reconcile_run D ext req (fst run) (snd run)"
    using runs by (simp add: run_list_def split: prod.splits)
  then have "last (snd run) = KUpdate y (Inr z)" using last(1) r run_nonempty [OF run] by simp
  obtain vm where vm: "served rv (d_id D) vs (concat (map snd rs)) vm" "served rv (d_id D) vm (snd run) vs'"
    using served_append [of rv "d_id D" vs "concat (map snd rs)" "snd run"] served r by auto
  have "proper rv vm" using served_proper [OF vm(1) served(2)] by blast
  from release_destroyed [OF run vm(2) this \<open>last (snd run) = _\<close> last(2) lib] r show ?thesis by auto
qed

text \<open>The accounts at a release.\<close>

lemma orphans_bound:
  assumes runs: "run_list D ext req runs" and served: "served rv (d_id D) vs (concat (map snd runs)) vs'" "proper rv vs"
    and ne: "runs \<noteq> []" and last: "last (concat (map snd runs)) = KUpdate y (Inr z)" "\<not> ContainsFinalizer ext y (d_finalizer D)"
    and lib: "\<And>x. ContainsFinalizer ext (AddFinalizer ext x (d_finalizer D)) (d_finalizer D)"
      "\<And>x. rv (RemoveFinalizer ext x (d_finalizer D)) = rv x"
    and new: "d_id D (last vs) = ''''"
  shows "length (orphans D (concat (map snd runs))) \<le> failed_writes (concat (map snd runs))"
proof -
  let ?h = "concat (map snd runs)" and ?i = "d_id D (last vs')"
  have bound: "length (made_ids D ?h) \<le> failed_writes ?h + recorded (d_id D) vs'"
    using runs_bound [OF runs served] by (simp add: made_ids_creations)
  show ?thesis
  proof (cases "?i = ''''")
    case True
    then show ?thesis using bound unfolding orphans_def
      by (intro le_trans [OF length_filter_le]) (simp add: recorded_def)
  next
    case False
    then have "?i \<in> set (made_ids D ?h)" "?i \<in> set (destroyed_ids D ?h)"
      using runs_origin [OF runs served] runs_release [OF runs served ne last lib] new by auto
    then have "length (orphans D ?h) < length (made_ids D ?h)"
      unfolding orphans_def by (intro length_filter_less) auto
    then show ?thesis using bound False by (simp add: recorded_def)
  qed
qed

end

section \<open>Histories of the operator\<close>

text \<open>The ids that the cloud answered to creations, those it agreed to destroy, and what is left of a history.\<close>

fun launched_id :: "ComputeCall \<Rightarrow> string option" where
  "launched_id (LaunchCall d (Inr x)) = (if InstId x = Some '''' then None else InstId x)"
| "launched_id _ = None"

fun terminated_id :: "ComputeCall \<Rightarrow> string option" where
  "terminated_id (TerminateCall i a) = (case a of Inl err \<Rightarrow> None | Inr u \<Rightarrow> i)"
| "terminated_id _ = None"

fun created_list_id :: "VcnCall \<Rightarrow> string option" where
  "created_list_id (CreateListCall d (Inr x)) = (if ListId x = Some '''' then None else ListId x)"
| "created_list_id _ = None"

fun deleted_list_id :: "VcnCall \<Rightarrow> string option" where
  "deleted_list_id (DeleteListCall i a) = (case a of Inl err \<Rightarrow> None | Inr u \<Rightarrow> i)"
| "deleted_list_id _ = None"

definition left_over :: "('o \<Rightarrow> string option) \<Rightarrow> ('o \<Rightarrow> string option) \<Rightarrow> ('r, 'o) Event list \<Rightarrow> string list" where
  "left_over f g evs = (let cs = oci_calls evs in
     filter (\<lambda>i. i \<notin> set (List.map_filter g cs)) (List.map_filter f cs))"

lemma instance_orphans: "orphans instanceDescriptor = left_over launched_id terminated_id"
proof -
  have "made_id (compute_kind c) = launched_id c" for c by (cases c rule: launched_id.cases) auto
  moreover have "destroyed_id (compute_kind c) = terminated_id c" for c
    by (cases c rule: compute_kind.cases) auto
  ultimately show ?thesis
    by (simp add: fun_eq_iff orphans_def left_over_def made_ids_def destroyed_ids_def Let_def)
qed

lemma policy_orphans: "orphans policyDescriptor = left_over created_list_id deleted_list_id"
proof -
  have "made_id (vcn_kind c) = created_list_id c" for c by (cases c rule: created_list_id.cases) auto
  moreover have "destroyed_id (vcn_kind c) = deleted_list_id c" for c
    by (cases c rule: vcn_kind.cases) auto
  ultimately show ?thesis
    by (simp add: fun_eq_iff orphans_def left_over_def made_ids_def destroyed_ids_def Let_def)
qed

text \<open>The finalizer prevents orphans but for lost ids. Take an instance that starts without an id, any work of the
  operator, and the moment at which an API server with optimistic concurrency has just accepted the release of
  the instance's finalizer. Of all instances that were launched for it, at most as many are left that the cloud
  was not told to terminate (or did not agree to) as status writes failed; with no failed status write, there are
  none. Stale reads, other writers, writes whose answer is lost, restarts and other objects make no
  difference. (Taken from the library: \<open>AddFinalizer\<close> adds, and \<open>RemoveFinalizer\<close> leaves the resource version.)\<close>
theorem operator_leaves_no_orphans:
  assumes h: "h = instanceHistory iext pext jobs w req"
    and "served inst_version inst_id vs h vs'" "proper inst_version vs" "inst_id (last vs) = ''''"
    and "h \<noteq> []" "last h = KUpdate y (Inr z)" "\<not> ContainsFinalizer iext y ociInstanceFinalizer"
    and "\<And>x. ContainsFinalizer iext (AddFinalizer iext x ociInstanceFinalizer) ociInstanceFinalizer"
    and "\<And>x. inst_version (RemoveFinalizer iext x ociInstanceFinalizer) = inst_version x"
  shows "length (left_over launched_id terminated_id h) \<le> failed_writes h"
proof -
  let ?runs = "runs_for req (instanceLog (operate iext pext jobs w))"
  have runs: "run_list instanceDescriptor iext req ?runs" by (rule instance_runs_refine)
  have h': "h = concat (map snd ?runs)" using h by (simp add: instanceHistory_def history_of_def)
  have ne: "?runs \<noteq> []" using assms(5) h' by auto
  have "length (orphans instanceDescriptor (concat (map snd ?runs))) \<le> failed_writes (concat (map snd ?runs))"
    by (rule inst_tracked.orphans_bound [OF runs _ assms(3) ne]) (use assms h' in simp_all)
  then show ?thesis by (simp add: h' instance_orphans)
qed

text \<open>The same for policies: when the release of a policy's finalizer is accepted, at most as many of the security
  lists that were created for it are left undeleted as status writes failed.\<close>
theorem operator_leaves_no_lists:
  assumes h: "h = policyHistory iext pext jobs w req"
    and "served pol_version pol_id vs h vs'" "proper pol_version vs" "pol_id (last vs) = ''''"
    and "h \<noteq> []" "last h = KUpdate y (Inr z)" "\<not> ContainsFinalizer pext y ociSecurityPolicyFinalizer"
    and "\<And>x. ContainsFinalizer pext (AddFinalizer pext x ociSecurityPolicyFinalizer) ociSecurityPolicyFinalizer"
    and "\<And>x. pol_version (RemoveFinalizer pext x ociSecurityPolicyFinalizer) = pol_version x"
  shows "length (left_over created_list_id deleted_list_id h) \<le> failed_writes h"
proof -
  let ?runs = "runs_for req (policyLog (operate iext pext jobs w))"
  have runs: "run_list policyDescriptor pext req ?runs" by (rule policy_runs_refine)
  have h': "h = concat (map snd ?runs)" using h by (simp add: policyHistory_def history_of_def)
  have ne: "?runs \<noteq> []" using assms(5) h' by auto
  have "length (orphans policyDescriptor (concat (map snd ?runs))) \<le> failed_writes (concat (map snd ?runs))"
    by (rule pol_tracked.orphans_bound [OF runs _ assms(3) ne]) (use assms h' in simp_all)
  then show ?thesis by (simp add: h' policy_orphans)
qed

end
