(* ===== verification/Cluster.thy ===== *)
theory Cluster
  imports Lifecycle Orphans OtherWork
begin

text \<open>
  The operator against an API server with optimistic concurrency. \<open>Histories\<close> states the law on histories
  (\<open>served\<close>); here it is stated where the documentation states it, on the single calls, for a server whose
  versions of one object \<open>vers\<close> reads off the outside world. A cluster is such a server together with clouds,
  clocks and other work that leave the object to the server. In a cluster, all histories obey the law.
\<close>

section \<open>The law on calls\<close>

definition concurrency ::
    "('w \<Rightarrow> 'r list) \<Rightarrow> ('r \<Rightarrow> string) \<Rightarrow> ('r \<Rightarrow> 'k) \<Rightarrow> ('w, 'r, 'o) law" where
  "concurrency vers rv st w es w' \<longleftrightarrow> (proper rv (vers w) \<longrightarrow> served rv st (vers w) es (vers w'))"

text \<open>The object is left to the server and its other clients.\<close>

definition aside :: "('w \<Rightarrow> 'r list) \<Rightarrow> ('r \<Rightarrow> string) \<Rightarrow> ('r \<Rightarrow> 'k) \<Rightarrow> 'w \<Rightarrow> 'w \<Rightarrow> bool" where
  "aside vers rv st w w' \<longleftrightarrow> (proper rv (vers w) \<longrightarrow> others_write rv st (vers w) (vers w'))"

lemma others_write_trans:
  assumes "others_write rv st vs vm" "others_write rv st vm vs'"
  shows "others_write rv st vs vs'"
proof -
  obtain ws us where "vm = vs @ ws" "vs' = vm @ us" "distinct (map rv vs')"
    "\<forall>w\<in>set ws. st w = st (last vs)" "\<forall>u\<in>set us. st u = st (last vm)"
    using assms by (auto simp: others_write_def)
  then show ?thesis by (cases "ws = []") (auto simp: others_write_def)
qed

lemma served_after_others:
  "others_write rv st vs vm \<Longrightarrow> served rv st vm es vs' \<Longrightarrow> served rv st vs es vs'"
  by (cases es) (auto intro: others_write_trans)

lemma served_appendI:
  "served rv st vs es vm \<Longrightarrow> served rv st vm fs vs' \<Longrightarrow> served rv st vs (es @ fs) vs'"
proof (induction es arbitrary: vs)
  case Nil
  then show ?case by (auto intro: served_after_others)
next
  case (Cons e es)
  then obtain vs1 vs2 where "others_write rv st vs vs1" "answered rv st vs1 e vs2" "served rv st vs2 es vm" by auto
  with Cons.IH [of vs2] Cons.prems(2) show ?case by auto
qed

lemma concurrency_chained: "chained (concurrency vers rv st)"
  unfolding chained_def concurrency_def
  by (meson served_appendI served_proper)

lemma aside_order: "transp (aside vers rv st)" "reflp (aside vers rv st)"
proof -
  show "transp (aside vers rv st)"
    unfolding transp_def aside_def using others_write_trans others_write_proper by blast
  show "reflp (aside vers rv st)"
    unfolding reflp_def aside_def using others_write_refl by blast
qed

text \<open>What is kept of the status may be coarser.\<close>

lemma served_coarser:
  assumes "served rv st vs es vs'"
  shows "served rv (\<lambda>x. f (st x)) vs es vs'"
  using assms
proof (induction es arbitrary: vs)
  case Nil
  then show ?case by (auto simp: others_write_def)
next
  case (Cons e es)
  have "others_write rv st vs v1 \<Longrightarrow> others_write rv (\<lambda>x. f (st x)) vs v1" for vs v1 by (auto simp: others_write_def)
  moreover have "answered rv st vs e v1 \<Longrightarrow> answered rv (\<lambda>x. f (st x)) vs e v1" for vs v1
    by (induction rv st vs e v1 rule: answered.induct) (simp_all, metis)
  ultimately show ?case using Cons by (simp only: served.simps) blast
qed

section \<open>Clusters\<close>

lemma chainedD: "chained L \<Longrightarrow> L w es w1 \<Longrightarrow> L w1 fs w2 \<Longrightarrow> L w (es @ fs) w2"
  unfolding chained_def by blast

text \<open>
  The server obeys the law for the object \<open>req\<close>, the clouds and the clock leave the object to it, and so does
  all other work. The keys, objects and clients that the runs for \<open>req\<close> meet (\<open>own\<close>, \<open>good\<close>), and those that
  the other runs meet, are of one's choice.
\<close>

definition instance_cluster ::
    "('w \<Rightarrow> OCIInstance list) \<Rightarrow> NamespacedName \<Rightarrow> 'w InstanceExt \<Rightarrow> 'w PolicyExt \<Rightarrow> 'w Job list \<Rightarrow> bool" where
  "instance_cluster vers req iext pext jobs \<longleftrightarrow> (\<exists>own good iown pown pgood.
     let L = concurrency vers inst_version OCIInstance.Status in
     lawful_ext L InstMeta (\<lambda>k. k = req) own good iext \<and> (\<forall>c. good c \<longrightarrow> lawful_compute L c) \<and>
     bystanders (aside vers inst_version OCIInstance.Status) (\<lambda>k. k \<noteq> req) iown good (\<lambda>_. True) pown pgood
       iext pext jobs)"

definition policy_cluster ::
    "('w \<Rightarrow> OCISecurityPolicy list) \<Rightarrow> NamespacedName \<Rightarrow> 'w InstanceExt \<Rightarrow> 'w PolicyExt \<Rightarrow> 'w Job list \<Rightarrow> bool" where
  "policy_cluster vers req iext pext jobs \<longleftrightarrow> (\<exists>own good pown iown igood.
     let L = concurrency vers pol_version OCISecurityPolicy.Status in
     lawful_ext L PolMeta (\<lambda>k. k = req) own good pext \<and> (\<forall>c. good c \<longrightarrow> lawful_network L c) \<and>
     bystanders (aside vers pol_version OCISecurityPolicy.Status) (\<lambda>_. True) iown igood (\<lambda>k. k \<noteq> req) pown good
       iext pext jobs)"

lemma history_of_append [simp]:
  "history_of req (log @ [(k, out, evs)]) = history_of req log @ (if k = req then evs else [])"
  by (simp add: history_of_def runs_for_def)

lemma concurrency_refl: "concurrency vers rv st w [] w"
  by (simp add: concurrency_def others_write_refl)

text \<open>The history so far, and what other work adds to it: nothing, or writes of others.\<close>

lemma aside_concurrency:
  "concurrency vers rv st w es w1 \<Longrightarrow> aside vers rv st w1 w2 \<Longrightarrow> concurrency vers rv st w es w2"
  using served_appendI [of rv st "vers w" es "vers w1" "[]"] served_proper
  unfolding concurrency_def aside_def by fastforce

lemma other_history:
  "other_job (\<lambda>k. k \<noteq> req) pkeys job \<Longrightarrow>
   history_of req (instanceLog (perform iext pext job p)) = history_of req (instanceLog p)"
  "other_job ikeys (\<lambda>k. k \<noteq> req) job \<Longrightarrow>
   history_of req (policyLog (perform iext pext job p)) = history_of req (policyLog p)"
  by (cases job rule: Job.exhaust; simp add: run_instance_logs run_policy_logs)+

text \<open>A run for the object itself.\<close>

lemma lawful_run_instance:
  assumes "lawful_ext L InstMeta (\<lambda>k. k = req) own good iext" "\<And>c. good c \<Longrightarrow> lawful_compute L c" "chained L"
    and "L (outside p) [] (outside p)" "\<forall>c. instanceClient p = Some c \<longrightarrow> good c"
  shows "L (outside p) (events (Reconcile iext req) (instance_view p)) (outside (run_instance iext req p)) \<and>
    (\<forall>c. instanceClient (run_instance iext req p) = Some c \<longrightarrow> good c)"
proof -
  have "lawful_since L good (instance_view p) (instance_view p)"
    using assms(4,5) by (intro lawful_start) simp_all
  from lawful_instance [OF assms(3,1,2) _ this, of req]
  have "lawful_since L good (instance_view p) (final (Reconcile iext req) (instance_view p))"
    by (simp add: post_outcome)
  then show ?thesis by (auto simp: lawful_since_def run_instance_view events_def)
qed

lemma lawful_run_policy:
  assumes "lawful_ext L PolMeta (\<lambda>k. k = req) own good pext" "\<And>c. good c \<Longrightarrow> lawful_network L c" "chained L"
    and "L (outside p) [] (outside p)" "\<forall>c. policyClient p = Some c \<longrightarrow> good c"
  shows "L (outside p) (events (ReconcilePolicy pext req) (policy_view p)) (outside (run_policy pext req p)) \<and>
    (\<forall>c. policyClient (run_policy pext req p) = Some c \<longrightarrow> good c)"
proof -
  have "lawful_since L good (policy_view p) (policy_view p)"
    using assms(4,5) by (intro lawful_start) simp_all
  from lawful_policy [OF assms(3,1,2) _ this, of req]
  have "lawful_since L good (policy_view p) (final (ReconcilePolicy pext req) (policy_view p))"
    by (simp add: post_outcome)
  then show ?thesis by (auto simp: lawful_since_def run_policy_view events_def)
qed

text \<open>In a cluster the histories obey the law.\<close>

lemma instance_cluster_served:
  fixes w :: 'w
  assumes "instance_cluster vers req iext pext jobs" "proper inst_version (vers w)"
  shows "served inst_version OCIInstance.Status (vers w) (instanceHistory iext pext jobs w req)
    (vers (outside (operate iext pext jobs w)))"
proof -
  let ?L = "concurrency vers inst_version OCIInstance.Status :: ('w, OCIInstance, ComputeCall) law"
  obtain own good iown pown pgood where L: "lawful_ext ?L InstMeta (\<lambda>k. k = req) own good iext"
    "\<And>c. good c \<Longrightarrow> lawful_compute ?L c"
    and b: "bystanders (aside vers inst_version OCIInstance.Status) (\<lambda>k. k \<noteq> req) iown good (\<lambda>_. True) pown pgood
      iext pext jobs"
    using assms(1) by (auto simp: instance_cluster_def Let_def)
  let ?P = "\<lambda>p. ?L w (history_of req (instanceLog p)) (outside p) \<and> good_clients good pgood p"
  have "?P (operate iext pext jobs w)"
  proof (rule operate_invariant)
    show "?P (started w)"
      by (simp add: good_clients_def history_of_def runs_for_def) (simp add: started_def concurrency_refl)
  next
    fix job p
    assume job: "job \<in> set jobs" and p: "?P p"
    show "?P (perform iext pext job p)"
    proof (cases "other_job (\<lambda>k. k \<noteq> req) (\<lambda>_. True) job")
      case True
      from other_work [OF b aside_order job True conjunct2 [OF p]] p show ?thesis
        by (auto simp: other_history(1) [OF True] intro: aside_concurrency)
    next
      case False
      then have q: "perform iext pext job p = run_instance iext req p" by (cases job rule: Job.exhaust) simp_all
      have run: "?L (outside p) (events (Reconcile iext req) (instance_view p)) (outside (run_instance iext req p)) \<and>
        (\<forall>c. instanceClient (run_instance iext req p) = Some c \<longrightarrow> good c)"
        using p by (intro lawful_run_instance [OF L concurrency_chained concurrency_refl]) (simp_all add: good_clients_def)
      show ?thesis
        using chainedD [OF concurrency_chained conjunct1 [OF p] conjunct1 [OF run]] run p
        by (simp add: q run_instance_logs run_instance_view(3) good_clients_def)
    qed
  qed
  then show ?thesis using assms(2) by (simp add: concurrency_def instanceHistory_def)
qed

lemma policy_cluster_served:
  fixes w :: 'w
  assumes "policy_cluster vers req iext pext jobs" "proper pol_version (vers w)"
  shows "served pol_version OCISecurityPolicy.Status (vers w) (policyHistory iext pext jobs w req)
    (vers (outside (operate iext pext jobs w)))"
proof -
  let ?L = "concurrency vers pol_version OCISecurityPolicy.Status :: ('w, OCISecurityPolicy, VcnCall) law"
  obtain own good pown iown igood where L: "lawful_ext ?L PolMeta (\<lambda>k. k = req) own good pext"
    "\<And>c. good c \<Longrightarrow> lawful_network ?L c"
    and b: "bystanders (aside vers pol_version OCISecurityPolicy.Status) (\<lambda>_. True) iown igood (\<lambda>k. k \<noteq> req) pown good
      iext pext jobs"
    using assms(1) by (auto simp: policy_cluster_def Let_def)
  let ?P = "\<lambda>p. ?L w (history_of req (policyLog p)) (outside p) \<and> good_clients igood good p"
  have "?P (operate iext pext jobs w)"
  proof (rule operate_invariant)
    show "?P (started w)"
      by (simp add: good_clients_def history_of_def runs_for_def) (simp add: started_def concurrency_refl)
  next
    fix job p
    assume job: "job \<in> set jobs" and p: "?P p"
    show "?P (perform iext pext job p)"
    proof (cases "other_job (\<lambda>_. True) (\<lambda>k. k \<noteq> req) job")
      case True
      from other_work [OF b aside_order job True conjunct2 [OF p]] p show ?thesis
        by (auto simp: other_history(2) [OF True] intro: aside_concurrency)
    next
      case False
      then have q: "perform iext pext job p = run_policy pext req p" by (cases job rule: Job.exhaust) simp_all
      have run: "?L (outside p) (events (ReconcilePolicy pext req) (policy_view p)) (outside (run_policy pext req p)) \<and>
        (\<forall>c. policyClient (run_policy pext req p) = Some c \<longrightarrow> good c)"
        using p by (intro lawful_run_policy [OF L concurrency_chained concurrency_refl]) (simp_all add: good_clients_def)
      show ?thesis
        using chainedD [OF concurrency_chained conjunct1 [OF p] conjunct1 [OF run]] run p
        by (simp add: q run_policy_logs run_policy_view(3) good_clients_def)
    qed
  qed
  then show ?thesis using assms(2) by (simp add: concurrency_def policyHistory_def)
qed

end
