(* ===== verification/StoreWorlds.thy ===== *)
theory StoreWorlds
  imports SharedWorlds Cluster
begin

text \<open>
  Clusters that compute, for the witnesses about clusters: an API server that keeps all versions of an object
  under distinct resource versions, with other clients, stale caches, refused calls and lost answers, all from
  a script; and clouds that answer from the same script. No property is about them.
\<close>

section \<open>A versioned store\<close>

text \<open>
  One turn per call: what other clients write to the metadata just before, how old a version a read returns,
  and what becomes of the call.
\<close>

datatype Fate = Through | Refused | Lost

record Turn =
  t_others :: "(ObjectMeta \<Rightarrow> ObjectMeta) list"
  t_lag :: nat
  t_fate :: Fate

record 'r Store =
  s_versions :: "'r list"
  s_turns :: "Turn list"
  s_next :: nat

definition calm :: Turn where
  "calm = \<lparr>t_others = [], t_lag = 0, t_fate = Through\<rparr>"

definition next_turn :: "'r Store \<Rightarrow> Turn" where
  "next_turn w = (case s_turns w of [] \<Rightarrow> calm | t # ts \<Rightarrow> t)"

definition version_of :: "'r Parts \<Rightarrow> 'r \<Rightarrow> string" where
  "version_of P x = ResourceVersion (meta_of P x)"

definition fresh_version :: "'r Parts \<Rightarrow> 'r list \<Rightarrow> string" where
  "fresh_version P vs = version_text (Suc (foldr (\<lambda>x n. max (length (version_of P x)) n) vs 0))"

definition commit :: "'r Parts \<Rightarrow> 'r \<Rightarrow> 'r list \<Rightarrow> 'r list" where
  "commit P z vs = vs @ [with_meta P ((meta_of P z)\<lparr>ResourceVersion := fresh_version P vs\<rparr>) z]"

definition others_turn :: "'r Parts \<Rightarrow> Turn \<Rightarrow> 'r list \<Rightarrow> 'r list" where
  "others_turn P t vs =
     fold (\<lambda>f vs. commit P (with_meta P (f (meta_of P (last vs))) (last vs)) vs) (t_others t) vs"

definition removed :: "'r Parts \<Rightarrow> 'r \<Rightarrow> bool" where
  "removed P x \<longleftrightarrow> DeletionTimestamp (meta_of P x) \<noteq> None \<and> Finalizers (meta_of P x) = []"

definition stale :: "'r list \<Rightarrow> nat \<Rightarrow> 'r" where
  "stale vs lag = rev vs ! min lag (length vs - 1)"

definition store_read :: "'r Parts \<Rightarrow> 'r Store \<Rightarrow> (go_error + 'r) \<times> 'r Store" where
  "store_read P w = (let t = next_turn w; vs = others_turn P t (s_versions w); x = stale vs (t_lag t) in
     (if removed P x then Inl not_found_error else Inr x, w\<lparr>s_versions := vs, s_turns := tl (s_turns w)\<rparr>))"

definition store_write :: "'r Parts \<Rightarrow> ('r \<Rightarrow> 'r \<Rightarrow> 'r) \<Rightarrow> 'r \<Rightarrow> 'r Store \<Rightarrow> (go_error + 'r) \<times> 'r Store" where
  "store_write P merge y w = (let t = next_turn w; vs = others_turn P t (s_versions w); x = last vs;
       w' = w\<lparr>s_versions := vs, s_turns := tl (s_turns w)\<rparr>; vs' = commit P (merge y x) vs in
     if removed P x then (Inl not_found_error, w')
     else if t_fate t = Refused \<or> version_of P y \<noteq> version_of P x then (Inl conflict_error, w')
     else (if t_fate t = Lost then Inl cloud_error else Inr (last vs'), w'\<lparr>s_versions := vs'\<rparr>))"

definition store_ext :: "'r Parts \<Rightarrow> 'c \<Rightarrow> ('r Store, 'r, 'c) Ext" where
  "store_ext P c = \<lparr>
     K8s = \<lparr>Get = (\<lambda>key. store_read P),
       Update = store_write P (\<lambda>y x. with_status_of P x y),
       StatusUpdate = store_write P (\<lambda>y x. with_status_of P y x)\<rparr>,
     IsNotFound = (\<lambda>e. e = not_found_error), IsZero = (\<lambda>t. t = None),
     ContainsFinalizer = (\<lambda>x f. f \<in> set (Finalizers (meta_of P x))),
     AddFinalizer = (\<lambda>x f. with_meta P ((meta_of P x)\<lparr>Finalizers := Finalizers (meta_of P x) @ [f]\<rparr>) x),
     RemoveFinalizer = (\<lambda>x f. with_meta P
       ((meta_of P x)\<lparr>Finalizers := filter (\<lambda>g. g \<noteq> f) (Finalizers (meta_of P x))\<rparr>) x),
     ObjectKeyFromObject = (\<lambda>x. demo_request),
     NewSdkClient = (\<lambda>w. (Inr c, w)), Now = (\<lambda>w. (0, w))\<rparr>"

section \<open>The clouds\<close>

text \<open>A call that is not refused succeeds; a creation hands out the next id.\<close>

definition cloud_turn :: "(nat \<Rightarrow> 'a) \<Rightarrow> 'r Store \<Rightarrow> (go_error + 'a) \<times> 'r Store" where
  "cloud_turn f w = (if t_fate (next_turn w) = Through then Inr (f (s_next w)) else Inl cloud_error,
     w\<lparr>s_turns := tl (s_turns w), s_next := Suc (s_next w)\<rparr>)"

definition new_id :: "nat \<Rightarrow> string" where
  "new_id n = ''id'' @ version_text n"

definition store_compute :: "'r Store OCIComputeClient" where
  "store_compute = \<lparr>
     LaunchInstance = (\<lambda>d. cloud_turn (\<lambda>n. \<lparr>InstId = Some (new_id n),
       InstLifecycleState = InstanceLifecycleStateProvisioning\<rparr>)),
     GetInstance = (\<lambda>i. cloud_turn (\<lambda>n. \<lparr>InstId = i, InstLifecycleState = InstanceLifecycleStateRunning\<rparr>)),
     TerminateInstance = (\<lambda>i. cloud_turn (\<lambda>n. ()))\<rparr>"

definition store_network :: "'r Store OCIVirtualNetworkClient" where
  "store_network = \<lparr>
     CreateSecurityList = (\<lambda>d. cloud_turn (\<lambda>n. \<lparr>ListId = Some (new_id n),
       ListLifecycleState = SecurityListLifecycleStateProvisioning\<rparr>)),
     GetSecurityList = (\<lambda>i. cloud_turn (\<lambda>n. \<lparr>ListId = i, ListLifecycleState = SecurityListLifecycleStateAvailable\<rparr>)),
     DeleteSecurityList = (\<lambda>i. cloud_turn (\<lambda>n. ()))\<rparr>"

section \<open>The store obeys the law\<close>

lemma version_text_length [simp]: "length (version_text n) = n"
  by (simp add: version_text_def)

locale store =
  fixes P :: "'r Parts" and st :: "'r \<Rightarrow> 'k"
  assumes meta [simp]: "meta_of P (with_meta P m x) = m"
    and status_meta [simp]: "st (with_meta P m x) = st x"
    and status [simp]: "st (with_status_of P y x) = st y"
begin

lemma fresh: "fresh_version P vs \<notin> version_of P ` set vs"
proof -
  have "length (version_of P x) \<le> foldr (\<lambda>x n. max (length (version_of P x)) n) vs 0" if "x \<in> set vs" for x
    using that by (induction vs) auto
  then have "length (version_of P x) < length (fresh_version P vs)" if "x \<in> set vs" for x
    using that by (simp add: fresh_version_def less_Suc_eq_le)
  then show ?thesis by fastforce
qed

lemma commit_last: "version_of P (last (commit P z vs)) = fresh_version P vs" "st (last (commit P z vs)) = st z"
  by (simp_all add: commit_def version_of_def)

lemma commit_committed: "committed (version_of P) vs (last (commit P z vs)) (commit P z vs)"
  using fresh [of vs] commit_last(1) [of z vs] by (simp add: committed_def commit_def)

lemma commit_others:
  assumes "proper (version_of P) vs"
  shows "others_write (version_of P) st vs (commit P (with_meta P m (last vs)) vs)"
  using assms fresh [of vs] by (auto simp: others_write_def commit_def proper_def version_of_def)

lemma others_turn_write:
  assumes "proper (version_of P) vs"
  shows "others_write (version_of P) st vs (others_turn P t vs)"
proof -
  have "others_write (version_of P) st vs (fold (\<lambda>f vs. commit P (with_meta P (f (meta_of P (last vs))) (last vs)) vs) fs vs)"
    if "proper (version_of P) vs" for fs vs
    using that
  proof (induction fs arbitrary: vs)
    case Nil
    then show ?case by (simp add: others_write_refl)
  next
    case (Cons f fs)
    note step = commit_others [OF Cons.prems, of "f (meta_of P (last vs))"]
    show ?case
      using others_write_trans [OF step Cons.IH] others_write_proper [OF step Cons.prems] by simp
  qed
  with assms show ?thesis by (simp add: others_turn_def)
qed

lemma stale_old: "vs \<noteq> [] \<Longrightarrow> stale vs n \<in> set vs"
proof -
  assume "vs \<noteq> []"
  then have "min n (length vs - 1) < length (rev vs)" by (simp add: min_less_iff_disj)
  then have "rev vs ! min n (length vs - 1) \<in> set (rev vs)" by (rule nth_mem)
  then show ?thesis by (simp add: stale_def)
qed

text \<open>Reads, writes of the object, and writes of the status.\<close>

lemma one_call:
  assumes "others_write (version_of P) st vs vs1" "proper (version_of P) vs" "answered (version_of P) st vs1 e vs2"
  shows "served (version_of P) st vs [e] vs2"
proof -
  have "proper (version_of P) vs1" using others_write_proper [OF assms(1,2)] by blast
  moreover from answered_proper [OF assms(3) this] have "proper (version_of P) vs2" by blast
  ultimately show ?thesis
    by (intro served_after_others [OF assms(1)] served_step [OF _ assms(3)] served_done)
qed

lemma store_read_lawful: "lawful_call (concurrency s_versions (version_of P) st) (store_read P) (\<lambda>r. [KGet k r])"
  unfolding lawful_call_def concurrency_def
proof (intro allI impI)
  fix w :: "'r Store"
  assume v: "proper (version_of P) (s_versions w)"
  let ?vs = "others_turn P (next_turn w) (s_versions w)"
  note o = others_turn_write [OF v, of "next_turn w"]
  have "?vs \<noteq> []" using others_write_proper [OF o v] by (simp add: proper_def)
  then have "answered (version_of P) st ?vs (KGet k (fst (store_read P w))) ?vs"
    using stale_old [of ?vs] by (simp add: store_read_def Let_def)
  from one_call [OF o v this] show "served (version_of P) st (s_versions w) [KGet k (fst (store_read P w))]
      (s_versions (snd (store_read P w)))"
    by (simp add: store_read_def Let_def)
qed

lemma store_write_lawful:
  assumes "\<And>vs r vs'. (case r of Inl err \<Rightarrow> vs' = vs \<or> version_of P y = version_of P (last vs) \<and>
        vs' = commit P (merge y (last vs)) vs
      | Inr z \<Rightarrow> version_of P y = version_of P (last vs) \<and> z = last vs' \<and> vs' = commit P (merge y (last vs)) vs) \<Longrightarrow>
    proper (version_of P) vs \<Longrightarrow> served (version_of P) st vs [ev r] vs'"
  shows "lawful_call (concurrency s_versions (version_of P) st) (store_write P merge y) (\<lambda>r. [ev r])"
  unfolding lawful_call_def concurrency_def
proof (intro allI impI)
  fix w :: "'r Store"
  assume v: "proper (version_of P) (s_versions w)"
  let ?vs = "others_turn P (next_turn w) (s_versions w)" and ?r = "store_write P merge y w"
  note o = others_turn_write [OF v, of "next_turn w"]
  have "served (version_of P) st ?vs [ev (fst ?r)] (s_versions (snd ?r))"
    using others_write_proper [OF o v] by (intro assms) (simp_all add: store_write_def Let_def split: sum.split)
  then show "served (version_of P) st (s_versions w) [ev (fst ?r)] (s_versions (snd ?r))"
    by (rule served_after_others [OF o])
qed

lemma store_writes_lawful:
  "lawful_call (concurrency s_versions (version_of P) st)
     (store_write P (\<lambda>y x. with_status_of P x y) y) (\<lambda>r. [KUpdate y r])"
  "lawful_call (concurrency s_versions (version_of P) st)
     (store_write P (\<lambda>y x. with_status_of P y x) y) (\<lambda>r. [KStatusUpdate y r])"
proof -
  have rewrite: "others_write (version_of P) st vs (commit P (with_status_of P (last vs) y) vs)"
    if "proper (version_of P) vs" for vs
    using that fresh [of vs] by (auto simp: others_write_def commit_def proper_def version_of_def)
  have last: "st (last (commit P z vs)) = st z" for z vs by (rule commit_last)
  show "lawful_call (concurrency s_versions (version_of P) st)
     (store_write P (\<lambda>y x. with_status_of P x y) y) (\<lambda>r. [KUpdate y r])"
  proof (rule store_write_lawful)
    fix vs vs' and r :: "go_error + 'r"
    assume c: "case r of Inl err \<Rightarrow> vs' = vs \<or> version_of P y = version_of P (last vs) \<and>
        vs' = commit P (with_status_of P (last vs) y) vs
      | Inr z \<Rightarrow> version_of P y = version_of P (last vs) \<and> z = last vs' \<and> vs' = commit P (with_status_of P (last vs) y) vs"
      and v: "proper (version_of P) vs"
    show "served (version_of P) st vs [KUpdate y r] vs'"
    proof (cases r)
      case (Inl err)
      then have "others_write (version_of P) st vs vs'" using c v rewrite [OF v] by (auto intro: others_write_refl)
      moreover have "answered (version_of P) st vs' (KUpdate y r) vs'" by (simp add: Inl)
      ultimately show ?thesis using v by (intro one_call)
    next
      case (Inr z)
      then have "answered (version_of P) st vs (KUpdate y r) vs'"
        using c last [of "with_status_of P (last vs) y" vs] commit_committed [of vs] by auto
      then show ?thesis by (rule one_call [OF others_write_refl [OF v] v])
    qed
  qed
  show "lawful_call (concurrency s_versions (version_of P) st)
     (store_write P (\<lambda>y x. with_status_of P y x) y) (\<lambda>r. [KStatusUpdate y r])"
  proof (rule store_write_lawful)
    fix vs vs' and r :: "go_error + 'r"
    assume c: "case r of Inl err \<Rightarrow> vs' = vs \<or> version_of P y = version_of P (last vs) \<and>
        vs' = commit P (with_status_of P y (last vs)) vs
      | Inr z \<Rightarrow> version_of P y = version_of P (last vs) \<and> z = last vs' \<and> vs' = commit P (with_status_of P y (last vs)) vs"
      and v: "proper (version_of P) vs"
    have "answered (version_of P) st vs (KStatusUpdate y r) vs'"
      using c last [of "with_status_of P y (last vs)" vs] commit_committed [of vs] by (cases r) fastforce+
    then show "served (version_of P) st vs [KStatusUpdate y r] vs'"
      by (rule one_call [OF others_write_refl [OF v] v])
  qed
qed

lemma silent_lawful:
  assumes "\<And>w. s_versions (snd (f w)) = s_versions w" "\<And>a vs. answered (version_of P) st vs (ev a) vs"
  shows "lawful_call (concurrency s_versions (version_of P) st) f (\<lambda>r. [ev r])"
  unfolding lawful_call_def concurrency_def using assms by (auto intro: one_call others_write_refl simp del: served.simps)

lemma store_lawful:
  "lawful_ext (concurrency s_versions (version_of P) st) m (\<lambda>k. k = demo_request) (\<lambda>_. True) (\<lambda>c'. c' = c) (store_ext P c)"
proof -
  have "lawful_call (concurrency s_versions (version_of P) st) (NewSdkClient (store_ext P c))
      (\<lambda>r. [SdkClient (case r of Inl e \<Rightarrow> Some e | Inr _ \<Rightarrow> None)])"
    by (rule silent_lawful) (simp_all add: store_ext_def)
  moreover have "lawful_call (concurrency s_versions (version_of P) st) (Now (store_ext P c)) (\<lambda>_. [])"
    by (simp add: lawful_call_def store_ext_def concurrency_refl)
  ultimately show ?thesis
    using store_read_lawful store_writes_lawful by (simp add: lawful_ext_def lawful_answer_def lawful_call_def store_ext_def) blast
qed

end

interpretation inst_store: store inst_parts OCIInstance.Status
  by unfold_locales (simp_all add: inst_parts_def)

interpretation pol_store: store pol_parts OCISecurityPolicy.Status
  by unfold_locales (simp_all add: pol_parts_def)

lemma store_versions [simp]: "version_of inst_parts = inst_version" "version_of pol_parts = pol_version"
  by (simp_all add: fun_eq_iff version_of_def inst_parts_def pol_parts_def)

section \<open>Two stores in one world\<close>

context part
begin

lemma part_concurrency:
  "lawful_call (concurrency vers rv st) f ev \<Longrightarrow> lawful_call (concurrency (vers \<circ> get) rv st) (on_part get put f) ev"
  by (simp add: lawful_call_def concurrency_def on_part_def)

lemma part_lawful:
  assumes "lawful_ext (concurrency vers rv st :: ('u, 'r, 'o) law) m (\<lambda>k. k = demo_request) (\<lambda>_. True) good ext"
  shows "lawful_ext (concurrency (vers \<circ> get) rv st :: ('w, 'r, 'o) law) m (\<lambda>k. k = demo_request) (\<lambda>_. True) (\<lambda>c'. c' = c)
    (part_ext get put c ext)"
proof -
  have any: "lawful_answer L (\<lambda>_. True) f ev \<longleftrightarrow> lawful_call L f ev" for L f ev
    by (simp add: lawful_answer_def lawful_call_def)
  have "lawful_answer (concurrency (vers \<circ> get) rv st :: ('w, 'r, 'o) law) (\<lambda>c'. c' = c) (\<lambda>w. (Inr c, w))
      (\<lambda>r. [SdkClient (case r of Inl e \<Rightarrow> Some e | Inr _ \<Rightarrow> None)])"
    by (auto simp: lawful_answer_def concurrency_def simp del: served.simps intro: served_silent served_done)
  with assms show ?thesis by (auto simp: lawful_ext_def any part_ext_def intro: part_concurrency)
qed

end

type_synonym Stores = "OCIInstance Store \<times> OCISecurityPolicy Store"

definition store_iext :: "Stores InstanceExt" where
  "store_iext = part_ext fst put_fst (part_compute fst put_fst store_compute) (store_ext inst_parts ())"

definition store_pext :: "Stores PolicyExt" where
  "store_pext = part_ext snd put_snd (part_network snd put_snd store_network) (store_ext pol_parts ())"

lemma quiet_store_clouds:
  "quiet_compute (aside (s_versions \<circ> fst) rv st) (part_compute fst put_fst store_compute)"
  "quiet_network (aside (s_versions \<circ> snd) rv st') (part_network snd put_snd store_network)"
  by (auto simp: quiet_compute_def quiet_network_def quiet_call_def part_defs store_compute_def store_network_def
      aside_def cloud_turn_def put_fst_def put_snd_def intro: others_write_refl)

lemma instance_cloud_lawful:
  "lawful_call (concurrency (s_versions \<circ> fst) inst_version OCIInstance.Status) (on_part fst put_fst (cloud_turn f)) (\<lambda>r. [Oci (ev r)])"
  using inst_part.part_concurrency [OF inst_store.silent_lawful [of "cloud_turn f" "\<lambda>r. Oci (ev r)"]]
  by (simp add: cloud_turn_def)

lemma store_instance_cluster:
  assumes "\<And>f. Elsewhere f \<notin> set jobs"
  shows "instance_cluster (s_versions \<circ> fst) demo_request store_iext store_pext jobs"
proof -
  let ?L = "concurrency (s_versions \<circ> fst) inst_version OCIInstance.Status :: (Stores, OCIInstance, ComputeCall) law"
  have "lawful_compute ?L (part_compute fst put_fst store_compute)"
    by (simp add: lawful_compute_def part_compute_def store_compute_def instance_cloud_lawful)
  moreover have "bystanders (aside (s_versions \<circ> fst) inst_version OCIInstance.Status) (\<lambda>k. k \<noteq> demo_request) (\<lambda>_. False)
      (\<lambda>c'. c' = part_compute fst put_fst store_compute) (\<lambda>_. True) (\<lambda>_. True)
      (\<lambda>c'. c' = part_network snd put_snd store_network) store_iext store_pext jobs"
    unfolding store_iext_def store_pext_def
    using assms quiet_store_clouds(1)
    by (intro beside_instances aside_order(2))
      (auto simp: aside_def put_fst_def put_snd_def store_ext_def intro: others_write_refl)
  moreover have "lawful_ext ?L InstMeta (\<lambda>k. k = demo_request) (\<lambda>_. True)
      (\<lambda>c'. c' = part_compute fst put_fst store_compute) store_iext"
    unfolding store_iext_def using inst_part.part_lawful [OF inst_store.store_lawful] by simp
  ultimately show ?thesis unfolding instance_cluster_def Let_def by blast
qed

lemma policy_cloud_lawful:
  "lawful_call (concurrency (s_versions \<circ> snd) pol_version OCISecurityPolicy.Status) (on_part snd put_snd (cloud_turn f)) (\<lambda>r. [Oci (ev r)])"
  using pol_part.part_concurrency [OF pol_store.silent_lawful [of "cloud_turn f" "\<lambda>r. Oci (ev r)"]]
  by (simp add: cloud_turn_def)

lemma store_policy_cluster:
  assumes "\<And>f. Elsewhere f \<notin> set jobs"
  shows "policy_cluster (s_versions \<circ> snd) demo_request store_iext store_pext jobs"
proof -
  let ?L = "concurrency (s_versions \<circ> snd) pol_version OCISecurityPolicy.Status :: (Stores, OCISecurityPolicy, VcnCall) law"
  have "lawful_network ?L (part_network snd put_snd store_network)"
    by (simp add: lawful_network_def part_network_def store_network_def policy_cloud_lawful)
  moreover have "bystanders (aside (s_versions \<circ> snd) pol_version OCISecurityPolicy.Status) (\<lambda>_. True) (\<lambda>_. True)
      (\<lambda>c'. c' = part_compute fst put_fst store_compute) (\<lambda>k. k \<noteq> demo_request) (\<lambda>_. False)
      (\<lambda>c'. c' = part_network snd put_snd store_network) store_iext store_pext jobs"
    unfolding store_iext_def store_pext_def
    using assms quiet_store_clouds(2)
    by (intro beside_policies aside_order(2))
      (auto simp: aside_def put_fst_def put_snd_def store_ext_def intro: others_write_refl)
  moreover have "lawful_ext ?L PolMeta (\<lambda>k. k = demo_request) (\<lambda>_. True)
      (\<lambda>c'. c' = part_network snd put_snd store_network) store_pext"
    unfolding store_pext_def using pol_part.part_lawful [OF pol_store.store_lawful] by simp
  ultimately show ?thesis unfolding policy_cluster_def Let_def by blast
qed

end
