(* ===== verification/ClusterProperties.thy ===== *)
theory ClusterProperties
  imports StoreWorlds
begin

text \<open>
  What holds of the operator in a cluster. The bounds and machines of \<open>Operator\<close>, \<open>Lifecycle\<close> and \<open>Orphans\<close> are
  about histories that obey the law of optimistic concurrency; here they are stated for clusters, whose calls
  obey it. The witnesses are about the stores of \<open>StoreWorlds\<close>, for all scripts where that is possible.
\<close>

section \<open>Properties\<close>

text \<open>C1: Launched once. In a cluster, whatever work the operator does, each instance launched for an object beyond
  the first is paid for by a status write that failed, and an instance id that was recorded at the beginning is
  still there at the end. The cluster may answer reads from stale caches, let other clients write at any time,
  refuse calls, and lose the answers of writes that went through; the operator may work on other objects and
  be restarted.\<close>
theorem cluster_launches_once:
  assumes "instance_cluster vers req iext pext jobs" "proper inst_version (vers w)"
  shows "let h = instanceHistory iext pext jobs w req; vs' = vers (outside (operate iext pext jobs w)) in
    launches h \<le> Suc (failed_writes h) \<and>
    (inst_id (last (vers w)) = '''' \<or> inst_id (last vs') = inst_id (last (vers w)))"
  using operator_launches_once [OF served_coarser [OF instance_cluster_served [OF assms], of InstanceID] assms(2)]
  by (simp add: Let_def)

text \<open>C13: Created once. The same for policies: each security list created beyond the first is paid for by a status
  write that failed, and a recorded list id stays.\<close>
theorem cluster_creates_lists_once:
  assumes "policy_cluster vers req iext pext jobs" "proper pol_version (vers w)"
  shows "let h = policyHistory iext pext jobs w req; vs' = vers (outside (operate iext pext jobs w)) in
    list_creations h \<le> Suc (failed_writes h) \<and>
    (pol_id (last (vers w)) = '''' \<or> pol_id (last vs') = pol_id (last (vers w)))"
  using operator_creates_lists_once [OF served_coarser [OF policy_cluster_served [OF assms], of SecurityListID] assms(2)]
  by (simp add: Let_def)

text \<open>C2: The finalizer prevents orphans but for lost ids. Take an instance that starts without an id in a cluster,
  any work of the operator, and the moment at which the server has just accepted the release of the instance's
  finalizer. Of all instances that were launched for it, at most as many are left that the cloud was not told
  to terminate (or did not agree to) as status writes failed; with no failed status write, there are none.
  (Taken from the library: \<open>AddFinalizer\<close> adds, and \<open>RemoveFinalizer\<close> leaves the resource version.)\<close>
theorem cluster_leaves_no_orphans:
  assumes "instance_cluster vers req iext pext jobs" "proper inst_version (vers w)" "inst_id (last (vers w)) = ''''"
    and "\<And>x. ContainsFinalizer iext (AddFinalizer iext x ociInstanceFinalizer) ociInstanceFinalizer"
    and "\<And>x. inst_version (RemoveFinalizer iext x ociInstanceFinalizer) = inst_version x"
    and "instanceHistory iext pext jobs w req = evs @ [KUpdate y (Inr z)]"
    and "\<not> ContainsFinalizer iext y ociInstanceFinalizer"
  shows "length (left_over launched_id terminated_id (instanceHistory iext pext jobs w req)) \<le>
    failed_writes (instanceHistory iext pext jobs w req)"
  by (rule operator_leaves_no_orphans [OF refl served_coarser [OF instance_cluster_served [OF assms(1,2)], of InstanceID] assms(2,3)])
    (use assms(4-) in simp_all)

text \<open>C14: The same for policies: when the release of a policy's finalizer is accepted, at most as many of the security
  lists that were created for it are left undeleted as status writes failed.\<close>
theorem cluster_leaves_no_lists:
  assumes "policy_cluster vers req iext pext jobs" "proper pol_version (vers w)" "pol_id (last (vers w)) = ''''"
    and "\<And>x. ContainsFinalizer pext (AddFinalizer pext x ociSecurityPolicyFinalizer) ociSecurityPolicyFinalizer"
    and "\<And>x. pol_version (RemoveFinalizer pext x ociSecurityPolicyFinalizer) = pol_version x"
    and "policyHistory iext pext jobs w req = evs @ [KUpdate y (Inr z)]"
    and "\<not> ContainsFinalizer pext y ociSecurityPolicyFinalizer"
  shows "length (left_over created_list_id deleted_list_id (policyHistory iext pext jobs w req)) \<le>
    failed_writes (policyHistory iext pext jobs w req)"
  by (rule operator_leaves_no_lists [OF refl served_coarser [OF policy_cluster_served [OF assms(1,2)], of SecurityListID] assms(2,3)])
    (use assms(4-) in simp_all)

text \<open>C10: The statuses of an instance follow its machine. Whatever the operator does in a cluster, from the version
  at the start on, every version that the server stores has the status of the one before it or is one step of
  \<open>instance_move\<close> away. So if the versions at the start had a status that makes sense, all have: a phase that
  needs an instance only comes with an instance id, and only the declared phases occur.\<close>
theorem cluster_instance_statuses:
  assumes "instance_cluster vers req iext pext jobs" "proper inst_version (vers w)"
  shows "let vs' = vers (outside (operate iext pext jobs w)) in
    follows OCIInstance.Status instance_move (vers w) vs' \<and>
    ((\<forall>x\<in>set (vers w). instance_status_ok (OCIInstance.Status x)) \<longrightarrow>
     (\<forall>x\<in>set vs'. instance_status_ok (OCIInstance.Status x)))"
  using instance_statuses_follow_machine [OF instance_cluster_served [OF assms] assms(2)] by (simp add: Let_def)

text \<open>C11: The statuses of a policy follow its machine, \<open>policy_move\<close>, in the same way; of the states in which
  something is being done to a list or was done, all but Active imply that a list id is recorded.\<close>
theorem cluster_policy_statuses:
  assumes "policy_cluster vers req iext pext jobs" "proper pol_version (vers w)"
  shows "let vs' = vers (outside (operate iext pext jobs w)) in
    follows OCISecurityPolicy.Status policy_move (vers w) vs' \<and>
    ((\<forall>x\<in>set (vers w). policy_status_ok (OCISecurityPolicy.Status x)) \<longrightarrow>
     (\<forall>x\<in>set vs'. policy_status_ok (OCISecurityPolicy.Status x)))"
  using policy_statuses_follow_machine [OF policy_cluster_served [OF assms] assms(2)] by (simp add: Let_def)

section \<open>Such clusters\<close>

definition stores :: "OCIInstance list \<Rightarrow> Turn list \<Rightarrow> nat \<Rightarrow> OCISecurityPolicy list \<Rightarrow> Turn list \<Rightarrow> nat \<Rightarrow> Stores" where
  "stores xs ts n ys us m = (\<lparr>s_versions = xs, s_turns = ts, s_next = n\<rparr>, \<lparr>s_versions = ys, s_turns = us, s_next = m\<rparr>)"

lemma stores_versions [simp]:
  "s_versions (fst (stores xs ts n ys us m)) = xs" "s_versions (snd (stores xs ts n ys us m)) = ys"
  by (simp_all add: stores_def)

lemma stores_proper:
  "proper inst_version ((s_versions \<circ> fst) (stores [x] ts n ys us m))"
  "proper pol_version ((s_versions \<circ> snd) (stores xs ts n [y] us m))"
  by (simp_all add: proper_def)

lemma ready_ok:
  "instance_status_ok (OCIInstance.Status (inst_ready 1 '''' '''' 0))"
  "policy_status_ok (OCISecurityPolicy.Status (pol_ready 1 '''' '''' 0))"
  by (simp_all add: instance_status_ok_def inst_demo_facts policy_status_ok_def pol_demo_facts)

lemmas mixed_clusters = store_instance_cluster [OF mixed_work_here] store_policy_cluster [OF mixed_work_here]

text \<open>Whatever the servers' scripts are, with both controllers at work and restarted between.\<close>

theorem cluster_launches_once_witness:
  "\<forall>ts ys us k. let h = instanceHistory store_iext store_pext (mixed_work k) (stores [inst_ready 1 '''' '''' 0] ts 1 ys us 1)
      demo_request in launches h \<le> Suc (failed_writes h)"
  using cluster_launches_once [OF mixed_clusters(1) stores_proper(1)] by (simp add: Let_def)

theorem cluster_creates_lists_once_witness:
  "\<forall>xs ts us k. let h = policyHistory store_iext store_pext (mixed_work k) (stores xs ts 1 [pol_ready 1 '''' '''' 0] us 1)
      demo_request in list_creations h \<le> Suc (failed_writes h)"
  using cluster_creates_lists_once [OF mixed_clusters(2) stores_proper(2)] by (simp add: Let_def)

theorem cluster_instance_statuses_witness:
  "\<forall>ts ys us k. list_all (\<lambda>x. instance_status_ok (OCIInstance.Status x)) (s_versions (fst (outside
      (operate store_iext store_pext (mixed_work k) (stores [inst_ready 1 '''' '''' 0] ts 1 ys us 1)))))"
  using cluster_instance_statuses [OF mixed_clusters(1) stores_proper(1) [of "inst_ready 1 '''' '''' 0"]] ready_ok(1)
  by (simp add: Let_def list_all_iff)

theorem cluster_policy_statuses_witness:
  "\<forall>xs ts us k. list_all (\<lambda>y. policy_status_ok (OCISecurityPolicy.Status y)) (s_versions (snd (outside
      (operate store_iext store_pext (mixed_work k) (stores xs ts 1 [pol_ready 1 '''' '''' 0] us 1)))))"
  using cluster_policy_statuses [OF mixed_clusters(2) stores_proper(2) [of _ _ _ "pol_ready 1 '''' '''' 0"]] ready_ok(2)
  by (simp add: Let_def list_all_iff)

text \<open>A life: launched, the answer to the write of the id lost, restarted, deleted by another client, terminated.\<close>

definition deletion_mark :: Turn where
  "deletion_mark = calm\<lparr>t_others := [\<lambda>m. m\<lparr>DeletionTimestamp := Some 7\<rparr>]\<rparr>"

definition lost_answers :: Turn where
  "lost_answers = calm\<lparr>t_fate := Lost\<rparr>"

lemmas store_run_defs = store_iext_def store_pext_def part_defs store_ext_def store_compute_def store_network_def
  store_read_def store_write_def cloud_turn_def next_turn_def others_turn_def commit_def fresh_version_def
  version_of_def stale_def removed_def put_fst_def put_snd_def stores_def calm_def deletion_mark_def lost_answers_def
  version_text_def new_id_def inst_parts_def pol_parts_def demo_inst_def demo_pol_def demo_meta_def eval_nat_numeral

abbreviation life_script :: "Turn list" where
  "life_script \<equiv> [calm, calm, calm, lost_answers, deletion_mark]"

abbreviation "life_launched \<equiv>
  [inst_ready 1 '''' '''' 0, inst_ready 2 '''' ''Provisioning'' 0, inst_ready 3 ''idv'' ''Provisioning'' 1]"

definition launch_events :: "(OCIInstance, ComputeCall) Event list" where
  "launch_events = [KGet demo_request (Inr (inst_ready 1 '''' '''' 0)), SdkClient None,
     KStatusUpdate (inst_ready 1 '''' ''Provisioning'' 0) (Inr (inst_ready 2 '''' ''Provisioning'' 0)),
     Oci (LaunchCall (launchDetails demo_inst_spec)
     (Inr \<lparr>InstId = Some ''idv'', InstLifecycleState = InstanceLifecycleStateProvisioning\<rparr>)),
     KStatusUpdate (inst_ready 2 ''idv'' ''Provisioning'' 1) (Inl cloud_error)]"

lemma launching_life:
  assumes "world s = stores [inst_ready 1 '''' '''' 0] life_script 1 ys us m"
    and "calls s = []" "ociClient s = None"
  shows "post (Reconcile store_iext demo_request) (\<lambda>a t. world t = stores life_launched [deletion_mark] 2 ys us m \<and>
    calls t = launch_events) s"
  using assms
  by (simp add: inst_run_defs inst_setter_defs instance_phase_defs failed_and_observed_def store_run_defs launch_events_def)

definition close_events :: "(OCIInstance, ComputeCall) Event list" where
  "close_events = [KGet demo_request (Inr (demo_inst 4 [ociInstanceFinalizer] (Some 7) ''idv'' ''Provisioning'' 1)),
     SdkClient None, Oci (TerminateCall (Some ''idv'') (Inr ())),
     KUpdate (demo_inst 4 [] (Some 7) ''idv'' ''Provisioning'' 1)
     (Inr (demo_inst 5 [] (Some 7) ''idv'' ''Provisioning'' 1))]"

lemma closing_life:
  assumes "world s = stores life_launched [deletion_mark] 2 ys us m" "calls s = []" "ociClient s = None"
  shows "post (Reconcile store_iext demo_request) (\<lambda>a t.
    calls t = close_events) s"
  using assms
  by (simp add: inst_run_defs inst_setter_defs instance_phase_defs failed_and_observed_def store_run_defs close_events_def)

text \<open>Two runs with a restart in between.\<close>

lemma instance_life:
  assumes "\<And>s. world s = w0 \<Longrightarrow> calls s = [] \<Longrightarrow> ociClient s = None \<Longrightarrow>
      post (Reconcile iext req) (\<lambda>a t. world t = w1 \<and> calls t = es) s"
    and "\<And>s. world s = w1 \<Longrightarrow> calls s = [] \<Longrightarrow> ociClient s = None \<Longrightarrow>
      post (Reconcile iext req) (\<lambda>a t. calls t = fs) s"
  shows "instanceHistory iext pext [InstanceJob req, Restart, InstanceJob req] w0 req = es @ fs"
proof -
  let ?p = "restart (run_instance iext req (started w0))"
  have "world (final (Reconcile iext req) (instance_view (started w0))) = w1 \<and>
      events (Reconcile iext req) (instance_view (started w0)) = es"
    using assms(1) [of "instance_view (started w0)"] by (simp add: post_outcome events_def)
  moreover from this have "events (Reconcile iext req) (instance_view ?p) = fs"
    using assms(2) [of "instance_view ?p"] by (simp add: post_outcome events_def run_instance_view)
  ultimately show ?thesis
    by (simp add: instanceHistory_def operate_def run_instance_logs) (simp add: started_def history_of_def runs_for_def)
qed

lemma policy_life:
  assumes "\<And>s. world s = w0 \<Longrightarrow> calls s = [] \<Longrightarrow> ociClient s = None \<Longrightarrow>
      post (ReconcilePolicy pext req) (\<lambda>a t. world t = w1 \<and> calls t = es) s"
    and "\<And>s. world s = w1 \<Longrightarrow> calls s = [] \<Longrightarrow> ociClient s = None \<Longrightarrow>
      post (ReconcilePolicy pext req) (\<lambda>a t. calls t = fs) s"
  shows "policyHistory iext pext [PolicyJob req, Restart, PolicyJob req] w0 req = es @ fs"
proof -
  let ?p = "restart (run_policy pext req (started w0))"
  have "world (final (ReconcilePolicy pext req) (policy_view (started w0))) = w1 \<and>
      events (ReconcilePolicy pext req) (policy_view (started w0)) = es"
    using assms(1) [of "policy_view (started w0)"] by (simp add: post_outcome events_def)
  moreover from this have "events (ReconcilePolicy pext req) (policy_view ?p) = fs"
    using assms(2) [of "policy_view ?p"] by (simp add: post_outcome events_def run_policy_view)
  ultimately show ?thesis
    by (simp add: policyHistory_def operate_def run_policy_logs) (simp add: started_def history_of_def runs_for_def)
qed

abbreviation "life_created \<equiv>
  [pol_ready 1 '''' '''' 0, pol_ready 2 '''' ''Creating'' 0, pol_ready 3 ''idv'' ''Active'' 1]"

definition create_events :: "(OCISecurityPolicy, VcnCall) Event list" where
  "create_events = [KGet demo_request (Inr (pol_ready 1 '''' '''' 0)), SdkClient None,
     KStatusUpdate (pol_ready 1 '''' ''Creating'' 0) (Inr (pol_ready 2 '''' ''Creating'' 0)),
     Oci (CreateListCall (createListDetails demo_pol_spec)
     (Inr \<lparr>ListId = Some ''idv'', ListLifecycleState = SecurityListLifecycleStateProvisioning\<rparr>)),
     KStatusUpdate (pol_ready 2 ''idv'' ''Active'' 1) (Inl cloud_error)]"

lemma creating_life:
  assumes "world s = stores xs ts n [pol_ready 1 '''' '''' 0] life_script 1"
    and "calls s = []" "ociClient s = None"
  shows "post (ReconcilePolicy store_pext demo_request) (\<lambda>a t. world t = stores xs ts n life_created [deletion_mark] 2 \<and>
    calls t = create_events) s"
  using assms
  by (simp add: pol_run_defs pol_setter_defs policy_phase_defs policy_failed_and_observed_def store_run_defs create_events_def)

definition drop_events :: "(OCISecurityPolicy, VcnCall) Event list" where
  "drop_events = [KGet demo_request (Inr (demo_pol 4 [ociSecurityPolicyFinalizer] (Some 7) ''idv'' ''Active'' 1)),
     SdkClient None, Oci (DeleteListCall (Some ''idv'') (Inr ())),
     KUpdate (demo_pol 4 [] (Some 7) ''idv'' ''Active'' 1) (Inr (demo_pol 5 [] (Some 7) ''idv'' ''Active'' 1))]"

lemma dropping_life:
  assumes "world s = stores xs ts n life_created [deletion_mark] 2" "calls s = []" "ociClient s = None"
  shows "post (ReconcilePolicy store_pext demo_request) (\<lambda>a t.
    calls t = drop_events) s"
  using assms
  by (simp add: pol_run_defs pol_setter_defs policy_phase_defs policy_failed_and_observed_def store_run_defs drop_events_def)

lemma store_finalizers:
  "ContainsFinalizer store_iext x f \<longleftrightarrow> f \<in> set (Finalizers (InstMeta x))"
  "f \<in> set (Finalizers (InstMeta (AddFinalizer store_iext x f)))" "inst_version (RemoveFinalizer store_iext x f) = inst_version x"
  "ContainsFinalizer store_pext y f \<longleftrightarrow> f \<in> set (Finalizers (PolMeta y))"
  "f \<in> set (Finalizers (PolMeta (AddFinalizer store_pext y f)))" "pol_version (RemoveFinalizer store_pext y f) = pol_version y"
  by (simp_all add: store_iext_def store_pext_def part_ext_def store_ext_def inst_parts_def pol_parts_def)

lemma demo_released: "f \<notin> set (Finalizers (InstMeta (demo_inst n [] d i ph g)))" "f \<notin> set (Finalizers (PolMeta (demo_pol n [] d i ph g)))"
  by (simp_all add: inst_demo_facts pol_demo_facts)

definition life_jobs :: "'w Job list" where
  "life_jobs = [InstanceJob demo_request, Restart, InstanceJob demo_request]"

definition list_life_jobs :: "'w Job list" where
  "list_life_jobs = [PolicyJob demo_request, Restart, PolicyJob demo_request]"

lemma instance_history:
  "instanceHistory store_iext pext life_jobs (stores [inst_ready 1 '''' '''' 0] life_script 1 ys us m) demo_request =
   launch_events @ close_events"
  unfolding life_jobs_def by (rule instance_life [OF launching_life closing_life])

lemma policy_history:
  "policyHistory iext store_pext list_life_jobs (stores xs ts n [pol_ready 1 '''' '''' 0] life_script 1) demo_request =
   create_events @ drop_events"
  unfolding list_life_jobs_def by (rule policy_life [OF creating_life dropping_life])

lemma life_clusters:
  "instance_cluster (s_versions \<circ> fst) demo_request store_iext store_pext life_jobs"
  "policy_cluster (s_versions \<circ> snd) demo_request store_iext store_pext list_life_jobs"
  by (rule store_instance_cluster store_policy_cluster; simp add: life_jobs_def list_life_jobs_def)+

theorem cluster_leaves_no_orphans_witness:
  "\<forall>ys us m. let h = instanceHistory store_iext store_pext life_jobs
      (stores [inst_ready 1 '''' '''' 0] life_script 1 ys us m) demo_request in
    launches h = 1 \<and> length (left_over launched_id terminated_id h) \<le> failed_writes h"
proof (intro allI)
  fix ys us m
  let ?w = "stores [inst_ready 1 '''' '''' 0] life_script 1 ys us m"
  let ?h = "instanceHistory store_iext store_pext life_jobs ?w demo_request"
  have new: "inst_id (last ((s_versions \<circ> fst) ?w)) = ''''" by (simp add: inst_demo_facts)
  have release: "\<exists>evs z. ?h = evs @ [KUpdate (demo_inst 4 [] (Some 7) ''idv'' ''Provisioning'' 1) (Inr z)]"
    unfolding instance_history by (rule exI [of _ "launch_events @ butlast close_events"]) (simp add: close_events_def)
  then obtain evs z where z: "?h = evs @ [KUpdate (demo_inst 4 [] (Some 7) ''idv'' ''Provisioning'' 1) (Inr z)]" by blast
  have "length (left_over launched_id terminated_id ?h) \<le> failed_writes ?h"
    by (rule cluster_leaves_no_orphans [OF life_clusters(1) stores_proper(1) new _ _ z])
      (simp_all add: store_finalizers demo_released)
  moreover have "launches ?h = 1" unfolding instance_history by (simp add: launch_events_def close_events_def launches_def)
  ultimately show "let h = ?h in launches h = 1 \<and> length (left_over launched_id terminated_id h) \<le> failed_writes h"
    by (simp only: Let_def)
qed

theorem cluster_leaves_no_lists_witness:
  "\<forall>xs ts n. let h = policyHistory store_iext store_pext list_life_jobs
      (stores xs ts n [pol_ready 1 '''' '''' 0] life_script 1) demo_request in
    list_creations h = 1 \<and> length (left_over created_list_id deleted_list_id h) \<le> failed_writes h"
proof (intro allI)
  fix xs ts n
  let ?w = "stores xs ts n [pol_ready 1 '''' '''' 0] life_script 1"
  let ?h = "policyHistory store_iext store_pext list_life_jobs ?w demo_request"
  have new: "pol_id (last ((s_versions \<circ> snd) ?w)) = ''''" by (simp add: pol_demo_facts)
  have "\<exists>evs z. ?h = evs @ [KUpdate (demo_pol 4 [] (Some 7) ''idv'' ''Active'' 1) (Inr z)]"
    unfolding policy_history by (rule exI [of _ "create_events @ butlast drop_events"]) (simp add: drop_events_def)
  then obtain evs z where z: "?h = evs @ [KUpdate (demo_pol 4 [] (Some 7) ''idv'' ''Active'' 1) (Inr z)]" by blast
  have "length (left_over created_list_id deleted_list_id ?h) \<le> failed_writes ?h"
    by (rule cluster_leaves_no_lists [OF life_clusters(2) stores_proper(2) new _ _ z])
      (simp_all add: store_finalizers demo_released)
  moreover have "list_creations ?h = 1" unfolding policy_history by (simp add: create_events_def drop_events_def list_creations_def)
  ultimately show "let h = ?h in list_creations h = 1 \<and> length (left_over created_list_id deleted_list_id h) \<le> failed_writes h"
    by (simp only: Let_def)
qed

section \<open>The bound is met\<close>

text \<open>
  Runs that launch, with the last status write going through or refused: one run takes four calls from the
  script. \<open>waiting\<close> instances are those that the next run launches.
\<close>

definition waiting :: "OCIInstance \<Rightarrow> bool" where
  "waiting x \<longleftrightarrow> inst_id x = '''' \<and> DeletionTimestamp (InstMeta x) = None \<and>
     ociInstanceFinalizer \<in> set (Finalizers (InstMeta x)) \<and> \<not> failed_and_observed x"

definition refusal :: Turn where
  "refusal = calm\<lparr>t_fate := Refused\<rparr>"

text \<open>The write whose failure loses an id.\<close>

fun loses_id :: "(OCIInstance, ComputeCall) Event \<Rightarrow> bool" where
  "loses_id (KStatusUpdate y (Inl err)) \<longleftrightarrow> inst_id y \<noteq> ''''"
| "loses_id _ \<longleftrightarrow> False"

lemma store_calm:
  assumes "s_versions w \<noteq> []" "s_turns w = calm # ts" "\<not> removed P (last (s_versions w))"
  shows "store_read P w = (Inr (last (s_versions w)), w\<lparr>s_turns := ts\<rparr>)"
    and "version_of P y = version_of P (last (s_versions w)) \<Longrightarrow> store_write P merge y w =
      (Inr (last (commit P (merge y (last (s_versions w))) (s_versions w))),
       w\<lparr>s_turns := ts, s_versions := commit P (merge y (last (s_versions w))) (s_versions w)\<rparr>)"
  using assms
  by (simp_all add: store_read_def store_write_def next_turn_def others_turn_def stale_def calm_def Let_def
      rev_nth last_conv_nth)

lemma store_refusal:
  assumes "s_turns w = refusal # ts" "\<not> removed P (last (s_versions w))"
  shows "store_write P merge y w = (Inl conflict_error, w\<lparr>s_turns := ts\<rparr>)"
  using assms by (simp add: store_write_def next_turn_def others_turn_def refusal_def calm_def Let_def)

lemma cloud_calm:
  "s_turns w = calm # ts \<Longrightarrow> cloud_turn f w = (Inr (f (s_next w)), w\<lparr>s_turns := ts, s_next := Suc (s_next w)\<rparr>)"
  by (simp add: cloud_turn_def next_turn_def calm_def)

lemma commit_started:
  fixes vs :: "OCIInstance list"
  defines "z \<equiv> last (commit inst_parts (with_status_of inst_parts (InstanceTypes.set_phase InstancePhaseProvisioning (last vs)) (last vs)) vs)"
  assumes "waiting (last vs)"
  shows "waiting z" "\<not> removed inst_parts z"
  using assms(2)
  by (simp_all add: z_def commit_def inst_parts_def waiting_def failed_and_observed_def removed_def instance_phase_defs)

lemma waiting_kept: "waiting x \<Longrightarrow> \<not> removed inst_parts x"
  by (simp add: waiting_def removed_def inst_parts_def)

text \<open>A run of either kind.\<close>

lemma launching_run_of:
  assumes "world s = stores vs ([calm, calm, calm, t] @ ts) k ys us m" "calls s = []" "ociClient s = None"
    and vs: "vs \<noteq> []" "waiting (last vs)" and t: "t = calm \<or> t = refusal"
  shows "post (Reconcile store_iext demo_request) (\<lambda>_ u. \<exists>vs'. world u = stores vs' ts (Suc k) ys us m \<and>
    vs' \<noteq> [] \<and> launches (calls u) = 1 \<and> failed_writes (calls u) = (if t = calm then 0 else 1) \<and>
    list_all (\<lambda>e. failed_write e \<longrightarrow> loses_id e) (calls u) \<and>
    (if t = calm then inst_id (last vs') \<noteq> '''' else waiting (last vs'))) s"
proof -
  note started = commit_started [OF vs(2)]
  note start = vs waiting_kept [OF vs(2)] vs(2) [unfolded waiting_def] started started(1) [unfolded waiting_def]
  have commit_nonempty: "commit inst_parts z us \<noteq> []" for z us by (simp add: commit_def)
  have meta: "meta_of inst_parts = InstMeta" by (simp add: inst_parts_def)
  have fate: "refusal \<noteq> calm" by (simp add: refusal_def calm_def)
  note run = inst_run_defs store_iext_def part_defs store_ext_def put_fst_def stores_def store_compute_def
    store_calm store_refusal cloud_calm start commit_nonempty meta
    launches_def failed_writes_def new_id_def
  from t show ?thesis
  proof
    assume "t = refusal"
    then show ?thesis using assms(1-3) by (simp add: run fate)
  next
    assume "t = calm"
    then show ?thesis using assms(1-3) by (simp add: run) (simp add: commit_def inst_parts_def)
  qed
qed

lemma losing_writes:
  "list_all (\<lambda>e. failed_write e \<longrightarrow> loses_id e) evs \<Longrightarrow> length (filter loses_id evs) = failed_writes evs"
proof -
  have "loses_id e \<Longrightarrow> failed_write e" for e by (cases e rule: loses_id.cases) simp_all
  then show "list_all (\<lambda>e. failed_write e \<longrightarrow> loses_id e) evs \<Longrightarrow> length (filter loses_id evs) = failed_writes evs"
    unfolding failed_writes_def list_all_iff by (metis (mono_tags, lifting) filter_cong)
qed

text \<open>Such a run as a job of the operator, and any number of them that lose their id, each followed by a restart.\<close>

lemma launching_job:
  assumes "outside p = stores vs ([calm, calm, calm, t] @ ts) k ys us m" "instanceClient p = None"
    and "vs \<noteq> []" "waiting (last vs)" "t = calm \<or> t = refusal"
  shows "\<exists>vs' evs. outside (run_instance store_iext demo_request p) = stores vs' ts (Suc k) ys us m \<and> vs' \<noteq> [] \<and>
    history_of demo_request (instanceLog (run_instance store_iext demo_request p)) =
      history_of demo_request (instanceLog p) @ evs \<and>
    launches evs = 1 \<and> failed_writes evs = (if t = calm then 0 else 1) \<and>
    list_all (\<lambda>e. failed_write e \<longrightarrow> loses_id e) evs \<and>
    (if t = calm then inst_id (last vs') \<noteq> '''' else waiting (last vs'))"
  using launching_run_of [of "instance_view p"] assms
  by (simp add: post_outcome run_instance_view run_instance_logs events_def)

lemma losing_jobs:
  assumes "outside p = stores vs (concat (replicate n [calm, calm, calm, refusal]) @ ts) k ys us m" "instanceClient p = None"
    and "vs \<noteq> []" "waiting (last vs)"
  shows "\<exists>vs' evs k'. let q = fold (perform store_iext pext) (concat (replicate n [InstanceJob demo_request, Restart])) p in
    outside q = stores vs' ts k' ys us m \<and> instanceClient q = None \<and> vs' \<noteq> [] \<and> waiting (last vs') \<and>
    history_of demo_request (instanceLog q) = history_of demo_request (instanceLog p) @ evs \<and>
    launches evs = n \<and> failed_writes evs = n \<and> list_all (\<lambda>e. failed_write e \<longrightarrow> loses_id e) evs"
  using assms
proof (induction n arbitrary: p vs k)
  case 0
  then show ?case by (intro exI [of _ vs] exI [of _ "[]"] exI [of _ k]) (simp add: Let_def launches_def failed_writes_def)
next
  case (Suc n)
  let ?p = "run_instance store_iext demo_request p"
  have fate: "refusal \<noteq> calm" by (simp add: refusal_def calm_def)
  obtain v1 es where one: "outside ?p = stores v1 (concat (replicate n [calm, calm, calm, refusal]) @ ts) (Suc k) ys us m"
    "v1 \<noteq> []" "waiting (last v1)" "launches es = 1" "failed_writes es = 1"
    "history_of demo_request (instanceLog ?p) = history_of demo_request (instanceLog p) @ es"
    "list_all (\<lambda>e. failed_write e \<longrightarrow> loses_id e) es"
    using launching_job [of p vs refusal "concat (replicate n [calm, calm, calm, refusal]) @ ts" k ys us m] Suc.prems fate
    by auto
  from Suc.IH [of "restart ?p" v1 "Suc k"] one(1-3) obtain vs' evs k' where
    "let q = fold (perform store_iext pext) (concat (replicate n [InstanceJob demo_request, Restart])) (restart ?p) in
      outside q = stores vs' ts k' ys us m \<and> instanceClient q = None \<and> vs' \<noteq> [] \<and> waiting (last vs') \<and>
      history_of demo_request (instanceLog q) = history_of demo_request (instanceLog ?p) @ evs \<and>
      launches evs = n \<and> failed_writes evs = n \<and> list_all (\<lambda>e. failed_write e \<longrightarrow> loses_id e) evs" by auto
  with one(4-) show ?case
    by (intro exI [of _ vs'] exI [of _ "es @ evs"] exI [of _ k']) (simp add: Let_def launches_def)
qed

definition losing_work :: "nat \<Rightarrow> 'w Job list" where
  "losing_work n = concat (replicate n [InstanceJob demo_request, Restart]) @ [InstanceJob demo_request]"

definition losing_stores :: "nat \<Rightarrow> Stores" where
  "losing_stores n = stores [inst_ready 1 '''' '''' 0] (concat (replicate n [calm, calm, calm, refusal]) @ [calm, calm, calm, calm])
     1 [pol_ready 1 '''' '''' 0] [] 1"

text \<open>C34: The bound on launches cannot be improved: for every n there is a cluster in which exactly n status
  writes for an instance fail and n + 1 instances are launched for it. Each of these writes is the one that
  was to record the id of an instance just launched, the server refuses it, the id is lost, and the next run
  launches again; the last run has its id recorded.\<close>
theorem launch_bound_is_met:
  "\<exists>(jobs :: Stores Job list) w. instance_cluster (s_versions \<circ> fst) demo_request store_iext store_pext jobs \<and>
     proper inst_version ((s_versions \<circ> fst) w) \<and>
     (let h = instanceHistory store_iext store_pext jobs w demo_request in
      failed_writes h = n \<and> launches h = Suc n \<and>
      length (filter loses_id h) = n \<and>
      inst_id (last (s_versions (fst (outside (operate store_iext store_pext jobs w))))) \<noteq> '''')"
proof -
  let ?jobs = "losing_work n" and ?w = "losing_stores n" and ?x = "inst_ready 1 '''' '''' 0"
  let ?q = "fold (perform store_iext store_pext) (concat (replicate n [InstanceJob demo_request, Restart])) (started ?w)"
  have "waiting ?x" by (simp add: waiting_def inst_demo_facts failed_and_observed_def instance_phase_defs)
  moreover have new: "history_of demo_request (instanceLog (started ?w)) = []"
    by (simp add: started_def history_of_def runs_for_def)
  ultimately obtain vs evs k where lost: "outside ?q = stores vs [calm, calm, calm, calm] k [pol_ready 1 '''' '''' 0] [] 1"
    "instanceClient ?q = None" "vs \<noteq> []" "waiting (last vs)"
    "history_of demo_request (instanceLog ?q) = evs" "launches evs = n" "failed_writes evs = n"
    "list_all (\<lambda>e. failed_write e \<longrightarrow> loses_id e) evs"
    using losing_jobs [of "started ?w" "[?x]" n "[calm, calm, calm, calm]" 1 "[pol_ready 1 '''' '''' 0]" "[]" 1 store_pext] new
    by (auto simp: losing_stores_def Let_def)
  from launching_job [of ?q vs calm "[]" k "[pol_ready 1 '''' '''' 0]" "[]" 1] lost(1-4) obtain vs' es where kept:
    "outside (run_instance store_iext demo_request ?q) = stores vs' [] (Suc k) [pol_ready 1 '''' '''' 0] [] 1"
    "history_of demo_request (instanceLog (run_instance store_iext demo_request ?q)) = evs @ es"
    "launches es = 1" "failed_writes es = 0" "inst_id (last vs') \<noteq> ''''"
    "list_all (\<lambda>e. failed_write e \<longrightarrow> loses_id e) es"
    using lost(5) by auto
  have run: "operate store_iext store_pext ?jobs ?w = run_instance store_iext demo_request ?q"
    by (simp add: operate_def losing_work_def)
  have "instance_cluster (s_versions \<circ> fst) demo_request store_iext store_pext ?jobs"
    by (rule store_instance_cluster) (auto simp: losing_work_def)
  moreover have "proper inst_version ((s_versions \<circ> fst) ?w)" unfolding losing_stores_def by (rule stores_proper)
  moreover have "length (filter loses_id (evs @ es)) = failed_writes (evs @ es)"
    by (rule losing_writes) (use lost(8) kept(6) in simp)
  ultimately show ?thesis
    using lost(6,7) kept by (intro exI [of _ ?jobs] exI [of _ ?w]) (auto simp: Let_def instanceHistory_def run launches_def)
qed

end
