(* ===== verification/OperatorProgress.thy ===== *)
theory OperatorProgress
  imports SharedWorlds
begin

text \<open>
  Progress in the whole operator. The reconciles of one object are scattered among those of other objects,
  among the runs of the other controller, restarts, and whatever happens elsewhere. As long as this other
  work leaves the object alone and brings no new setbacks (\<open>bystanders\<close>), the bounds of \<open>InstanceProgress\<close> and
  \<open>PolicyProgress\<close> hold for the object, whatever the order of the work.
\<close>

section \<open>Jobs for one object among others\<close>

fun for_instance :: "NamespacedName \<Rightarrow> 'w Job \<Rightarrow> bool" where
  "for_instance req (InstanceJob k) \<longleftrightarrow> k = req"
| "for_instance req _ \<longleftrightarrow> False"

fun for_policy :: "NamespacedName \<Rightarrow> 'w Job \<Rightarrow> bool" where
  "for_policy req (PolicyJob k) \<longleftrightarrow> k = req"
| "for_policy req _ \<longleftrightarrow> False"

text \<open>How many of the jobs that are \<open>own\<close> leave the process in a state that is not \<open>good\<close>.\<close>

fun bad_jobs ::
    "'w InstanceExt \<Rightarrow> 'w PolicyExt \<Rightarrow> ('w Job \<Rightarrow> bool) \<Rightarrow> ('w Process \<Rightarrow> bool) \<Rightarrow> 'w Job list \<Rightarrow> 'w Process \<Rightarrow> nat" where
  "bad_jobs iext pext own good [] p = 0"
| "bad_jobs iext pext own good (job # jobs) p =
     (if own job \<and> \<not> good (perform iext pext job p) then 1 else 0) +
     bad_jobs iext pext own good jobs (perform iext pext job p)"

lemma bad_jobs_bounded:
  assumes "\<And>job p. job \<in> set jobs \<Longrightarrow> own job \<Longrightarrow> P p \<Longrightarrow> P (perform iext pext job p) \<and>
      \<mu> (perform iext pext job p) \<le> \<mu> p \<and> (good (perform iext pext job p) \<or> \<mu> (perform iext pext job p) < \<mu> p)"
    and "\<And>job p. job \<in> set jobs \<Longrightarrow> \<not> own job \<Longrightarrow> P p \<Longrightarrow> P (perform iext pext job p) \<and>
      \<mu> (perform iext pext job p) \<le> \<mu> p"
    and "P p"
  shows "bad_jobs iext pext own good jobs p \<le> (\<mu> p :: nat)"
  using assms
proof (induction jobs arbitrary: p)
  case (Cons job jobs)
  have "bad_jobs iext pext own good jobs (perform iext pext job p) \<le> \<mu> (perform iext pext job p)"
    using Cons.prems by (intro Cons.IH) (cases "own job"; auto)+
  then show ?case
    using Cons.prems(1) [of job p] Cons.prems(2) [of job p] Cons.prems(3) by (cases "own job") auto
qed simp

section \<open>Measures\<close>

text \<open>
  A measure on the state of one controller: \<open>I\<close> is kept by its own runs, which come closer or end \<open>good\<close>,
  and by anything that leaves the object alone and the controller with no client but \<open>c\<close>.
\<close>

definition measured_progress ::
    "(('w, 'r, 'o, 'c) Sys, 'a) state \<Rightarrow> 'c \<Rightarrow> ('w \<Rightarrow> 'b) \<Rightarrow> ('w \<Rightarrow> nat) \<Rightarrow> (('w, 'r, 'o, 'c) Sys \<Rightarrow> bool) \<Rightarrow>
     (('w, 'r, 'o, 'c) Sys \<Rightarrow> nat) \<Rightarrow> (('w, 'r, 'o, 'c) Sys \<Rightarrow> bool) \<Rightarrow> bool" where
  "measured_progress m c obj left I \<mu> good \<longleftrightarrow>
     (\<forall>s. I s \<longrightarrow> I (final m s) \<and> \<mu> (final m s) \<le> \<mu> s \<and> (good (final m s) \<or> \<mu> (final m s) < \<mu> s)) \<and>
     (\<forall>s t. I s \<longrightarrow> apart obj left (world s) (world t) \<longrightarrow> ociClient t \<in> {None, Some c} \<longrightarrow> I t \<and> \<mu> t \<le> \<mu> s) \<and>
     (\<forall>s. I s \<longrightarrow> ociClient s \<in> {None, Some c}) \<and>
     (\<forall>s t. good s \<longrightarrow> world s = world t \<longrightarrow> good t)"

lemma measured_rules:
  assumes "measured_progress m c obj left I \<mu> good"
  shows "I s \<Longrightarrow> I (final m s) \<and> \<mu> (final m s) \<le> \<mu> s \<and> (good (final m s) \<or> \<mu> (final m s) < \<mu> s)"
    and "I s \<Longrightarrow> apart obj left (world s) (world t) \<Longrightarrow> ociClient t \<in> {None, Some c} \<Longrightarrow> I t \<and> \<mu> t \<le> \<mu> s"
    and "I s \<Longrightarrow> ociClient s \<in> {None, Some c}"
    and "good s \<Longrightarrow> world s = world t \<Longrightarrow> good t"
  using assms unfolding measured_progress_def by blast+

lemma measured_step:
  assumes m: "measured_progress m c obj left I \<mu> good" and s: "I s"
    and t: "world t = world (final m s)" "ociClient t = ociClient (final m s)"
  shows "I t \<and> \<mu> t \<le> \<mu> s \<and> (good t \<or> \<mu> t < \<mu> s) \<and> ociClient t \<in> {None, Some c}"
proof -
  note run = measured_rules(1) [OF m s]
  have c: "ociClient t \<in> {None, Some c}" using measured_rules(3) [OF m] run t(2) by simp
  have "apart obj left (world (final m s)) (world t)" by (simp add: t(1))
  from measured_rules(2) [OF m _ this c] run have "I t \<and> \<mu> t \<le> \<mu> (final m s)" by blast
  moreover have "good (final m s) \<longrightarrow> good t" using measured_rules(4) [OF m] t(1) by metis
  ultimately show ?thesis using run c by linarith
qed

lemma measured_apart:
  assumes "measured_progress m c obj left I \<mu> good" "I s" "apart obj left (world s) (world t)"
    and "\<forall>c'. ociClient t = Some c' \<longrightarrow> c' = c"
  shows "I t \<and> \<mu> t \<le> \<mu> s"
  using assms(4) by (intro measured_rules(2) [OF assms(1-3)]) (cases "ociClient t"; simp)

lemma instance_jobs_bounded:
  fixes I :: "'w InstanceSys \<Rightarrow> bool"
  assumes b: "bystanders (apart obj left) (\<lambda>k. k \<noteq> req) iown (\<lambda>c'. c' = c) (\<lambda>_. True) pown pgood iext pext jobs"
    and m: "measured_progress (Reconcile iext req) c obj left I \<mu> good" and "I (instance_view (started w))"
  shows "bad_jobs iext pext (for_instance req) (\<lambda>p. good (instance_view p)) jobs (started w) \<le>
    \<mu> (instance_view (started w))"
proof (rule bad_jobs_bounded [where P = "\<lambda>p. I (instance_view p) \<and> good_clients (\<lambda>c'. c' = c) pgood p"
      and \<mu> = "\<lambda>p. \<mu> (instance_view p)"], goal_cases)
  case (1 job p)
  have q: "perform iext pext job p = run_instance iext req p" using 1(2) by (cases job rule: Job.exhaust) simp_all
  from measured_step [OF m, of "instance_view p" "instance_view (run_instance iext req p)"] 1(3) show ?case
    by (auto simp: q run_instance_view good_clients_def)
next
  case (2 job p)
  have "other_job (\<lambda>k. k \<noteq> req) (\<lambda>_. True) job" using 2(2) by (cases job rule: Job.exhaust) simp_all
  note away = other_work [OF b apart_order(1,2) 2(1) this conjunct2 [OF 2(3)]]
  then have "\<forall>c'. instanceClient (perform iext pext job p) = Some c' \<longrightarrow> c' = c" unfolding good_clients_def by blast
  from measured_apart [OF m conjunct1 [OF 2(3)], of "instance_view (perform iext pext job p)"] away this
  show ?case by simp
qed (use assms(3) in \<open>simp add: good_clients_def\<close>)

lemma policy_jobs_bounded:
  fixes I :: "'w PolicySys \<Rightarrow> bool"
  assumes b: "bystanders (apart obj left) (\<lambda>_. True) iown igood (\<lambda>k. k \<noteq> req) pown (\<lambda>c'. c' = c) iext pext jobs"
    and m: "measured_progress (ReconcilePolicy pext req) c obj left I \<mu> good" and "I (policy_view (started w))"
  shows "bad_jobs iext pext (for_policy req) (\<lambda>p. good (policy_view p)) jobs (started w) \<le>
    \<mu> (policy_view (started w))"
proof (rule bad_jobs_bounded [where P = "\<lambda>p. I (policy_view p) \<and> good_clients igood (\<lambda>c'. c' = c) p"
      and \<mu> = "\<lambda>p. \<mu> (policy_view p)"], goal_cases)
  case (1 job p)
  have q: "perform iext pext job p = run_policy pext req p" using 1(2) by (cases job rule: Job.exhaust) simp_all
  from measured_step [OF m, of "policy_view p" "policy_view (run_policy pext req p)"] 1(3) show ?case
    by (auto simp: q run_policy_view good_clients_def)
next
  case (2 job p)
  have "other_job (\<lambda>_. True) (\<lambda>k. k \<noteq> req) job" using 2(2) by (cases job rule: Job.exhaust) simp_all
  note away = other_work [OF b apart_order(1,2) 2(1) this conjunct2 [OF 2(3)]]
  then have "\<forall>c'. policyClient (perform iext pext job p) = Some c' \<longrightarrow> c' = c" unfolding good_clients_def by blast
  from measured_apart [OF m conjunct1 [OF 2(3)], of "policy_view (perform iext pext job p)"] away this
  show ?case by simp
qed (use assms(3) in \<open>simp add: good_clients_def\<close>)

text \<open>Both measures of \<open>Patience\<close>, for creation and for deletion.\<close>

lemma creation_measured:
  assumes "\<And>s. underway ext G c obj s \<Longrightarrow> post m (\<lambda>_. advances ext G c obj left s) s"
  shows "measured_progress m c obj left (underway ext G c obj) (way_to_go ext G obj left) (arrived G obj)"
  using assms unfolding measured_progress_def post_outcome
  by (auto simp: advances_def underway_def way_to_go_def arrived_def apart_def Let_def)

lemma deletion_measured:
  fixes m :: "(('w, 'r, 'o, 'c) Sys, Outcome) state"
  assumes "\<And>s. leaving ext G c obj s \<Longrightarrow> post m (left_behind ext G c obj left s) s"
  shows "measured_progress m c obj left (leaving ext G c obj) (\<lambda>s. left (world s)) (gone obj)"
proof -
  have run: "leaving ext G c obj (final m s) \<and> left (world (final m s)) \<le> left (world s) \<and>
      (gone obj (final m s) \<or> left (world (final m s)) < left (world s))" if "leaving ext G c obj s" for s
    using left_behind_progress [OF assms [OF that, unfolded post_outcome]] .
  have away: "leaving ext G c obj t \<and> left (world t) \<le> left (world s)"
    if "leaving ext G c obj s" "apart obj left (world s) (world t)" "ociClient t \<in> {None, Some c}" for s t
    using that unfolding leaving_def apart_def by auto
  have client: "ociClient s \<in> {None, Some c}" if "leaving ext G c obj s" for s
    using that unfolding leaving_def by blast
  have world: "gone obj t" if "gone obj s" "world s = world t" for s t :: "('w, 'r, 'o, 'c) Sys"
    using that by (simp add: gone_def)
  show ?thesis unfolding measured_progress_def using run away client world by blast
qed

lemma way_to_go_bound: "way_to_go ext G obj left s \<le> left (world s) + 2"
  by (simp add: way_to_go_def)

section \<open>Properties\<close>

text \<open>C5: A new instance gets there in the whole operator if its launch works. Take a world in which, of the calls about
  one object, only these go wrong, in any order and \<open>left\<close> times in all: a read of the object fails; the write
  of its finalizer or of its status is refused (and changes nothing); GetInstance fails, or answers PROVISIONING
  or STARTING instead of RUNNING. LaunchInstance and the constructor of the SDK client never fail, and a launch
  answers with an id: a single failure of one of them makes the code mark the object Failed and, once that is
  stored, give it up until its spec changes. Reads are current and nobody else writes the object, which is at the start not being
  deleted, not failed, and holds the finalizer if it records an instance. Then for any list of jobs in which the runs for other keys and for policies, and what
  happens elsewhere, leave the object alone, all but \<open>left + 2\<close> of the reconciles of the object end with its
  instance recorded, in phase Running and its generation observed, in whatever order the jobs come and however
  often the process is restarted.\<close>
theorem operator_instance_progress:
  assumes "patient_api iext instanceGoal req obj left" "patient_clock iext obj left"
    and "ready_sdk iext c obj left" "patient_compute c obj left"
    and "bystanders (apart obj left) (\<lambda>k. k \<noteq> req) iown (\<lambda>c'. c' = c) (\<lambda>_. True) pown pgood iext pext jobs"
    and "underway iext instanceGoal c obj (instance_view (started w))"
  shows "bad_jobs iext pext (for_instance req) (\<lambda>p. arrived instanceGoal obj (instance_view p)) jobs (started w)
    \<le> left w + 2"
  using instance_jobs_bounded [OF assms(5) creation_measured [OF instance_step [OF assms(1-4)]] assms(6)]
    way_to_go_bound [of iext instanceGoal obj left "instance_view (started w)"] by simp

text \<open>C6: A new policy gets there in the whole operator if the creation of its list works. Take a world in which,
  of the calls about one policy, only these go wrong, in any order and \<open>left\<close> times in all: a read of the policy
  fails; the write of its finalizer or of its status is refused (and changes nothing); GetSecurityList fails, or
  answers PROVISIONING instead of AVAILABLE. CreateSecurityList and the constructor of the SDK client never
  fail, and a creation answers with an id: a single failure of one of them makes the code mark the policy Failed
  and, once that is stored, give it up until its spec changes. Reads are current and nobody else writes the policy, which is at the
  start not being deleted, not failed, and holds the finalizer if it records a list. Then all but \<open>left + 2\<close> of the reconciles of the policy end with its
  list recorded, in phase Active and its generation observed, whatever else the operator does in between.\<close>
theorem operator_policy_progress:
  assumes "patient_api pext policyGoal req obj left" "patient_clock pext obj left"
    and "ready_sdk pext c obj left" "patient_network c obj left"
    and "bystanders (apart obj left) (\<lambda>_. True) iown igood (\<lambda>k. k \<noteq> req) pown (\<lambda>c'. c' = c) iext pext jobs"
    and "underway pext policyGoal c obj (policy_view (started w))"
  shows "bad_jobs iext pext (for_policy req) (\<lambda>p. arrived policyGoal obj (policy_view p)) jobs (started w)
    \<le> left w + 2"
  using policy_jobs_bounded [OF assms(5) creation_measured [OF policy_step [OF assms(1-4)]] assms(6)]
    way_to_go_bound [of pext policyGoal obj left "policy_view (started w)"] by simp

text \<open>C7: Deletions complete in the whole operator. An instance that is being deleted and holds the finalizer is
  gone after each of its reconciles but at most \<open>left\<close>, if its reads, the SDK client, terminate calls and
  finalizer removals fail at most \<open>left\<close> times, whatever else the operator does in between. (A terminate
  call that is refused for good, as for an instance that no longer exists in the cloud, is not such a world.)\<close>
theorem operator_instance_deletion:
  assumes "patient_deletion iext instanceGoal req obj left" "patient_clock iext obj left"
    and "patient_sdk iext c obj left" "\<And>i. patient_call (TerminateInstance c i) obj left"
    and "bystanders (apart obj left) (\<lambda>k. k \<noteq> req) iown (\<lambda>c'. c' = c) (\<lambda>_. True) pown pgood iext pext jobs"
    and "leaving iext instanceGoal c obj (instance_view (started w))"
  shows "bad_jobs iext pext (for_instance req) (\<lambda>p. gone obj (instance_view p)) jobs (started w) \<le> left w"
  using instance_jobs_bounded [OF assms(5) deletion_measured [OF instance_leaves [OF assms(1-4)]] assms(6)] by simp

text \<open>C8: Deletions of policies complete in the whole operator, in the same sense: a policy that is being deleted
  and holds the finalizer is gone after each of its reconciles but at most \<open>left\<close>. (A delete call that is refused
  for good, as for a list that no longer exists in the cloud, is not such a world.)\<close>
theorem operator_policy_deletion:
  assumes "patient_deletion pext policyGoal req obj left" "patient_clock pext obj left"
    and "patient_sdk pext c obj left" "\<And>i. patient_call (DeleteSecurityList c i) obj left"
    and "bystanders (apart obj left) (\<lambda>_. True) iown igood (\<lambda>k. k \<noteq> req) pown (\<lambda>c'. c' = c) iext pext jobs"
    and "leaving pext policyGoal c obj (policy_view (started w))"
  shows "bad_jobs iext pext (for_policy req) (\<lambda>p. gone obj (policy_view p)) jobs (started w) \<le> left w"
  using policy_jobs_bounded [OF assms(5) deletion_measured [OF policy_leaves [OF assms(1-4)]] assms(6)] by simp

section \<open>Such work\<close>

lemma instances_bystanders:
  assumes "patient_clock iext obj left" "quiet_compute (apart obj left) cc"
  shows "bystanders (apart (obj \<circ> fst) (left \<circ> fst)) (\<lambda>k. k \<noteq> demo_request) (\<lambda>_. False) (\<lambda>c'. c' = shared_compute cc)
    (\<lambda>_. True) (\<lambda>_. True) (\<lambda>c'. c' = shared_network nc) (shared_inst_ext iext cc) (shared_pol_ext pext nc) (mixed_work n)"
  using assms(1) mixed_work_here inst_part.part_quiet(1) [OF assms(2)]
  by (intro beside_instances) (simp_all add: apart_def put_fst_def put_snd_def patient_clock_def still_def del: split_paired_All)

lemma policies_bystanders:
  assumes "patient_clock pext obj left" "quiet_network (apart obj left) nc"
  shows "bystanders (apart (obj \<circ> snd) (left \<circ> snd)) (\<lambda>_. True) (\<lambda>_. True) (\<lambda>c'. c' = shared_compute cc)
    (\<lambda>k. k \<noteq> demo_request) (\<lambda>_. False) (\<lambda>c'. c' = shared_network nc) (shared_inst_ext iext cc) (shared_pol_ext pext nc)
    (mixed_work n)"
  using assms(1) mixed_work_here pol_part.part_quiet(2) [OF assms(2)]
  by (intro beside_policies) (simp_all add: apart_def put_fst_def put_snd_def patient_clock_def still_def del: split_paired_All)

definition shared_world :: "(OCIInstance \<times> nat) \<times> OCISecurityPolicy \<times> nat" where
  "shared_world = ((demo_inst 1 [] None '''' '''' 0, 3), demo_pol 1 [] None '''' '''' 0, 2)"

definition closing_world :: "(OCIInstance option \<times> nat) \<times> OCISecurityPolicy option \<times> nat" where
  "closing_world = ((Some (demo_inst 1 [ociInstanceFinalizer] (Some 7) ''ocid1'' '''' 0), 3),
     Some (demo_pol 1 [ociSecurityPolicyFinalizer] (Some 7) ''ocid1'' '''' 0), 2)"

lemma shared_start:
  "underway (shared_inst_ext (steady_ext inst_parts slow_compute) slow_compute) instanceGoal
     (shared_compute slow_compute) (fst \<circ> fst) (instance_view (started shared_world))"
  "underway (shared_pol_ext (steady_ext pol_parts slow_network) slow_network) policyGoal
     (shared_network slow_network) (fst \<circ> snd) (policy_view (started shared_world))"
  by (simp_all add: underway_def part_ext_def steady_ext_def shared_world_def demo_inst_def demo_pol_def demo_meta_def
      instance_phase_defs policy_phase_defs)

lemma closing_start:
  "leaving (shared_inst_ext (fading_ext inst_parts sturdy_compute) sturdy_compute) instanceGoal
     (shared_compute sturdy_compute) (fst \<circ> fst) (instance_view (started closing_world))"
  "leaving (shared_pol_ext (fading_ext pol_parts sturdy_network) sturdy_network) policyGoal
     (shared_network sturdy_network) (fst \<circ> snd) (policy_view (started closing_world))"
  by (simp_all add: leaving_def part_ext_def fading_ext_def closing_world_def demo_inst_def demo_pol_def demo_meta_def
      inst_parts_def pol_parts_def)

theorem operator_instance_progress_witness:
  "\<forall>n. bad_jobs (shared_inst_ext (steady_ext inst_parts slow_compute) slow_compute)
      (shared_pol_ext (steady_ext pol_parts slow_network) slow_network) (for_instance demo_request)
      (\<lambda>p. arrived instanceGoal (fst \<circ> fst) (instance_view p)) (mixed_work n) (started shared_world) \<le> 5"
proof
  fix n
  note work = operator_instance_progress [OF inst_part.part_api [OF steady_inst(1)] inst_part.part_clock [OF steady_inst(2)]
      inst_part.part_sdk(1) inst_part.part_patient_cloud(1) [OF clouds_patient(1)]
      instances_bystanders [OF steady_inst(2) clouds_quiet(1)] shared_start(1)]
  show "bad_jobs (shared_inst_ext (steady_ext inst_parts slow_compute) slow_compute)
      (shared_pol_ext (steady_ext pol_parts slow_network) slow_network) (for_instance demo_request)
      (\<lambda>p. arrived instanceGoal (fst \<circ> fst) (instance_view p)) (mixed_work n) (started shared_world) \<le> 5"
    using work [of slow_network "steady_ext pol_parts slow_network" n] by (simp add: shared_world_def)
qed

theorem operator_policy_progress_witness:
  "\<forall>n. bad_jobs (shared_inst_ext (steady_ext inst_parts slow_compute) slow_compute)
      (shared_pol_ext (steady_ext pol_parts slow_network) slow_network) (for_policy demo_request)
      (\<lambda>p. arrived policyGoal (fst \<circ> snd) (policy_view p)) (mixed_work n) (started shared_world) \<le> 4"
proof
  fix n
  note work = operator_policy_progress [OF pol_part.part_api [OF steady_pol(1)] pol_part.part_clock [OF steady_pol(2)]
      pol_part.part_sdk(1) pol_part.part_patient_cloud(2) [OF clouds_patient(2)]
      policies_bystanders [OF steady_pol(2) clouds_quiet(3)] shared_start(2)]
  show "bad_jobs (shared_inst_ext (steady_ext inst_parts slow_compute) slow_compute)
      (shared_pol_ext (steady_ext pol_parts slow_network) slow_network) (for_policy demo_request)
      (\<lambda>p. arrived policyGoal (fst \<circ> snd) (policy_view p)) (mixed_work n) (started shared_world) \<le> 4"
    using work [of slow_compute "steady_ext inst_parts slow_compute" n] by (simp add: shared_world_def)
qed

theorem operator_instance_deletion_witness:
  "\<forall>n. bad_jobs (shared_inst_ext (fading_ext inst_parts sturdy_compute) sturdy_compute)
      (shared_pol_ext (fading_ext pol_parts sturdy_network) sturdy_network) (for_instance demo_request)
      (\<lambda>p. gone (fst \<circ> fst) (instance_view p)) (mixed_work n) (started closing_world) \<le> 3"
proof
  fix n
  note accept = inst_part.part_call [OF sturdy_calls(1)]
  note work = operator_instance_deletion [OF inst_part.part_deletion [OF fading_inst(1)]
      inst_part.part_clock [OF fading_inst(2)] inst_part.part_sdk(2) accept [folded part_terminate]
      instances_bystanders [OF fading_inst(2) clouds_quiet(2)] closing_start(1)]
  show "bad_jobs (shared_inst_ext (fading_ext inst_parts sturdy_compute) sturdy_compute)
      (shared_pol_ext (fading_ext pol_parts sturdy_network) sturdy_network) (for_instance demo_request)
      (\<lambda>p. gone (fst \<circ> fst) (instance_view p)) (mixed_work n) (started closing_world) \<le> 3"
    using work [of sturdy_network "fading_ext pol_parts sturdy_network" n] by (simp add: closing_world_def)
qed

theorem operator_policy_deletion_witness:
  "\<forall>n. bad_jobs (shared_inst_ext (fading_ext inst_parts sturdy_compute) sturdy_compute)
      (shared_pol_ext (fading_ext pol_parts sturdy_network) sturdy_network) (for_policy demo_request)
      (\<lambda>p. gone (fst \<circ> snd) (policy_view p)) (mixed_work n) (started closing_world) \<le> 2"
proof
  fix n
  note accept = pol_part.part_call [OF sturdy_calls(2)]
  note work = operator_policy_deletion [OF pol_part.part_deletion [OF fading_pol(1)]
      pol_part.part_clock [OF fading_pol(2)] pol_part.part_sdk(2) accept [folded part_delete]
      policies_bystanders [OF fading_pol(2) clouds_quiet(4)] closing_start(2)]
  show "bad_jobs (shared_inst_ext (fading_ext inst_parts sturdy_compute) sturdy_compute)
      (shared_pol_ext (fading_ext pol_parts sturdy_network) sturdy_network) (for_policy demo_request)
      (\<lambda>p. gone (fst \<circ> snd) (policy_view p)) (mixed_work n) (started closing_world) \<le> 2"
    using work [of sturdy_compute "fading_ext inst_parts sturdy_compute" n] by (simp add: closing_world_def)
qed

end
