(* ===== verification/Retries.thy ===== *)
theory Retries
  imports SharedWorlds "HOL-Library.While_Combinator"
begin

text \<open>
  The retries of one key. controller-runtime calls a reconciler again for as long as its outcome asks for
  it (\<open>requeued\<close>): a loop that nothing in the reconcilers bounds. For deletions it is shown to end.
\<close>

section \<open>The loop\<close>

text \<open>The number of runs so far, the outcome of the last one and the state after it.\<close>

definition retried :: "('s, Outcome) state \<Rightarrow> 's \<Rightarrow> (nat \<times> Outcome \<times> 's) option" where
  "retried m s = while_option (\<lambda>(n, out, t). requeued out) (\<lambda>(n, out, t). (Suc n, run_state m t)) (1, run_state m s)"

text \<open>A run that asks for another one has used up some of \<open>\<mu>\<close>.\<close>

lemma retries_end:
  fixes \<mu> :: "'s \<Rightarrow> nat"
  assumes step: "\<And>s. P s \<Longrightarrow> post m (\<lambda>out t. P t \<and> (if requeued out then \<mu> t < \<mu> s else good t)) s"
    and s: "P s"
  shows "\<exists>n out t. retried m s = Some (n, out, t) \<and> n \<le> Suc (\<mu> s) \<and> \<not> requeued out \<and> good t"
proof -
  let ?I = "\<lambda>(n, out, t). P t \<and> (if requeued out then n + \<mu> t \<le> \<mu> s else n \<le> Suc (\<mu> s) \<and> good t)"
  have run: "P (snd (run_state m t)) \<and> (if requeued (fst (run_state m t)) then \<mu> (snd (run_state m t)) < \<mu> t
      else good (snd (run_state m t)))" if "P t" for t
    using step [OF that] by (simp add: post_def case_prod_unfold)
  let ?b = "\<lambda>(n, out, t). requeued out" and ?c = "\<lambda>(n, out, t). (Suc n, run_state m t)"
  have keep: "?I (?c r) \<and> Suc (\<mu> s) - fst (?c r) < Suc (\<mu> s) - fst r" if "?I r" "?b r" for r
    using that run [of "snd (snd r)"] by (auto simp: case_prod_unfold split: if_splits)
  have start: "?I (1, run_state m s)" using run [OF s] by (auto simp: case_prod_unfold)
  obtain r where r: "while_option ?b ?c (1, run_state m s) = Some r"
    using measure_while_option_Some [of ?I ?b ?c "\<lambda>r. Suc (\<mu> s) - fst r", OF keep start] by blast
  have "?I r" by (rule while_option_rule [of ?I ?b ?c, OF conjunct1 [OF keep] r start])
  moreover have "\<not> ?b r" by (rule while_option_stop [OF r])
  ultimately show ?thesis using r by (cases r) (simp add: retried_def)
qed

lemma departures_end:
  assumes "\<And>s. leaving ext G c obj s \<Longrightarrow> post m (left_behind ext G c obj left s) s" "leaving ext G c obj s"
  shows "\<exists>n out t. retried m s = Some (n, out, t) \<and> n \<le> Suc (left (world s)) \<and> \<not> requeued out \<and> gone obj t"
  by (rule retries_end [where P = "leaving ext G c obj" and \<mu> = "\<lambda>s. left (world s)"])
    (rule post_mono [OF assms(1)], use assms(2) in \<open>simp_all add: left_behind_def\<close>)

section \<open>Properties\<close>

text \<open>C9: The retries of a deletion end. For an instance that is being deleted and holds the finalizer, in a
  world in which reads, the SDK client, terminate calls and finalizer removals fail at most \<open>left\<close> times, the
  loop that calls \<open>Reconcile\<close> for as long as it returns an error or a delay stops after at most
  \<open>left + 1\<close> runs, and the object is gone by then: no run gives up while it is still there, and none asks for
  another one when it is gone.\<close>
theorem instance_deletion_terminates:
  assumes "patient_deletion ext instanceGoal req obj left" "patient_clock ext obj left"
    and "patient_sdk ext c obj left" "\<And>i. patient_call (TerminateInstance c i) obj left"
    and "leaving ext instanceGoal c obj s"
  shows "\<exists>n out t. retried (Reconcile ext req) s = Some (n, out, t) \<and> n \<le> Suc (left (world s)) \<and>
    \<not> requeued out \<and> gone obj t"
  by (rule departures_end [OF instance_leaves [OF assms(1-4)] assms(5)])

text \<open>The retries of a policy's deletion end in the same sense: after at most \<open>left + 1\<close> runs, with the object
  gone.\<close>
theorem policy_deletion_terminates:
  assumes "patient_deletion ext policyGoal req obj left" "patient_clock ext obj left"
    and "patient_sdk ext c obj left" "\<And>i. patient_call (DeleteSecurityList c i) obj left"
    and "leaving ext policyGoal c obj s"
  shows "\<exists>n out t. retried (ReconcilePolicy ext req) s = Some (n, out, t) \<and> n \<le> Suc (left (world s)) \<and>
    \<not> requeued out \<and> gone obj t"
  by (rule departures_end [OF policy_leaves [OF assms(1-4)] assms(5)])

section \<open>Such worlds\<close>

definition closing_inst :: "(OCIInstance option \<times> nat) InstanceSys" where
  "closing_inst = fresh_sys (Some (demo_inst 1 [ociInstanceFinalizer] (Some 7) ''ocid1'' '''' 0), 3) None"

definition closing_pol :: "(OCISecurityPolicy option \<times> nat) PolicySys" where
  "closing_pol = fresh_sys (Some (demo_pol 1 [ociSecurityPolicyFinalizer] (Some 7) ''ocid1'' '''' 0), 3) None"

lemma closing_leaves:
  "leaving (fading_ext inst_parts sturdy_compute) instanceGoal sturdy_compute fst closing_inst"
  "leaving (fading_ext pol_parts sturdy_network) policyGoal sturdy_network fst closing_pol"
  by (simp_all add: leaving_def closing_inst_def closing_pol_def fresh_sys_def fading_ext_def demo_inst_def demo_pol_def
      demo_meta_def inst_parts_def pol_parts_def)

lemma fading_sdk: "patient_sdk (fading_ext P c) c fst snd"
  by (simp add: patient_sdk_def fading_ext_def still_def)

theorem instance_deletion_terminates_witness:
  "\<exists>n out t. retried (Reconcile (fading_ext inst_parts sturdy_compute) demo_request) closing_inst = Some (n, out, t) \<and>
     n \<le> 4 \<and> \<not> requeued out \<and> gone fst t"
  using instance_deletion_terminates [OF fading_inst fading_sdk sturdy_calls(1) closing_leaves(1)]
  by (simp add: closing_inst_def fresh_sys_def)

theorem policy_deletion_terminates_witness:
  "\<exists>n out t. retried (ReconcilePolicy (fading_ext pol_parts sturdy_network) demo_request) closing_pol = Some (n, out, t) \<and>
     n \<le> 4 \<and> \<not> requeued out \<and> gone fst t"
  using policy_deletion_terminates [OF fading_pol fading_sdk sturdy_calls(2) closing_leaves(2)]
  by (simp add: closing_pol_def fresh_sys_def)

end
