(* ===== verification/Rounding.thy ===== *)
theory Rounding
  imports Complex_Main InstanceController Fixtures
begin

text \<open>
  What correct rounding to float32 means, over the reals and without reference to how it is computed: the
  value nearest to the number among all that a float32 can hold, the one with the even mantissa when two
  are equally near, and infinity from half a unit beyond the largest finite value on. \<open>round_f32\<close>
  computes it for every fraction, and so the OCPUs and the memory of a launch request are correctly rounded.
\<close>

section \<open>Float32 over the reals\<close>

definition f32_value :: "nat \<Rightarrow> int \<Rightarrow> real" where
  "f32_value m e = real m * 2 powi e"

text \<open>The mantissas and exponents of finite float32 values.\<close>

definition f32_format :: "nat \<Rightarrow> int \<Rightarrow> bool" where
  "f32_format m e \<longleftrightarrow> m < 2 ^ 24 \<and> -149 \<le> e \<and> e \<le> 104"

text \<open>The largest finite value is \<open>(2 ^ 24 - 1) * 2 ^ 104\<close>; half a unit more is too much.\<close>

definition f32_limit :: real where
  "f32_limit = (2 ^ 24 - 1 / 2) * 2 ^ 104"

text \<open>\<open>nearest_f32 neg v r\<close>: \<open>r\<close> is the float32 for plus or minus \<open>v\<close>.\<close>

fun nearest_f32 :: "bool \<Rightarrow> real \<Rightarrow> f32 \<Rightarrow> bool" where
  "nearest_f32 neg v (F32_Fin b m e) \<longleftrightarrow> b = neg \<and> f32_format m e \<and> v < f32_limit \<and>
     (\<forall>m' e'. f32_format m' e' \<longrightarrow> \<bar>f32_value m e - v\<bar> \<le> \<bar>f32_value m' e' - v\<bar> \<and>
        (\<bar>f32_value m e - v\<bar> = \<bar>f32_value m' e' - v\<bar> \<and> f32_value m e \<noteq> f32_value m' e' \<longrightarrow> even m))"
| "nearest_f32 neg v (F32_Inf b) \<longleftrightarrow> b = neg \<and> f32_limit \<le> v"
| "nearest_f32 neg v F32_NaN \<longleftrightarrow> False"

section \<open>The scaled fraction\<close>

lemma scale_value: "0 < d \<Longrightarrow> real (scale_num n e) / real (scale_den d e) = real n / real d / 2 powi e"
  by (simp add: scale_num_def scale_den_def power_int_def field_simps)

lemma log2_frac_lower:
  assumes n: "0 < n" and d: "0 < d"
  shows "2 powi (log2_frac n d) \<le> real n / real d"
proof -
  define g where "g = int (bits n) - int (bits d)"
  show ?thesis
  proof (cases "scale_den d g \<le> scale_num n g")
    case True
    then have "1 \<le> real (scale_num n g) / real (scale_den d g)" using d by (simp add: le_divide_eq)
    then show ?thesis using True d by (simp add: scale_value log2_frac_def Let_def g_def [symmetric] le_divide_eq mult.commute)
  next
    case False
    have "real (2 ^ (bits n - 1)) \<le> real n" "real d \<le> real (2 ^ bits d)"
      using bits_bounds [OF n] bits_bounds [OF d] by (simp_all only: of_nat_le_iff less_imp_le)
    then have "(2 ^ (bits n - 1)) / 2 ^ bits d \<le> real n / real d"
      using d by (intro frac_le) simp_all
    moreover have "(2::real) powi (g - 1) = 2 ^ (bits n - 1) / 2 ^ bits d"
    proof -
      have "g - 1 = int (bits n - 1) - int (bits d)" using n bits_pos_iff [of n] unfolding g_def by linarith
      then show ?thesis by (simp add: power_int_diff)
    qed
    ultimately show ?thesis using False by (simp add: log2_frac_def Let_def g_def [symmetric])
  qed
qed

text \<open>Unless it is as small as a float32 can be, the exponent leaves 24 binary digits before the point.\<close>

lemma f32_exponent_lower:
  assumes "0 < n" "0 < d" "-149 < f32_exponent n d"
  shows "2 ^ 23 \<le> real n / real d / 2 powi (f32_exponent n d)"
proof -
  have e: "log2_frac n d = f32_exponent n d + 23" using assms(3) by (simp add: f32_exponent_def)
  have "(2::real) powi (f32_exponent n d + 23) = 2 powi (f32_exponent n d) * 2 ^ 23"
    using power_int_add [of "2::real" "f32_exponent n d" 23] by simp
  moreover have "0 < (2::real) powi (f32_exponent n d)" by simp
  ultimately show ?thesis using log2_frac_lower [OF assms(1,2)] by (simp only: e pos_le_divide_eq mult.commute)
qed

section \<open>Rounding to a whole number\<close>

lemma round_half_even_near:
  assumes "0 < d"
  shows "\<bar>real (round_half_even n d) - real n / real d\<bar> \<le> 1 / 2"
proof -
  have "2 * \<bar>real (round_half_even n d) * real d - real n\<bar> \<le> real d"
    using round_half_even_error [OF assms, of n] by (metis (mono_tags, lifting) of_int_abs of_int_diff of_int_le_iff of_int_mult of_int_numeral of_int_of_nat_eq)
  moreover have "real (round_half_even n d) * real d - real n = (real (round_half_even n d) - real n / real d) * real d"
    using assms by (simp add: field_simps)
  ultimately have "(2 * \<bar>real (round_half_even n d) - real n / real d\<bar>) * real d \<le> 1 * real d" by (simp add: abs_mult)
  then show ?thesis using assms by simp
qed

lemma round_half_even_tie:
  assumes "0 < d" "\<bar>real (round_half_even n d) - real n / real d\<bar> = 1 / 2"
  shows "even (round_half_even n d)"
proof (rule ccontr)
  assume odd: "odd (round_half_even n d)"
  define q r where "q = n div d" and "r = n mod d"
  have n: "real n = real q * real d + real r" by (simp add: q_def r_def flip: of_nat_mult of_nat_add)
  have r: "r < d" using assms(1) by (simp add: r_def)
  have v: "real n / real d = real q + real r / real d" using assms(1) by (simp add: n add_divide_distrib)
  have "2 * r < d \<and> round_half_even n d = q \<or> d < 2 * r \<and> round_half_even n d = Suc q"
    using odd by (auto simp: round_half_even_def Let_def q_def [symmetric] r_def [symmetric] split: if_splits)
  then show False
  proof (elim disjE conjE)
    assume "2 * r < d" "round_half_even n d = q"
    then have "2 * real r = real d" using assms by (simp add: v field_simps)
    then show False using \<open>2 * r < d\<close> by linarith
  next
    assume "d < 2 * r" "round_half_even n d = Suc q"
    moreover from this have "\<bar>1 - real r / real d\<bar> = 1 / 2" using assms by (simp add: v)
    moreover have "real r / real d < 1" using r assms(1) by simp
    ultimately have "2 * real r = real d" using assms(1) by (simp add: field_simps)
    then show False using \<open>d < 2 * r\<close> by linarith
  qed
qed

text \<open>No whole number is nearer, and only when the one chosen is even another is as near.\<close>

lemma round_half_even_nearest:
  assumes "0 < d"
  shows "\<bar>real (round_half_even n d) - real n / real d\<bar> \<le> \<bar>real k - real n / real d\<bar>"
    and "\<bar>real (round_half_even n d) - real n / real d\<bar> = \<bar>real k - real n / real d\<bar> \<Longrightarrow>
      k \<noteq> round_half_even n d \<Longrightarrow> even (round_half_even n d)"
proof -
  let ?m = "round_half_even n d" and ?w = "real n / real d"
  have near: "\<bar>real ?m - ?w\<bar> \<le> 1 / 2" by (rule round_half_even_near [OF assms])
  have apart: "1 \<le> \<bar>real k - real ?m\<bar>" if "k \<noteq> ?m" using that by linarith
  show "\<bar>real ?m - ?w\<bar> \<le> \<bar>real k - ?w\<bar>"
  proof (cases "k = ?m")
    case False
    then show ?thesis using near apart by linarith
  qed simp
  assume same: "\<bar>real ?m - ?w\<bar> = \<bar>real k - ?w\<bar>" and k: "k \<noteq> ?m"
  have "\<bar>real ?m - ?w\<bar> = 1 / 2" using near apart [OF k] same by linarith
  then show "even ?m" by (rule round_half_even_tie [OF assms])
qed

section \<open>Rounding to the nearest float32\<close>

text \<open>The mantissa before it is normalized: no float32 is nearer.\<close>

lemma mantissa_nearest:
  fixes n d :: nat
  defines "e \<equiv> f32_exponent n d"
  defines "m \<equiv> round_half_even (scale_num n e) (scale_den d e)"
  assumes n: "0 < n" and d: "0 < d" and f: "f32_format m' e'"
  shows "\<bar>f32_value m e - real n / real d\<bar> \<le> \<bar>f32_value m' e' - real n / real d\<bar> \<and>
    (\<bar>f32_value m e - real n / real d\<bar> = \<bar>f32_value m' e' - real n / real d\<bar> \<and> f32_value m e \<noteq> f32_value m' e' \<longrightarrow> even m)"
proof -
  let ?v = "real n / real d" and ?u = "2 powi e :: real"
  define w where "w = real (scale_num n e) / real (scale_den d e)"
  have u: "0 < ?u" by simp
  have v: "?v = w * ?u" using d by (simp add: w_def scale_value)
  have scaled: "\<bar>x * ?u - ?v\<bar> = \<bar>x - w\<bar> * ?u" for x
    using u by (simp add: v abs_mult flip: left_diff_distrib)
  show ?thesis
  proof (cases "e \<le> e'")
    case True
    have "(2::real) powi e' = 2 ^ nat (e' - e) * ?u"
      using True power_int_add [of "2::real" "e' - e" e] by (simp add: power_int_def)
    then have k: "f32_value m' e' = real (m' * 2 ^ nat (e' - e)) * ?u" by (simp add: f32_value_def)
    have "\<bar>real m - w\<bar> \<le> \<bar>real (m' * 2 ^ nat (e' - e)) - w\<bar>"
      "\<bar>real m - w\<bar> = \<bar>real (m' * 2 ^ nat (e' - e)) - w\<bar> \<Longrightarrow> m' * 2 ^ nat (e' - e) \<noteq> m \<Longrightarrow> even m"
      unfolding m_def w_def by (intro round_half_even_nearest scale_den_pos d; simp)+
    then show ?thesis
      unfolding k f32_value_def [of m] scaled using u by (auto simp del: of_nat_mult)
  next
    case False
    then have "-149 < e" using f by (simp add: f32_format_def)
    then have w: "2 ^ 23 \<le> w"
      using f32_exponent_lower [OF n d] d unfolding w_def scale_value [OF d] e_def by simp
    have "\<bar>real m - w\<bar> \<le> \<bar>real (2 ^ 23) - w\<bar>"
      unfolding m_def w_def by (intro round_half_even_nearest scale_den_pos d)
    then have m: "\<bar>real m - w\<bar> \<le> w - 2 ^ 23" using w by simp
    have "(2::real) powi e' \<le> 2 powi (e - 1)" using False by (intro power_int_increasing) simp_all
    also have "\<dots> = ?u / 2" by (simp add: power_int_diff)
    finally have "f32_value m' e' \<le> real m' * (?u / 2)" unfolding f32_value_def by (intro mult_left_mono) simp_all
    also have "\<dots> < 2 ^ 23 * ?u" using f u by (simp add: f32_format_def)
    finally have "(w - 2 ^ 23) * ?u < \<bar>f32_value m' e' - ?v\<bar>"
      unfolding v by (simp add: algebra_simps)
    moreover have "\<bar>f32_value m e - ?v\<bar> \<le> (w - 2 ^ 23) * ?u"
      unfolding f32_value_def scaled using m u by (intro mult_right_mono) simp_all
    ultimately show ?thesis by linarith
  qed
qed

text \<open>Whether the number is within the limit shows in that mantissa.\<close>

lemma mantissa_limit:
  fixes n d :: nat
  defines "e \<equiv> f32_exponent n d"
  defines "m \<equiv> round_half_even (scale_num n e) (scale_den d e)"
  assumes n: "0 < n" and d: "0 < d"
  shows "real n / real d < f32_limit \<longleftrightarrow> e \<le> 103 \<or> e = 104 \<and> m \<noteq> 2 ^ 24"
proof -
  let ?v = "real n / real d" and ?u = "2 powi e :: real"
  define w where "w = real (scale_num n e) / real (scale_den d e)"
  have v: "?v = w * ?u" using d by (simp add: w_def scale_value)
  have near: "\<bar>real m - w\<bar> \<le> 1 / 2" unfolding m_def w_def by (intro round_half_even_near scale_den_pos d)
  have m: "m \<le> 2 ^ 24" using f32_mantissa_bound [OF n d] d unfolding m_def e_def by (intro round_half_even_le) simp_all
  consider "e \<le> 103" | "e = 104" | "105 \<le> e" by linarith
  then show ?thesis
  proof cases
    case 1
    have "real m \<le> 2 ^ 24" using m by simp
    then have "w \<le> 2 ^ 24 + 1 / 2" using near by linarith
    moreover have "?u \<le> 2 powi 103" using 1 by (intro power_int_increasing) simp_all
    ultimately have "w * ?u \<le> (2 ^ 24 + 1 / 2) * 2 powi 103" by (intro mult_mono) simp_all
    then show ?thesis using 1 by (simp add: v f32_limit_def)
  next
    case 2
    have "w < 2 ^ 24 - 1 / 2 \<longleftrightarrow> m \<noteq> 2 ^ 24"
    proof (cases "m = 2 ^ 24")
      case False
      have "w < 2 ^ 24 - 1 / 2"
      proof (cases "m = 2 ^ 24 - 1")
        case True
        have "\<bar>real m - w\<bar> \<noteq> 1 / 2"
        proof
          assume "\<bar>real m - w\<bar> = 1 / 2"
          from round_half_even_tie [OF scale_den_pos [OF d] this [unfolded m_def w_def]] show False
            unfolding m_def [symmetric] True by simp
        qed
        then have "w - real m < 1 / 2" using near by linarith
        then show ?thesis using True by simp
      next
        case other: False
        then have "m + 2 \<le> 2 ^ 24" using False m by simp
        then have "real m + 2 \<le> 2 ^ 24" by simp
        then show ?thesis using near by linarith
      qed
      then show ?thesis using False by simp
    next
      case True
      then have "real m = 2 ^ 24" by simp
      then have "2 ^ 24 - 1 / 2 \<le> w" using near by linarith
      then show ?thesis using True by simp
    qed
    then show ?thesis using 2 by (simp add: v f32_limit_def mult.commute)
  next
    case 3
    then have "2 ^ 23 \<le> w"
      using f32_exponent_lower [OF n d] d unfolding w_def scale_value [OF d] e_def by simp
    moreover have "2 powi 105 \<le> ?u" using 3 by (intro power_int_increasing) simp_all
    ultimately have "2 ^ 23 * 2 powi 105 \<le> w * ?u" by (intro mult_mono) simp_all
    then show ?thesis using 3 by (simp add: v f32_limit_def)
  qed
qed

theorem round_f32_nearest:
  assumes d: "0 < d"
  shows "nearest_f32 neg (real n / real d) (round_f32 neg n d)"
proof (cases "n = 0")
  case True
  then show ?thesis by (simp add: round_f32_def f32_format_def f32_value_def f32_limit_def)
next
  case False
  define e where "e = f32_exponent n d"
  define m where "m = round_half_even (scale_num n e) (scale_den d e)"
  have n: "0 < n" using False by simp
  note limit = mantissa_limit [OF n d, folded e_def, folded m_def]
  have m: "m \<le> 2 ^ 24" using f32_mantissa_bound [OF n d] d unfolding m_def e_def by (intro round_half_even_le) simp_all
  have e: "-149 \<le> e" by (simp add: e_def f32_exponent_def)
  define m1 e1 where "m1 = (if m = 2 ^ 24 then 2 ^ 23 else m)" and "e1 = (if m = 2 ^ 24 then e + 1 else e)"
  have round: "round_f32 neg n d = (if 104 < e1 then F32_Inf neg else F32_Fin neg m1 e1)"
    using False by (simp add: round_f32_def e_def [symmetric] m_def [symmetric] m1_def e1_def)
  have same: "f32_value m1 e1 = f32_value m e" "even m \<Longrightarrow> even m1"
    by (simp_all add: m1_def e1_def f32_value_def power_int_add)
  have "f32_format m1 e1" if "e1 \<le> 104" using that e m by (auto simp: f32_format_def m1_def e1_def)
  moreover have "real n / real d < f32_limit \<longleftrightarrow> e1 \<le> 104" unfolding limit by (auto simp: e1_def)
  ultimately show ?thesis
    using mantissa_nearest [OF n d, folded e_def, folded m_def] same(2) by (auto simp: round same(1))
qed

section \<open>The launch request\<close>

text \<open>The spec with its OCPUs and its memory given as texts.\<close>

definition spec_with_shape :: "string \<Rightarrow> string \<Rightarrow> OCIInstanceSpec" where
  "spec_with_shape t u = demo_inst_spec\<lparr>OCPUs := Some t, MemoryInGBs := Some u\<rparr>"

lemma ParseFloat32_nearest:
  assumes "special_float t = None" "read_float t = Some (neg, n, d)"
  shows "nearest_f32 neg (real n / real d) (fst (ParseFloat32 t))"
proof -
  have "fst (ParseFloat32 t) = round_f32 neg n d" using assms by (auto simp: ParseFloat32_def split: f32.splits)
  then show ?thesis using round_f32_nearest [OF read_float_den [OF assms(2)]] by simp
qed

text \<open>C30: OCPUs and memory reach the cloud correctly rounded, whatever finite number each is written as: when a
  text reads as plus or minus the fraction n/d, the request carries the float32 nearest to n/d among all
  float32 values (24 bits of mantissa, exponents from -149 to 104), with its sign and the even mantissa on a
  tie, and an infinity exactly when n/d is at least half a unit beyond the largest finite float32: a number
  that is too large is not refused either.\<close>
theorem shape_config_rounded:
  assumes "OCPUs sp = Some t" "special_float t = None" "read_float t = Some (neg, n, d)"
    and "MemoryInGBs sp = Some u" "special_float u = None" "read_float u = Some (neg', n', d')"
  shows "\<exists>o' g. ShapeConfig (launchDetails sp) = Some \<lparr>Ocpus = Some o', ShapeMemoryInGBs = Some g\<rparr> \<and>
    0 < d \<and> nearest_f32 neg (real n / real d) o' \<and> 0 < d' \<and> nearest_f32 neg' (real n' / real d') g"
  using ParseFloat32_nearest [OF assms(2,3)] ParseFloat32_nearest [OF assms(5,6)]
    read_float_den [OF assms(3)] read_float_den [OF assms(6)] assms(1,4)
  by (auto simp: launchDetails_def shapeConfig_def Let_def split: prod.splits)

theorem shape_config_rounded_witness:
  "\<exists>o' g. ShapeConfig (launchDetails (spec_with_shape ''0.1'' ''1e39'')) =
      Some \<lparr>Ocpus = Some o', ShapeMemoryInGBs = Some g\<rparr> \<and>
    nearest_f32 False (1 / 10) o' \<and> g = F32_Inf False"
proof -
  have r: "special_float ''0.1'' = None" "read_float ''0.1'' = Some (False, 1, 10)" "special_float ''1e39'' = None"
    by code_simp+
  have h: "read_float ''1e39'' = Some (False, 10 ^ 39, 1)"
    by (simp add: read_float_def strip_sign_def hex_prefix_def scan_exponent_def dec_digit_def lower_def Let_def)
  have "f32_limit \<le> 10 ^ 39" by (simp add: f32_limit_def)
  then have "g = F32_Inf False" if "nearest_f32 False (10 ^ 39) g" for g using that by (cases g) auto
  then show ?thesis
    using shape_config_rounded [OF _ r(1,2) _ r(3) h, of "spec_with_shape ''0.1'' ''1e39''"]
    by (auto simp: spec_with_shape_def)
qed

end
