(* ===== verification/Injection.thy ===== *)
theory Injection
  imports InstanceController PolicyController PatientWorlds
begin

text \<open>
  The client fields of the reconcilers are there so that tests can inject a client. Here a reconciler with
  an injected client is compared with one that makes its client itself: if the SDK constructor returns that
  client, the two cannot be told apart but by the calls of the constructor.
\<close>

section \<open>The state with the client injected\<close>

fun sdk_event :: "('r, 'o) Event \<Rightarrow> bool" where
  "sdk_event (SdkClient err) \<longleftrightarrow> True"
| "sdk_event _ \<longleftrightarrow> False"

definition injected :: "'c \<Rightarrow> ('w, 'r, 'o, 'c) Sys \<Rightarrow> ('w, 'r, 'o, 'c) Sys" where
  "injected c s = s\<lparr>ociClient := Some c, calls := filter (\<lambda>e. \<not> sdk_event e) (calls s)\<rparr>"

text \<open>No client yet, or the right one.\<close>

definition uninjected :: "'c \<Rightarrow> ('w, 'r, 'o, 'c) Sys \<Rightarrow> bool" where
  "uninjected c s \<longleftrightarrow> ociClient s \<in> {None, Some c}"

text \<open>The SDK constructor works, and makes \<open>c\<close>.\<close>

definition makes_client :: "('w, 'r, 'c) Ext \<Rightarrow> 'c \<Rightarrow> bool" where
  "makes_client ext c \<longleftrightarrow> (\<forall>w. NewSdkClient ext w = (Inr c, w))"

lemma injected_simps [simp]:
  "world (injected c s) = world s" "ociClient (injected c s) = Some c"
  "calls (injected c s) = filter (\<lambda>e. \<not> sdk_event e) (calls s)"
  "reconcileTotal (injected c s) = reconcileTotal s" "ociAPICallDuration (injected c s) = ociAPICallDuration s"
  "phaseTransitions (injected c s) = phaseTransitions s"
  by (simp_all add: injected_def)

section \<open>Computations that do not notice\<close>

definition blind :: "'c \<Rightarrow> (('w, 'r, 'o, 'c) Sys, 'a) state \<Rightarrow> bool" where
  "blind c m \<longleftrightarrow> (\<forall>s. uninjected c s \<longrightarrow>
     run_state m (injected c s) = apsnd (injected c) (run_state m s) \<and> uninjected c (snd (run_state m s)))"

lemma blindI:
  "(\<And>s. uninjected c s \<Longrightarrow> run_state m (injected c s) = apsnd (injected c) (run_state m s) \<and>
    uninjected c (snd (run_state m s))) \<Longrightarrow> blind c m"
  by (simp add: blind_def)

lemma blindD:
  "blind c m \<Longrightarrow> uninjected c s \<Longrightarrow> run_state m (injected c s) = apsnd (injected c) (run_state m s)"
  "blind c m \<Longrightarrow> uninjected c s \<Longrightarrow> uninjected c (snd (run_state m s))"
  by (simp_all add: blind_def)

named_theorems blind_intros

lemma blind_return [blind_intros]: "blind c (State_Monad.return a)"
  by (simp add: blind_def State_Monad.return_def)

lemma blind_bind [blind_intros]:
  assumes "blind c m" "\<And>a. blind c (f a)"
  shows "blind c (State_Monad.bind m f)"
  by (rule blindI) (simp add: blindD [OF assms(1)] blindD [OF assms(2)] case_prod_unfold)

lemma blind_cases [blind_intros]:
  "(b \<Longrightarrow> blind c m) \<Longrightarrow> (\<not> b \<Longrightarrow> blind c n) \<Longrightarrow> blind c (if b then m else n)"
  "(\<And>e. blind c (f e)) \<Longrightarrow> (\<And>x. blind c (g x)) \<Longrightarrow> blind c (case r of Inl e \<Rightarrow> f e | Inr x \<Rightarrow> g x)"
  "blind c m \<Longrightarrow> (\<And>x. blind c (h x)) \<Longrightarrow> blind c (case q of None \<Rightarrow> m | Some x \<Rightarrow> h x)"
  by (auto split: sum.split option.split)

lemma blind_ext_call:
  assumes "\<And>a. \<not> sdk_event (ev a)"
  shows "blind c (ext_call f ev)"
  by (rule blindI) (simp add: ext_call_def injected_def uninjected_def case_prod_unfold assms)

lemma blind_calls [blind_intros]:
  "blind c (k8s_get ext k)" "blind c (k8s_update ext x)" "blind c (k8s_status_update ext x)" "blind c (oci_call g h)"
  by (simp_all add: call_defs blind_ext_call)

lemma blind_counts [blind_intros]:
  "blind c (inc_reconcileTotal ctl l)" "blind c (inc_phaseTransitions ctl p)" "blind c (observe_duration ctl op l d)"
  "blind c (read_clock ext)"
  by (rule blindI, simp add: injected_def uninjected_def inc_reconcileTotal_def inc_phaseTransitions_def
      observe_duration_def read_clock_def case_prod_unfold)+

lemma blind_measure [blind_intros]: "blind c m \<Longrightarrow> blind c (measureOCICall ext ctl op m)"
  unfolding measureOCICall_def Let_def by (intro blind_intros)

lemma blind_setFailedStatus [blind_intros]: "blind c (setFailedStatus F ext x reason)"
  unfolding setFailedStatus_def by (intro blind_intros)

text \<open>
  The field is read, and if it is nil the client is made and perhaps kept: what comes next gets the same client
  either way.
\<close>

lemma blind_client:
  assumes run: "\<And>s. uninjected c s \<Longrightarrow> run_state (acquire None) s = (Inr c, keep (s\<lparr>calls := calls s @ [SdkClient None]\<rparr>))"
    and keep: "keep = id \<or> keep = ociClient_update (\<lambda>_. Some c)"
    and given: "acquire (Some c) = State_Monad.return (Inr c)" and rest: "blind c (f (Inr c))"
  shows "blind c (State_Monad.bind get_client (\<lambda>held. State_Monad.bind (acquire held) f))"
proof (rule blindI)
  fix s :: "('a, 'b, 'c, 'd) Sys"
  assume s: "uninjected c s"
  let ?t = "keep (s\<lparr>calls := calls s @ [SdkClient None]\<rparr>)"
  have t: "injected c ?t = injected c s" "uninjected c ?t" using keep s by (auto simp: injected_def uninjected_def)
  show "run_state (State_Monad.bind get_client (\<lambda>held. State_Monad.bind (acquire held) f)) (injected c s) =
      apsnd (injected c) (run_state (State_Monad.bind get_client (\<lambda>held. State_Monad.bind (acquire held) f)) s) \<and>
    uninjected c (snd (run_state (State_Monad.bind get_client (\<lambda>held. State_Monad.bind (acquire held) f)) s))"
  proof (cases "ociClient s")
    case None
    then show ?thesis
      using blindD [OF rest t(2)] by (simp add: get_client_def run [OF s] given State_Monad.return_def t(1))
  next
    case (Some c')
    then have "c' = c" using s by (simp add: uninjected_def)
    then show ?thesis
      using blindD [OF rest s] Some by (simp add: get_client_def given State_Monad.return_def)
  qed
qed

section \<open>The reconcilers\<close>

text \<open>The two constructors.\<close>

lemma newComputeClient_run:
  "makes_client ext c \<Longrightarrow> run_state (newComputeClient ext) s = (Inr c, s\<lparr>calls := calls s @ [SdkClient None]\<rparr>)"
  by (simp add: newComputeClient_def new_sdk_client_def ext_call_def makes_client_def State_Monad.return_def)

lemma newVirtualNetworkClient_run:
  "makes_client ext c \<Longrightarrow> run_state (newVirtualNetworkClient ext) s = (Inr c, s\<lparr>calls := calls s @ [SdkClient None]\<rparr>)"
  by (simp add: newVirtualNetworkClient_def new_sdk_client_def ext_call_def makes_client_def State_Monad.return_def)

lemmas client_runs = newComputeClient_run newVirtualNetworkClient_run put_client_def State_Monad.return_def

lemma blind_instance:
  assumes "makes_client ext c"
  shows "blind c (Reconcile ext req)"
proof -
  have new: "blind c (reconcileNew ext x c)" for x
    unfolding reconcileNew_def call_launch_def by (intro blind_intros)
  have existing: "blind c (reconcileExisting ext x c)" for x
    unfolding reconcileExisting_def call_get_def Let_def by (intro blind_intros)
  have deletion: "blind c (handleDeletion ext x)" for x
    unfolding handleDeletion_def call_terminate_def Let_def
    by (intro blind_intros blind_client [where keep = id])
      (simp_all add: client_runs assms blind_intros)
  have active: "blind c (reconcileActive ext x)" for x
    unfolding reconcileActive_def
    by (rule blind_client [where keep = "ociClient_update (\<lambda>_. Some c)"])
      (simp_all add: newComputeClient_run [OF assms] client_runs new existing)
  show ?thesis
    unfolding Reconcile_def reconcileBody_def by (intro blind_intros deletion active)
qed

lemma blind_policy:
  assumes "makes_client ext c"
  shows "blind c (ReconcilePolicy ext req)"
proof -
  have new: "blind c (reconcileNewPolicy ext x c)" for x
    unfolding reconcileNewPolicy_def call_create_list_def by (intro blind_intros)
  have existing: "blind c (reconcileExistingPolicy ext x c)" for x
    unfolding reconcileExistingPolicy_def call_get_list_def Let_def by (intro blind_intros)
  have deletion: "blind c (handlePolicyDeletion ext x)" for x
    unfolding handlePolicyDeletion_def call_delete_list_def Let_def
    by (intro blind_intros blind_client [where keep = id])
      (simp_all add: client_runs assms blind_intros)
  have active: "blind c (reconcileActivePolicy ext x)" for x
    unfolding reconcileActivePolicy_def
    by (rule blind_client [where keep = "ociClient_update (\<lambda>_. Some c)"])
      (simp_all add: newVirtualNetworkClient_run [OF assms] client_runs new existing)
  show ?thesis
    unfolding ReconcilePolicy_def reconcilePolicyBody_def by (intro blind_intros deletion active)
qed

lemma blind_traverse: "(\<And>k. blind c (m k)) \<Longrightarrow> blind c (traverse_list m ks)"
  by (induction ks) (simp_all add: blind_intros)

section \<open>Properties\<close>

text \<open>C12: Tests with an injected compute client exercise what runs in production. If the SDK constructor returns
  the client \<open>c\<close>, any sequence of reconciles, of any instances, from a state without client gives the same
  outcomes and the same outside world, calls and metrics as from that state with \<open>c\<close> injected; only the
  calls of the constructor itself (which a deletion repeats, since it does not keep its client) are missing.\<close>
theorem injected_compute_client:
  assumes "makes_client ext c" "uninjected c s"
  shows "run_state (traverse_list (Reconcile ext) reqs) (injected c s) =
    apsnd (injected c) (run_state (traverse_list (Reconcile ext) reqs) s)"
  by (rule blindD(1) [OF blind_traverse [OF blind_instance [OF assms(1)]] assms(2)])

text \<open>The same for tests with an injected virtual network client: any sequence of reconciles of policies has
  the same outcomes, outside world, calls and metrics as one that makes this client itself, but for the calls
  of the constructor.\<close>
theorem injected_network_client:
  assumes "makes_client ext c" "uninjected c s"
  shows "run_state (traverse_list (ReconcilePolicy ext) reqs) (injected c s) =
    apsnd (injected c) (run_state (traverse_list (ReconcilePolicy ext) reqs) s)"
  by (rule blindD(1) [OF blind_traverse [OF blind_policy [OF assms(1)]] assms(2)])

theorem injected_compute_client_witness:
  "\<forall>reqs. run_state (traverse_list (Reconcile (steady_ext inst_parts slow_compute)) reqs)
      (injected slow_compute (fresh_sys (demo_inst 1 [] None '''' '''' 0, 3) None)) =
    apsnd (injected slow_compute) (run_state (traverse_list (Reconcile (steady_ext inst_parts slow_compute)) reqs)
      (fresh_sys (demo_inst 1 [] None '''' '''' 0, 3) None))"
  by (intro allI injected_compute_client) (simp_all add: makes_client_def steady_ext_def uninjected_def fresh_sys_def)

theorem injected_network_client_witness:
  "\<forall>reqs. run_state (traverse_list (ReconcilePolicy (steady_ext pol_parts slow_network)) reqs)
      (injected slow_network (fresh_sys (demo_pol 1 [] None '''' '''' 0, 3) None)) =
    apsnd (injected slow_network) (run_state (traverse_list (ReconcilePolicy (steady_ext pol_parts slow_network)) reqs)
      (fresh_sys (demo_pol 1 [] None '''' '''' 0, 3) None))"
  by (intro allI injected_network_client) (simp_all add: makes_client_def steady_ext_def uninjected_def fresh_sys_def)

end
