(* ===== verification/Convergence.thy ===== *)
theory Convergence
  imports Patience Fixtures
begin

text \<open>
  Progress of the instance reconciler. \<open>healthy\<close> states what the outside world must do for one object:
  reads are current, writes of the current object go through and change what they write, the cloud
  launches, and after \<open>left\<close> polls it reports the instance as running. Under it, repeated reconciles
  bring a new object to Running, and keep it there.
\<close>

section \<open>A world in which nothing fails\<close>

text \<open>\<open>obj\<close> reads the object that the API server holds, \<open>left\<close> how many polls still answer Provisioning.\<close>

definition accepted_status :: "'w InstanceExt \<Rightarrow> ('w \<Rightarrow> OCIInstance) \<Rightarrow> ('w \<Rightarrow> nat) \<Rightarrow> bool" where
  "accepted_status ext obj left \<longleftrightarrow> (\<forall>w y. InstMeta y = InstMeta (obj w) \<longrightarrow>
     (let (r, w') = StatusUpdate (K8s ext) y w in
      r = Inr (obj w') \<and> OCIInstance.Status (obj w') = OCIInstance.Status y \<and> left w' = left w \<and>
      Generation (InstMeta (obj w')) = Generation (InstMeta (obj w)) \<and>
      DeletionTimestamp (InstMeta (obj w')) = DeletionTimestamp (InstMeta (obj w)) \<and>
      ContainsFinalizer ext (obj w') ociInstanceFinalizer = ContainsFinalizer ext (obj w) ociInstanceFinalizer))"

definition accepted_finalizer :: "'w InstanceExt \<Rightarrow> ('w \<Rightarrow> OCIInstance) \<Rightarrow> ('w \<Rightarrow> nat) \<Rightarrow> bool" where
  "accepted_finalizer ext obj left \<longleftrightarrow> (\<forall>w.
     (let (r, w') = Update (K8s ext) (AddFinalizer ext (obj w) ociInstanceFinalizer) w in
      r = Inr (obj w') \<and> OCIInstance.Status (obj w') = OCIInstance.Status (obj w) \<and> left w' = left w \<and>
      Generation (InstMeta (obj w')) = Generation (InstMeta (obj w)) \<and>
      DeletionTimestamp (InstMeta (obj w')) = DeletionTimestamp (InstMeta (obj w)) \<and>
      ContainsFinalizer ext (obj w') ociInstanceFinalizer))"

definition working_cloud :: "'w OCIComputeClient \<Rightarrow> ('w \<Rightarrow> OCIInstance) \<Rightarrow> ('w \<Rightarrow> nat) \<Rightarrow> bool" where
  "working_cloud c obj left \<longleftrightarrow>
     (\<forall>w d. let (r, w') = LaunchInstance c d w in
        still obj left w w' \<and> (\<exists>i x. r = Inr x \<and> InstId x = Some i \<and> i \<noteq> '''')) \<and>
     (\<forall>w i. let (r, w') = GetInstance c i w in
        obj w' = obj w \<and> left w' = left w - 1 \<and> (\<exists>x. r = Inr x \<and> InstLifecycleState x =
          (if left w = 0 then InstanceLifecycleStateRunning else InstanceLifecycleStateProvisioning)))"

definition healthy ::
    "'w InstanceExt \<Rightarrow> 'w OCIComputeClient \<Rightarrow> NamespacedName \<Rightarrow> ('w \<Rightarrow> OCIInstance) \<Rightarrow> ('w \<Rightarrow> nat) \<Rightarrow> bool" where
  "healthy ext c req obj left \<longleftrightarrow>
     (\<forall>w. still obj left w (snd (Now ext w))) \<and>
     (\<forall>w. fst (NewSdkClient ext w) = Inr c \<and> still obj left w (snd (NewSdkClient ext w))) \<and>
     (\<forall>w. fst (Get (K8s ext) req w) = Inr (obj w) \<and> still obj left w (snd (Get (K8s ext) req w))) \<and>
     accepted_status ext obj left \<and> accepted_finalizer ext obj left \<and> working_cloud c obj left"

section \<open>Stages\<close>

text \<open>The object is not being deleted, and the reconciler holds no other client than the working one.\<close>

definition at_work :: "'w InstanceExt \<Rightarrow> 'w OCIComputeClient \<Rightarrow> ('w \<Rightarrow> OCIInstance) \<Rightarrow> 'w InstanceSys \<Rightarrow> bool" where
  "at_work ext c obj s \<longleftrightarrow> (ociClient s = None \<or> ociClient s = Some c) \<and>
     IsZero ext (DeletionTimestamp (InstMeta (obj (world s))))"

definition finalized :: "'w InstanceExt \<Rightarrow> ('w \<Rightarrow> OCIInstance) \<Rightarrow> 'w InstanceSys \<Rightarrow> bool" where
  "finalized ext obj s \<longleftrightarrow> ContainsFinalizer ext (obj (world s)) ociInstanceFinalizer"

definition unlaunched :: "('w \<Rightarrow> OCIInstance) \<Rightarrow> 'w InstanceSys \<Rightarrow> bool" where
  "unlaunched obj s \<longleftrightarrow> InstanceID (OCIInstance.Status (obj (world s))) = '''' \<and>
     \<not> failed_and_observed (obj (world s))"

definition running :: "('w \<Rightarrow> OCIInstance) \<Rightarrow> 'w InstanceSys \<Rightarrow> bool" where
  "running obj s \<longleftrightarrow> InstanceID (OCIInstance.Status (obj (world s))) \<noteq> '''' \<and>
     OCIInstanceStatus.Phase (OCIInstance.Status (obj (world s))) = InstancePhaseRunning \<and>
     OCIInstanceStatus.ObservedGeneration (OCIInstance.Status (obj (world s))) =
       Generation (InstMeta (obj (world s)))"

definition coming_up :: "('w \<Rightarrow> OCIInstance) \<Rightarrow> 'w InstanceSys \<Rightarrow> bool" where
  "coming_up obj s \<longleftrightarrow> InstanceID (OCIInstance.Status (obj (world s))) \<noteq> '''' \<and>
     OCIInstanceStatus.Phase (OCIInstance.Status (obj (world s))) \<noteq> InstancePhaseFailed"

lemma phases_differ:
  "InstancePhaseRunning \<noteq> InstancePhaseFailed" "InstancePhaseProvisioning \<noteq> InstancePhaseFailed"
  by (simp_all add: instance_phase_defs)

lemmas stage_defs = at_work_def finalized_def unlaunched_def running_def coming_up_def failed_and_observed_def

section \<open>One reconcile\<close>

lemma healthy_laws:
  assumes "healthy ext c req obj left"
  shows "obj (snd (Now ext w)) = obj w" "left (snd (Now ext w)) = left w"
    "fst (NewSdkClient ext w) = Inr c" "obj (snd (NewSdkClient ext w)) = obj w"
    "left (snd (NewSdkClient ext w)) = left w"
    "fst (Get (K8s ext) req w) = Inr (obj w)" "obj (snd (Get (K8s ext) req w)) = obj w"
    "left (snd (Get (K8s ext) req w)) = left w"
    "obj (snd (LaunchInstance c d w)) = obj w" "left (snd (LaunchInstance c d w)) = left w"
    "obj (snd (GetInstance c i w)) = obj w" "left (snd (GetInstance c i w)) = left w - 1"
  using assms by (auto simp: healthy_def still_def working_cloud_def case_prod_unfold Let_def)

lemma healthy_status:
  assumes "healthy ext c req obj left" "InstMeta y = InstMeta (obj w)"
  defines "w' \<equiv> snd (StatusUpdate (K8s ext) y w)"
  shows "fst (StatusUpdate (K8s ext) y w) = Inr (obj w')" "OCIInstance.Status (obj w') = OCIInstance.Status y"
    "left w' = left w" "Generation (InstMeta (obj w')) = Generation (InstMeta (obj w))"
    "DeletionTimestamp (InstMeta (obj w')) = DeletionTimestamp (InstMeta (obj w))"
    "ContainsFinalizer ext (obj w') ociInstanceFinalizer = ContainsFinalizer ext (obj w) ociInstanceFinalizer"
  using assms by (auto simp: healthy_def accepted_status_def case_prod_unfold Let_def)

lemma healthy_finalizer:
  assumes "healthy ext c req obj left" "obj w = x"
  defines "w' \<equiv> snd (Update (K8s ext) (AddFinalizer ext x ociInstanceFinalizer) w)"
  shows "fst (Update (K8s ext) (AddFinalizer ext x ociInstanceFinalizer) w) = Inr (obj w')"
    "OCIInstance.Status (obj w') = OCIInstance.Status x" "left w' = left w"
    "Generation (InstMeta (obj w')) = Generation (InstMeta x)"
    "DeletionTimestamp (InstMeta (obj w')) = DeletionTimestamp (InstMeta x)"
    "ContainsFinalizer ext (obj w') ociInstanceFinalizer"
  using assms by (auto simp: healthy_def accepted_finalizer_def case_prod_unfold Let_def)

lemma healthy_launch:
  assumes "healthy ext c req obj left"
  shows "\<exists>x i. fst (LaunchInstance c d w) = Inr x \<and> InstId x = Some i \<and> i \<noteq> ''''"
proof -
  have "working_cloud c obj left" using assms by (simp add: healthy_def)
  then show ?thesis unfolding working_cloud_def case_prod_unfold Let_def by blast
qed

lemma healthy_poll:
  assumes "healthy ext c req obj left"
  shows "\<exists>x. fst (GetInstance c i w) = Inr x \<and> InstLifecycleState x =
    (if left w = 0 then InstanceLifecycleStateRunning else InstanceLifecycleStateProvisioning)"
proof -
  have "working_cloud c obj left" using assms by (simp add: healthy_def)
  then show ?thesis unfolding working_cloud_def case_prod_unfold Let_def by blast
qed

lemma step_finalizer:
  assumes h: "healthy ext c req obj left" and "at_work ext c obj s" "unlaunched obj s" "\<not> finalized ext obj s"
  shows "post (Reconcile ext req) (\<lambda>_ t. at_work ext c obj t \<and> unlaunched obj t \<and> finalized ext obj t \<and>
    left (world t) = left (world s)) s"
  using assms(2-)
  by (simp add: Reconcile_def reconcileBody_def call_defs case_prod_unfold stage_defs healthy_laws [OF h]
      healthy_finalizer [OF h])

lemma step_launch:
  assumes h: "healthy ext c req obj left" and "at_work ext c obj s" "unlaunched obj s" "finalized ext obj s"
  shows "post (Reconcile ext req) (\<lambda>_ t. at_work ext c obj t \<and> coming_up obj t \<and> finalized ext obj t \<and>
    left (world t) = left (world s)) s"
proof -
  have launch: "post (reconcileNew ext (obj (world s)) c) (\<lambda>_ t. at_work ext c obj t \<and> coming_up obj t \<and>
      finalized ext obj t \<and> left (world t) = left (world s)) s'"
    if "at_work ext c obj s'" "finalized ext obj s'" "obj (world s') = obj (world s)"
      "left (world s') = left (world s)" for s'
  proof -
    let ?w1 = "snd (StatusUpdate (K8s ext) (InstanceTypes.set_phase InstancePhaseProvisioning (obj (world s))) (world s'))"
    let ?w2 = "snd (Now ext ?w1)"
    obtain x i where x: "fst (LaunchInstance c (launchDetails (OCIInstance.Spec (obj ?w1))) ?w2) = Inr x"
      "InstId x = Some i" "i \<noteq> ''''"
      using healthy_launch [OF h] by blast
    show ?thesis using that
      by (simp add: reconcileNew_def call_launch_def call_defs case_prod_unfold stage_defs healthy_laws [OF h]
        healthy_status [OF h] x InstanceTypes.GetGeneration_def phases_differ)
  qed
  show ?thesis
    using assms(2-) launch
    by (auto simp: Reconcile_def reconcileBody_def reconcileActive_def newComputeClient_def call_defs
        case_prod_unfold stage_defs healthy_laws [OF h] split: option.splits)
qed

lemma step_poll:
  assumes h: "healthy ext c req obj left" and "at_work ext c obj s" "coming_up obj s" "finalized ext obj s"
  shows "post (Reconcile ext req) (\<lambda>_ t. at_work ext c obj t \<and> coming_up obj t \<and> finalized ext obj t \<and>
    left (world t) = left (world s) - 1 \<and> (left (world s) = 0 \<longrightarrow> running obj t)) s"
proof -
  have poll: "post (reconcileExisting ext (obj (world s)) c) (\<lambda>_ t. at_work ext c obj t \<and> coming_up obj t \<and>
      finalized ext obj t \<and> left (world t) = left (world s) - 1 \<and> (left (world s) = 0 \<longrightarrow> running obj t)) s'"
    if p: "at_work ext c obj s'" "coming_up obj s'" "finalized ext obj s'" "obj (world s') = obj (world s)"
      "left (world s') = left (world s)" for s'
  proof -
    obtain x where x: "fst (GetInstance c (Some (InstanceID (OCIInstance.Status (obj (world s)))))
        (snd (Now ext (world s')))) = Inr x" "InstLifecycleState x =
      (if left (world s) = 0 then InstanceLifecycleStateRunning else InstanceLifecycleStateProvisioning)"
      using healthy_poll [OF h, of "Some (InstanceID (OCIInstance.Status (obj (world s))))"
          "snd (Now ext (world s'))"] p by (auto simp: healthy_laws [OF h])
    show ?thesis using p x
      by (cases "left (world s) = 0")
        (simp_all add: reconcileExisting_def call_get_def call_defs case_prod_unfold Let_def stage_defs
        healthy_laws [OF h] healthy_status [OF h] phase_of_lifecycle_def still_provisioning_def
        InstanceTypes.GetGeneration_def phases_differ)
  qed
  show ?thesis
    using assms(2-) poll
    by (auto simp: Reconcile_def reconcileBody_def reconcileActive_def newComputeClient_def call_defs
        case_prod_unfold stage_defs healthy_laws [OF h] split: option.splits)
qed

section \<open>Many reconciles\<close>

definition settled :: "'w InstanceExt \<Rightarrow> 'w OCIComputeClient \<Rightarrow> ('w \<Rightarrow> OCIInstance) \<Rightarrow> 'w InstanceSys \<Rightarrow> bool" where
  "settled ext c obj s \<longleftrightarrow> at_work ext c obj s \<and> coming_up obj s \<and> finalized ext obj s"

lemma polls:
  assumes h: "healthy ext c req obj left"
  shows "settled ext c obj s \<Longrightarrow> left (world s) < n \<Longrightarrow> running obj (final (reconciles (Reconcile ext req) n) s)"
proof (induction n arbitrary: s)
  case (Suc n)
  let ?t = "final (Reconcile ext req) s"
  have t: "settled ext c obj ?t" "left (world ?t) = left (world s) - 1" "left (world s) = 0 \<longrightarrow> running obj ?t"
    using step_poll [OF h, of s] Suc.prems(1) by (simp_all add: settled_def post_outcome)
  show ?case
  proof (cases n)
    case 0
    then show ?thesis using t Suc.prems by simp
  next
    case (Suc m)
    then have "left (world ?t) < n" using t Suc.prems by simp
    then show ?thesis using Suc.IH [of ?t] t by simp
  qed
qed simp

text \<open>In a world in which nothing fails, an object that is not being deleted, records no instance and is
  not given up on reaches phase Running with its instance recorded and its generation observed after at
  most three reconciles (finalizer, launch, poll) and one more for each poll that still answers
  Provisioning, and it is Running after every later number of reconciles.\<close>
theorem instance_converges:
  assumes "healthy ext c req obj left" "at_work ext c obj s" "unlaunched obj s" "left (world s) + 3 \<le> n"
  shows "running obj (final (reconciles (Reconcile ext req) n) s)"
proof -
  have launch: "running obj (final (reconciles (Reconcile ext req) (Suc m)) u)"
    if "at_work ext c obj u" "unlaunched obj u" "finalized ext obj u" "left (world u) < m" for u m
    using step_launch [OF assms(1) that(1-3)] polls [OF assms(1), of "final (Reconcile ext req) u" m] that(4)
    by (simp add: settled_def post_outcome)
  obtain m where n: "n = Suc (Suc m)" "left (world s) < m"
    using that [of "n - 2"] assms(4) by simp
  show ?thesis
  proof (cases "finalized ext obj s")
    case True
    then show ?thesis using launch [of s "Suc m"] assms(2,3) n by simp
  next
    case False
    then show ?thesis
      using step_finalizer [OF assms(1-3)] launch [of "final (Reconcile ext req) s" m] n
      by (simp add: post_outcome)
  qed
qed

section \<open>Such a world\<close>

text \<open>The pair of the stored object and the number of polls left.\<close>

definition calm_client :: "(OCIInstance \<times> nat) OCIComputeClient" where
  "calm_client = \<lparr>LaunchInstance = (\<lambda>d w. (Inr launched_demo, w)),
     GetInstance = (\<lambda>i (x, k). (Inr \<lparr>InstId = i, InstLifecycleState =
       (if k = 0 then InstanceLifecycleStateRunning else InstanceLifecycleStateProvisioning)\<rparr>, (x, k - 1))),
     TerminateInstance = (\<lambda>i w. (Inr (), w))\<rparr>"

definition calm_ext :: "(OCIInstance \<times> nat) InstanceExt" where
  "calm_ext = \<lparr>
     K8s = \<lparr>Get = (\<lambda>key (x, k). (Inr x, (x, k))),
       Update = (\<lambda>y (x, k). let z = y\<lparr>OCIInstance.Status := OCIInstance.Status x\<rparr> in (Inr z, (z, k))),
       StatusUpdate = (\<lambda>y (x, k). let z = x\<lparr>OCIInstance.Status := OCIInstance.Status y\<rparr> in (Inr z, (z, k)))\<rparr>,
     IsNotFound = (\<lambda>e. False), IsZero = (\<lambda>t. t = None),
     ContainsFinalizer = (\<lambda>x f. f \<in> set (Finalizers (InstMeta x))),
     AddFinalizer = AddFinalizer inst_ext, RemoveFinalizer = RemoveFinalizer inst_ext,
     ObjectKeyFromObject = ObjectKeyFromObject inst_ext,
     NewSdkClient = (\<lambda>w. (Inr calm_client, w)), Now = (\<lambda>w. (0, w))\<rparr>"

lemma calm_healthy: "healthy calm_ext calm_client req fst snd"
  by (auto simp: healthy_def accepted_status_def accepted_finalizer_def working_cloud_def still_def calm_ext_def
      calm_client_def inst_ext_def world_ext_def inst_parts_def Let_def split: prod.splits)

theorem instance_converges_witness:
  "running fst (final (reconciles (Reconcile calm_ext demo_request) 5)
     (fresh_sys (demo_inst 1 [] None '''' '''' 0, 2) None))"
  by (rule instance_converges [OF calm_healthy])
    (simp_all add: at_work_def unlaunched_def fresh_sys_def calm_ext_def inst_demo_facts failed_and_observed_def
      InstancePhaseFailed_def)

end
