(* ===== verification/Startup.thy ===== *)
theory Startup
  imports Prelude "HOL-Library.Sublist"
begin

text \<open>
  \<open>cmd/main.go\<close> and the \<open>SetupWithManager\<close> of both controllers: the options derived from the parsed
  flags, and the sequence of calls that builds and starts the manager, each with its exit on failure.
  The controller-runtime packages are the parameter \<open>host\<close>. The command line is parsed in \<open>CommandLine\<close>,
  the scheme is built in \<open>Initialization\<close>; log setup is left out.
\<close>

section \<open>Flags\<close>

record Flags =
  metricsAddr :: string
  metricsCertPath :: string
  metricsCertName :: string
  metricsCertKey :: string
  webhookCertPath :: string
  webhookCertName :: string
  webhookCertKey :: string
  enableLeaderElection :: bool
  probeAddr :: string
  secureMetrics :: bool
  enableHTTP2 :: bool

text \<open>The values without any flag on the command line.\<close>

definition defaultFlags :: Flags where
  "defaultFlags = \<lparr>metricsAddr = ''0'', metricsCertPath = '''', metricsCertName = ''tls.crt'',
     metricsCertKey = ''tls.key'', webhookCertPath = '''', webhookCertName = ''tls.crt'',
     webhookCertKey = ''tls.key'', enableLeaderElection = False, probeAddr = '':8081'',
     secureMetrics = True, enableHTTP2 = False\<rparr>"

section \<open>Server options\<close>

text \<open>The field of \<open>tls.Config\<close> that the program sets. A TLS option changes a configuration in place.\<close>

record TlsConfig =
  NextProtos :: "string slice"

type_synonym TlsOpt = "TlsConfig \<Rightarrow> TlsConfig"

definition disableHTTP2 :: TlsOpt where
  "disableHTTP2 c = c\<lparr>NextProtos := Some [''http/1.1'']\<rparr>"

definition tlsOpts :: "Flags \<Rightarrow> TlsOpt slice" where
  "tlsOpts f = (if \<not> enableHTTP2 f then append_slice None disableHTTP2 else None)"

record WebhookOptions =
  W_TLSOpts :: "TlsOpt slice"
  W_CertDir :: string
  W_CertName :: string
  W_KeyName :: string

definition webhookServerOptions :: "Flags \<Rightarrow> WebhookOptions" where
  "webhookServerOptions f =
     (let o1 = \<lparr>W_TLSOpts = tlsOpts f, W_CertDir = '''', W_CertName = '''', W_KeyName = ''''\<rparr> in
      if 0 < length (webhookCertPath f)
      then o1\<lparr>W_CertDir := webhookCertPath f, W_CertName := webhookCertName f, W_KeyName := webhookCertKey f\<rparr>
      else o1)"

record 'f MetricsOptions =
  M_BindAddress :: string
  M_SecureServing :: bool
  M_TLSOpts :: "TlsOpt slice"
  M_FilterProvider :: "'f option"
  M_CertDir :: string
  M_CertName :: string
  M_KeyName :: string

text \<open>\<open>withAuth\<close> is \<open>filters.WithAuthenticationAndAuthorization\<close>.\<close>

definition metricsServerOptions :: "'f \<Rightarrow> Flags \<Rightarrow> 'f MetricsOptions" where
  "metricsServerOptions withAuth f =
     (let o1 = \<lparr>M_BindAddress = metricsAddr f, M_SecureServing = secureMetrics f, M_TLSOpts = tlsOpts f,
            M_FilterProvider = None, M_CertDir = '''', M_CertName = '''', M_KeyName = ''''\<rparr>;
          o2 = (if secureMetrics f then o1\<lparr>M_FilterProvider := Some withAuth\<rparr> else o1)
      in if 0 < length (metricsCertPath f)
         then o2\<lparr>M_CertDir := metricsCertPath f, M_CertName := metricsCertName f, M_KeyName := metricsCertKey f\<rparr>
         else o2)"

record ('s, 'ws, 'f) ManagerOptions =
  Scheme :: 's
  Metrics :: "'f MetricsOptions"
  WebhookServer :: 'ws
  HealthProbeBindAddress :: string
  LeaderElection :: bool
  LeaderElectionID :: string

section \<open>Starting the manager\<close>

text \<open>
  The calls of \<open>main\<close> into controller-runtime: \<open>GetConfigOrDie\<close> (false when it exits the process),
  \<open>NewManager\<close>, \<open>Complete\<close> for a resource kind and a controller name, the two health checks and \<open>Start\<close>.
\<close>

record ('w, 's, 'ws, 'f, 'm) Host =
  NewServer :: "WebhookOptions \<Rightarrow> 'ws"
  WithAuth :: 'f
  GetConfigOrDie :: "'w \<Rightarrow> bool \<times> 'w"
  NewManager :: "('s, 'ws, 'f) ManagerOptions \<Rightarrow> 'w \<Rightarrow> (go_error + 'm) \<times> 'w"
  Complete :: "'m \<Rightarrow> string \<Rightarrow> string \<Rightarrow> 'w \<Rightarrow> go_error option \<times> 'w"
  AddHealthzCheck :: "'m \<Rightarrow> string \<Rightarrow> 'w \<Rightarrow> go_error option \<times> 'w"
  AddReadyzCheck :: "'m \<Rightarrow> string \<Rightarrow> 'w \<Rightarrow> go_error option \<times> 'w"
  Start :: "'m \<Rightarrow> 'w \<Rightarrow> go_error option \<times> 'w"

datatype Step = ConfigStep | ManagerStep | SetupStep string | HealthzStep | ReadyzStep | StartStep

definition managerOptions :: "('w, 's, 'ws, 'f, 'm) Host \<Rightarrow> 's \<Rightarrow> Flags \<Rightarrow> ('s, 'ws, 'f) ManagerOptions" where
  "managerOptions host scheme f = \<lparr>Scheme = scheme, Metrics = metricsServerOptions (WithAuth host) f,
     WebhookServer = NewServer host (webhookServerOptions f), HealthProbeBindAddress = probeAddr f,
     LeaderElection = enableLeaderElection f, LeaderElectionID = ''13951df4.nvcne-demo.io''\<rparr>"

text \<open>\<open>SetupWithManager\<close> of the two reconcilers.\<close>

definition instanceSetupWithManager :: "('w, 's, 'ws, 'f, 'm) Host \<Rightarrow> 'm \<Rightarrow> 'w \<Rightarrow> go_error option \<times> 'w" where
  "instanceSetupWithManager host mgr = Complete host mgr ''OCIInstance'' ''ociinstance''"

definition policySetupWithManager :: "('w, 's, 'ws, 'f, 'm) Host \<Rightarrow> 'm \<Rightarrow> 'w \<Rightarrow> go_error option \<times> 'w" where
  "policySetupWithManager host mgr = Complete host mgr ''OCISecurityPolicy'' ''ocisecuritypolicy''"

text \<open>One call, noted with its success in the list of steps taken. \<open>orExit\<close> is the code's \<open>if err := ...; err != nil {
  os.Exit(1) }\<close>, followed by the rest of \<open>main\<close>.\<close>

definition step ::
    "Step \<Rightarrow> ('a \<Rightarrow> bool) \<Rightarrow> ('w \<Rightarrow> 'a \<times> 'w) \<Rightarrow> ('w \<times> (Step \<times> bool) list, 'a) state" where
  "step n ok f = State (\<lambda>(w, steps). case f w of (a, w') \<Rightarrow> (a, (w', steps @ [(n, ok a)])))"

definition orExit ::
    "Step \<Rightarrow> ('w \<Rightarrow> go_error option \<times> 'w) \<Rightarrow> ('w \<times> (Step \<times> bool) list, nat) state \<Rightarrow>
     ('w \<times> (Step \<times> bool) list, nat) state" where
  "orExit n f rest = do {
     err \<leftarrow> step n (\<lambda>err. err = None) f;
     case err of
       Some e \<Rightarrow> State_Monad.return 1
     | None \<Rightarrow> rest
   }"

text \<open>\<open>main\<close>, from the scheme and the parsed flags to the exit code of the process.\<close>

definition main :: "('w, 's, 'ws, 'f, 'm) Host \<Rightarrow> 's \<Rightarrow> Flags \<Rightarrow> ('w \<times> (Step \<times> bool) list, nat) state" where
  "main host scheme f = do {
     ok \<leftarrow> step ConfigStep (\<lambda>ok. ok) (GetConfigOrDie host);
     if \<not> ok then State_Monad.return 1
     else do {
       r \<leftarrow> step ManagerStep (\<lambda>r. \<not> isl r) (NewManager host (managerOptions host scheme f));
       case r of
         Inl err \<Rightarrow> State_Monad.return 1
       | Inr mgr \<Rightarrow>
           orExit (SetupStep ''ociinstance'') (instanceSetupWithManager host mgr)
           (orExit (SetupStep ''ocisecuritypolicy'') (policySetupWithManager host mgr)
           (orExit HealthzStep (AddHealthzCheck host mgr ''healthz'')
           (orExit ReadyzStep (AddReadyzCheck host mgr ''readyz'')
           (orExit StartStep (Start host mgr)
           (State_Monad.return 0)))))
     }
   }"

lemma post_step [post_simps, simp]:
  "post (step n ok f) Q = (\<lambda>(w, steps). case f w of (a, w') \<Rightarrow> Q a (w', steps @ [(n, ok a)]))"
  by (simp add: step_def post_State fun_eq_iff split: prod.splits)

lemma post_orExit [post_simps, simp]:
  "post (orExit n f rest) Q = (\<lambda>(w, steps). case f w of
     (Some e, w') \<Rightarrow> Q 1 (w', steps @ [(n, False)])
   | (None, w') \<Rightarrow> post rest Q (w', steps @ [(n, True)]))"
  by (simp add: orExit_def fun_eq_iff split: prod.splits option.splits)

section \<open>Properties\<close>

text \<open>A TLS configuration after all the options of a server have been applied, in their order.\<close>

definition configured :: "TlsOpt slice \<Rightarrow> TlsConfig \<Rightarrow> TlsConfig" where
  "configured opts c = fold (\<lambda>opt c. opt c) (elems opts) c"

text \<open>Unless \<open>--enable-http2\<close> is given, both the webhook server and the metrics server are limited to
  HTTP/1.1, whatever configuration they start from; with it, both keep the configuration they have. The
  metrics endpoint is filtered by authentication and authorization exactly when it is served securely.\<close>
theorem http2_off_by_default:
  "let http = (\<lambda>c. if enableHTTP2 f then c else c\<lparr>NextProtos := Some [''http/1.1'']\<rparr>) in
   configured (W_TLSOpts (webhookServerOptions f)) c = http c \<and>
   configured (M_TLSOpts (metricsServerOptions auth f)) c = http c \<and>
   (M_FilterProvider (metricsServerOptions auth f) = Some auth \<longleftrightarrow> M_SecureServing (metricsServerOptions auth f)) \<and>
   \<not> enableHTTP2 defaultFlags \<and> M_SecureServing (metricsServerOptions auth defaultFlags)"
  by (simp add: Let_def webhookServerOptions_def metricsServerOptions_def tlsOpts_def configured_def
      disableHTTP2_def defaultFlags_def append_slice_def)

text \<open>The calls of a start that succeeds, in order.\<close>

definition all_steps :: "Step list" where
  "all_steps = [ConfigStep, ManagerStep, SetupStep ''ociinstance'', SetupStep ''ocisecuritypolicy'',
     HealthzStep, ReadyzStep, StartStep]"

text \<open>C39: \<open>main\<close> takes its steps in a fixed order, and every step but the last succeeded. Either all were
  taken, the last (the manager, until it was stopped) succeeded too and the exit code is 0, or the last
  step taken failed and the exit code is 1. So a manager is only started once both controllers and both
  health checks are in place.\<close>
theorem startup_stops_at_first_failure:
  "let (code, (w', steps)) = run_state (main host scheme f) (w, []) in
   steps \<noteq> [] \<and> prefix (map fst steps) all_steps \<and> list_all snd (butlast steps) \<and>
   (code = 0 \<and> map fst steps = all_steps \<and> snd (last steps) \<or> code = 1 \<and> \<not> snd (last steps))"
proof -
  have "post (main host scheme f) (\<lambda>code (w', steps). steps \<noteq> [] \<and> prefix (map fst steps) all_steps \<and>
      list_all snd (butlast steps) \<and>
      (code = 0 \<and> map fst steps = all_steps \<and> snd (last steps) \<or> code = 1 \<and> \<not> snd (last steps))) (w, [])"
    unfolding main_def
    by (simp add: all_steps_def split: prod.splits sum.splits option.splits)
  then show ?thesis by (simp add: post_def Let_def split: prod.splits)
qed

end
