(* ===== verification/CommandLine.thy ===== *)
theory CommandLine
  imports Startup
begin

text \<open>
  The command line of \<open>cmd/main.go\<close>: the flags it defines, and \<open>flag.Parse\<close> of Go's standard library,
  which it calls. A flag sets a part of the variables \<open>'v\<close>; \<open>main\<close> owns eleven of them (\<open>Flags\<close>), the
  flags of other packages (\<open>kubeconfig\<close> of controller-runtime, those of \<open>zap.Options\<close>) are a parameter
  and set variables of their own. An argument is a list of bytes.
\<close>

section \<open>The flag package\<close>

text \<open>\<open>flag.Value\<close>: whether it may stand without a value, and \<open>Set\<close>.\<close>

record 'v FlagValue =
  IsBoolFlag :: bool
  SetValue :: "string \<Rightarrow> 'v \<Rightarrow> go_error + 'v"

datatype FlagError =
    ErrHelp
  | BadSyntax string
  | NotDefined string
  | NeedsArgument string
  | InvalidValue string string go_error

text \<open>\<open>strconv.ParseBool\<close>.\<close>

definition parseBool :: "string \<Rightarrow> bool option" where
  "parseBool s =
     (if s \<in> {''1'', ''t'', ''T'', ''true'', ''TRUE'', ''True''} then Some True
      else if s \<in> {''0'', ''f'', ''F'', ''false'', ''FALSE'', ''False''} then Some False
      else None)"

definition errParse :: go_error where
  "errParse = Opaque 0 ''parse error''"

text \<open>\<open>flag.StringVar\<close> and \<open>flag.BoolVar\<close> on a variable with the given update.\<close>

definition stringVar :: "((string \<Rightarrow> string) \<Rightarrow> 'v \<Rightarrow> 'v) \<Rightarrow> 'v FlagValue" where
  "stringVar upd = \<lparr>IsBoolFlag = False, SetValue = (\<lambda>s v. Inr (upd (\<lambda>_. s) v))\<rparr>"

definition boolVar :: "((bool \<Rightarrow> bool) \<Rightarrow> 'v \<Rightarrow> 'v) \<Rightarrow> 'v FlagValue" where
  "boolVar upd = \<lparr>IsBoolFlag = True,
     SetValue = (\<lambda>s v. case parseBool s of None \<Rightarrow> Inl errParse | Some b \<Rightarrow> Inr (upd (\<lambda>_. b) v))\<rparr>"

text \<open>A name, up to its first \<open>=\<close>, and the value after it if there is one.\<close>

fun cutEquals :: "string \<Rightarrow> string \<times> string option" where
  "cutEquals [] = ([], None)"
| "cutEquals (c # cs) =
     (if c = CHR ''='' then ([], Some cs) else (case cutEquals cs of (n, v) \<Rightarrow> (c # n, v)))"

text \<open>
  \<open>parseOne\<close> takes one flag off the arguments (\<open>Seen\<close>), finds that they hold no further flag (\<open>Stop\<close>, with
  what is left), or fails.
\<close>

datatype 'v Parsed = Seen "string list" 'v | Stop "string list" | Fail FlagError

definition setFlag ::
    "'v FlagValue \<Rightarrow> string \<Rightarrow> string \<Rightarrow> string list \<Rightarrow> 'v \<Rightarrow> 'v Parsed" where
  "setFlag flag name value args v =
     (case SetValue flag value v of Inl err \<Rightarrow> Fail (InvalidValue value name err) | Inr v' \<Rightarrow> Seen args v')"

definition parseOne ::
    "(string \<rightharpoonup> 'v FlagValue) \<Rightarrow> string list \<Rightarrow> 'v \<Rightarrow> 'v Parsed" where
  "parseOne formal args v = (case args of
     [] \<Rightarrow> Stop []
   | s # args' \<Rightarrow>
       if length s < 2 \<or> s ! 0 \<noteq> CHR ''-'' then Stop args
       else if s = ''--'' then Stop args'
       else (let arg = drop (if s ! 1 = CHR ''-'' then 2 else 1) s in
         if arg = [] \<or> hd arg = CHR ''-'' \<or> hd arg = CHR ''='' then Fail (BadSyntax s)
         else (case cutEquals arg of (name, value) \<Rightarrow>
           (case formal name of
              None \<Rightarrow> Fail (if name = ''help'' \<or> name = ''h'' then ErrHelp else NotDefined name)
            | Some flag \<Rightarrow>
                if IsBoolFlag flag
                then setFlag flag name (case value of Some x \<Rightarrow> x | None \<Rightarrow> ''true'') args' v
                else (case value of
                    Some x \<Rightarrow> setFlag flag name x args' v
                  | None \<Rightarrow> (case args' of
                        [] \<Rightarrow> Fail (NeedsArgument name)
                      | x # args'' \<Rightarrow> setFlag flag name x args'' v))))))"

lemma setFlag_Seen [simp]:
  "setFlag flag name x args v = Seen args' v' \<longleftrightarrow> SetValue flag x v = Inr v' \<and> args' = args"
  by (auto simp: setFlag_def split: sum.splits)

lemma parseOne_shorter:
  "parseOne formal args v = Seen args' v' \<Longrightarrow> length args' < length args"
  by (auto simp: parseOne_def Let_def split: list.splits if_splits prod.splits option.splits)

text \<open>The loop of \<open>FlagSet.Parse\<close>: each round takes at least one argument off.\<close>

function parse ::
    "(string \<rightharpoonup> 'v FlagValue) \<Rightarrow> string list \<Rightarrow> 'v \<Rightarrow> FlagError + string list \<times> 'v" where
  "parse formal args v = (case parseOne formal args v of
     Seen args' v' \<Rightarrow> parse formal args' v'
   | Stop rest \<Rightarrow> Inr (rest, v)
   | Fail err \<Rightarrow> Inl err)"
  by pat_completeness auto
termination
  by (relation "measure (\<lambda>(_, args, _). length args)") (auto dest: parseOne_shorter)

declare parse.simps [simp del]

section \<open>The flags of the program\<close>

definition own_flags :: "(string \<times> Flags FlagValue) list" where
  "own_flags =
    [(''metrics-bind-address'', stringVar metricsAddr_update),
     (''health-probe-bind-address'', stringVar probeAddr_update),
     (''leader-elect'', boolVar enableLeaderElection_update),
     (''metrics-secure'', boolVar secureMetrics_update),
     (''webhook-cert-path'', stringVar webhookCertPath_update),
     (''webhook-cert-name'', stringVar webhookCertName_update),
     (''webhook-cert-key'', stringVar webhookCertKey_update),
     (''metrics-cert-path'', stringVar metricsCertPath_update),
     (''metrics-cert-name'', stringVar metricsCertName_update),
     (''metrics-cert-key'', stringVar metricsCertKey_update),
     (''enable-http2'', boolVar enableHTTP2_update)]"

text \<open>A flag on the first or on the second half of the variables.\<close>

definition onOwn :: "Flags FlagValue \<Rightarrow> (Flags \<times> 'z) FlagValue" where
  "onOwn flag = \<lparr>IsBoolFlag = IsBoolFlag flag,
     SetValue = (\<lambda>s (f, z). map_sum id (\<lambda>f'. (f', z)) (SetValue flag s f))\<rparr>"

definition onOther :: "'z FlagValue \<Rightarrow> (Flags \<times> 'z) FlagValue" where
  "onOther flag = \<lparr>IsBoolFlag = IsBoolFlag flag,
     SetValue = (\<lambda>s (f, z). map_sum id (\<lambda>z'. (f, z')) (SetValue flag s z))\<rparr>"

definition all_flags :: "(string \<times> 'z FlagValue) list \<Rightarrow> (string \<times> (Flags \<times> 'z) FlagValue) list" where
  "all_flags others = map (map_prod id onOther) others @ map (map_prod id onOwn) own_flags"

text \<open>
  The program from its arguments to its exit code. Defining a flag twice panics, which like a usage error
  exits with 2; a request for help exits with 0. What is left of the arguments is not looked at.
\<close>

definition program ::
    "('w, 's, 'ws, 'f, 'm) Host \<Rightarrow> 's \<Rightarrow> (string \<times> 'z FlagValue) list \<Rightarrow> 'z \<Rightarrow> string list \<Rightarrow>
     ('w \<times> (Step \<times> bool) list, nat) state" where
  "program host scheme others z args =
     (if \<not> distinct (map fst (all_flags others)) then State_Monad.return 2
      else (case parse (map_of (all_flags others)) args (defaultFlags, z) of
          Inl err \<Rightarrow> State_Monad.return (if err = ErrHelp then 0 else 2)
        | Inr (rest, (f, z')) \<Rightarrow> main host scheme f))"

section \<open>One flag on the command line\<close>

definition flag_name :: "string \<Rightarrow> bool" where
  "flag_name n \<longleftrightarrow> n \<noteq> [] \<and> hd n \<noteq> CHR ''-'' \<and> CHR ''='' \<notin> set n"

text \<open>One or two dashes.\<close>

definition dashes :: "bool \<Rightarrow> string" where
  "dashes two = (if two then ''--'' else ''-'')"

lemma cutEquals_name: "CHR ''='' \<notin> set n \<Longrightarrow> cutEquals n = (n, None)"
  by (induction n) auto

lemma cutEquals_assign: "CHR ''='' \<notin> set n \<Longrightarrow> cutEquals (n @ CHR ''='' # x) = (n, Some x)"
  by (induction n) auto

lemma cutEquals_inv:
  "cutEquals s = (n, v) \<Longrightarrow> s = n @ (case v of None \<Rightarrow> [] | Some x \<Rightarrow> CHR ''='' # x)"
  by (induction s arbitrary: n) (auto split: if_splits prod.splits)

text \<open>What \<open>parseOne\<close> makes of an argument that names a flag, with or without a value.\<close>

lemma parseOne_named:
  assumes "flag_name n"
  shows "parseOne formal ((dashes two @ n @ (case value of None \<Rightarrow> [] | Some x \<Rightarrow> CHR ''='' # x)) # args) v =
    (case formal n of
       None \<Rightarrow> Fail (if n = ''help'' \<or> n = ''h'' then ErrHelp else NotDefined n)
     | Some flag \<Rightarrow>
         if IsBoolFlag flag then setFlag flag n (case value of Some x \<Rightarrow> x | None \<Rightarrow> ''true'') args v
         else (case value of
             Some x \<Rightarrow> setFlag flag n x args v
           | None \<Rightarrow> (case args of [] \<Rightarrow> Fail (NeedsArgument n) | x # args' \<Rightarrow> setFlag flag n x args' v)))"
proof -
  obtain c cs where n: "n = c # cs" "c \<noteq> CHR ''-''" "c \<noteq> CHR ''=''" "CHR ''='' \<notin> set cs"
    using assms by (cases n) (auto simp: flag_name_def)
  have cut: "cutEquals (n @ (case value of None \<Rightarrow> [] | Some x \<Rightarrow> CHR ''='' # x)) = (n, value)"
    using n by (auto simp: cutEquals_name cutEquals_assign split: option.splits)
  show ?thesis
    using n(2,3) cut unfolding parseOne_def dashes_def n(1)
    by (cases two) (simp_all add: Let_def)
qed

lemma parse_named:
  assumes "flag_name n" "formal n = Some flag" "SetValue flag x v = Inr v'"
  shows "parse formal ((dashes two @ n @ CHR ''='' # x) # args) v = parse formal args v'"
    and "\<not> IsBoolFlag flag \<Longrightarrow> parse formal ((dashes two @ n) # x # args) v = parse formal args v'"
    and "IsBoolFlag flag \<Longrightarrow> x = ''true'' \<Longrightarrow> parse formal ((dashes two @ n) # args) v = parse formal args v'"
  using assms parseOne_named [OF assms(1), of formal two "Some x"]
    parseOne_named [OF assms(1), of formal two None]
  by (simp_all add: parse.simps [of formal "_ # _"] setFlag_def)

lemma parse_stop [simp]: "parse formal [] v = Inr ([], v)" "parse formal (''--'' # args) v = Inr (args, v)"
  by (simp_all add: parse.simps [of formal "[]"] parse.simps [of formal "_ # _"] parseOne_def)

lemma parse_unknown:
  assumes "flag_name n" "formal n = None"
  shows "parse formal ((dashes two @ n @ (case value of None \<Rightarrow> [] | Some x \<Rightarrow> CHR ''='' # x)) # args) v =
    Inl (if n = ''help'' \<or> n = ''h'' then ErrHelp else NotDefined n)"
  by (simp add: parse.simps [of formal "_ # _"] parseOne_named [OF assms(1)] assms(2))

section \<open>Writing flags down\<close>

text \<open>
  A command line that sets every flag of the program. \<open>style n\<close> says how the flag \<open>n\<close> is written: with two
  dashes or one, and its value after \<open>=\<close> or apart; a true bool may stand without value.
\<close>

type_synonym style = "string \<Rightarrow> bool \<times> bool"

definition showString :: "style \<Rightarrow> string \<Rightarrow> string \<Rightarrow> string list" where
  "showString style n x = (case style n of (two, apart) \<Rightarrow>
     if apart then [dashes two @ n, x] else [dashes two @ n @ CHR ''='' # x])"

definition showBool :: "style \<Rightarrow> string \<Rightarrow> bool \<Rightarrow> string list" where
  "showBool style n b = (case style n of (two, bare) \<Rightarrow>
     if bare \<and> b then [dashes two @ n]
     else [dashes two @ n @ CHR ''='' # (if b then ''true'' else ''false'')])"

definition showFlags :: "style \<Rightarrow> Flags \<Rightarrow> string list" where
  "showFlags style f =
     showString style ''metrics-bind-address'' (metricsAddr f) @
     showString style ''health-probe-bind-address'' (probeAddr f) @
     showBool style ''leader-elect'' (enableLeaderElection f) @
     showBool style ''metrics-secure'' (secureMetrics f) @
     showString style ''webhook-cert-path'' (webhookCertPath f) @
     showString style ''webhook-cert-name'' (webhookCertName f) @
     showString style ''webhook-cert-key'' (webhookCertKey f) @
     showString style ''metrics-cert-path'' (metricsCertPath f) @
     showString style ''metrics-cert-name'' (metricsCertName f) @
     showString style ''metrics-cert-key'' (metricsCertKey f) @
     showBool style ''enable-http2'' (enableHTTP2 f)"

lemma own_names: "n \<in> fst ` set own_flags \<Longrightarrow> flag_name n"
  by (auto simp: own_flags_def flag_name_def)

lemma formal_own:
  assumes "distinct (map fst (all_flags others))" "(n, flag) \<in> set own_flags"
  shows "map_of (all_flags others) n = Some (onOwn flag)"
proof -
  have "(n, onOwn flag) \<in> set (all_flags others)"
    using assms(2) by (auto simp: all_flags_def intro!: image_eqI [of _ _ "(n, flag)"])
  with assms(1) show ?thesis by (simp add: map_of_is_SomeI)
qed

lemma parse_showString:
  assumes "distinct (map fst (all_flags others))" "(n, stringVar upd) \<in> set own_flags"
  shows "parse (map_of (all_flags others)) (showString style n x @ args) (f, z) =
    parse (map_of (all_flags others)) args (upd (\<lambda>_. x) f, z)"
proof -
  have n: "flag_name n" using own_names [of n] assms(2) by force
  note f = formal_own [OF assms]
  show ?thesis
    using parse_named(1,2) [OF n, of "map_of (all_flags others)" "onOwn (stringVar upd)" x "(f, z)"] f
    by (simp add: showString_def onOwn_def stringVar_def split: prod.split)
qed

lemma parse_showBool:
  assumes "distinct (map fst (all_flags others))" "(n, boolVar upd) \<in> set own_flags"
  shows "parse (map_of (all_flags others)) (showBool style n b @ args) (f, z) =
    parse (map_of (all_flags others)) args (upd (\<lambda>_. b) f, z)"
proof -
  have n: "flag_name n" using own_names [of n] assms(2) by force
  note f = formal_own [OF assms]
  have s: "SetValue (onOwn (boolVar upd)) (if b then ''true'' else ''false'') (f, z) = Inr (upd (\<lambda>_. b) f, z)"
    by (simp add: onOwn_def boolVar_def parseBool_def)
  show ?thesis
    using parse_named(1,3) [OF n, of "map_of (all_flags others)" "onOwn (boolVar upd)"
        "if b then ''true'' else ''false''" "(f, z)"] f s
    by (auto simp: showBool_def onOwn_def boolVar_def split: prod.split)
qed

lemma parse_showFlags:
  assumes "distinct (map fst (all_flags others))"
  shows "parse (map_of (all_flags others)) (showFlags style f @ args) (f0, z) =
    parse (map_of (all_flags others)) args (f, z)"
  unfolding showFlags_def append_assoc
  by (cases f0; cases f) (simp add: own_flags_def parse_showString [OF assms] parse_showBool [OF assms])

section \<open>Which argument sets a flag\<close>

text \<open>The argument is \<open>-n\<close>, \<open>--n\<close>, \<open>-n=...\<close> or \<open>--n=...\<close>.\<close>

definition names_flag :: "string \<Rightarrow> string \<Rightarrow> bool" where
  "names_flag n a \<longleftrightarrow>
     (\<exists>two \<in> {False, True}. a = dashes two @ n \<or> prefix (dashes two @ n @ ''='') a)"

lemma names_flagI:
  "a = dashes two @ n @ (case value of None \<Rightarrow> [] | Some x \<Rightarrow> CHR ''='' # x) \<Longrightarrow> names_flag n a"
  by (cases two) (auto simp: names_flag_def split: option.splits)

text \<open>A flag that was seen was named by the first argument, and its \<open>Set\<close> made the new variables.\<close>

lemma parseOne_Seen:
  assumes "parseOne formal args v = Seen args' v'"
  obtains n flag x where "names_flag n (hd args)" "formal n = Some flag" "SetValue flag x v = Inr v'"
    "suffix args' args" "args \<noteq> []"
proof -
  obtain s rest where args: "args = s # rest" and s: "2 \<le> length s" "s ! 0 = CHR ''-''" "s \<noteq> ''--''"
    using assms by (auto simp: parseOne_def split: list.splits if_splits)
  define two where "two = (s ! 1 = CHR ''-'')"
  define arg where "arg = drop (if two then 2 else 1) s"
  have dash: "s = dashes two @ arg"
    using s by (cases s; cases "tl s") (auto simp: arg_def two_def dashes_def)
  obtain n val where cut: "cutEquals arg = (n, val)" by (cases "cutEquals arg")
  obtain flag x where f: "formal n = Some flag" "SetValue flag x v = Inr v'" "suffix args' rest"
    using assms s cut
    by (auto simp: parseOne_def Let_def args arg_def two_def suffix_ConsI
        split: list.splits if_splits option.splits)
  have "names_flag n s" using cutEquals_inv [OF cut] dash by (auto intro: names_flagI)
  with f args that show thesis by (auto simp: suffix_ConsI)
qed

lemma set_own:
  assumes "map_of (all_flags others) n = Some flag" "SetValue flag x (f, z) = Inr (f', z')"
  shows "f' = f \<or> (\<exists>own. (n, own) \<in> set own_flags \<and> SetValue own x f = Inr f')"
proof -
  from map_of_SomeD [OF assms(1)]
  consider (own) own where "(n, own) \<in> set own_flags" "flag = onOwn own"
    | (other) oth where "flag = onOther oth"
    by (auto simp: all_flags_def)
  then show ?thesis
  proof cases
    case own
    then have "SetValue own x f = Inr f'"
      using assms(2) by (cases "SetValue own x f") (auto simp: onOwn_def)
    with own show ?thesis by blast
  next
    case other
    then show ?thesis using assms(2) by (cases "SetValue oth x z") (auto simp: onOther_def)
  qed
qed

text \<open>Only an argument that names \<open>enable-http2\<close> can turn HTTP/2 on.\<close>

lemma own_http2:
  assumes "(n, own) \<in> set own_flags" "SetValue own x f = Inr f'" "enableHTTP2 f'"
  shows "enableHTTP2 f \<or> n = ''enable-http2''"
  using assms by (auto simp: own_flags_def stringVar_def boolVar_def split: option.splits)

lemma parse_http2:
  assumes "parse (map_of (all_flags others)) args (f, z) = Inr (rest, (f', z'))" "enableHTTP2 f'"
  shows "enableHTTP2 f \<or> (\<exists>a \<in> set args. names_flag ''enable-http2'' a)"
  using assms(1)
proof (induction "length args" arbitrary: args f z rule: less_induct)
  case less
  show ?case
  proof (cases "parseOne (map_of (all_flags others)) args (f, z)")
    case (Seen args' v')
    obtain f1 z1 where v': "v' = (f1, z1)" by (cases v')
    obtain n flag x where n: "names_flag n (hd args)" "map_of (all_flags others) n = Some flag"
      "SetValue flag x (f, z) = Inr v'" "suffix args' args" "args \<noteq> []"
      using Seen by (rule parseOne_Seen)
    have "parse (map_of (all_flags others)) args' (f1, z1) = Inr (rest, (f', z'))"
      using less.prems Seen v' by (simp add: parse.simps [of _ args])
    from less.hyps [OF parseOne_shorter [OF Seen] this]
    have "enableHTTP2 f1 \<or> (\<exists>a \<in> set args. names_flag ''enable-http2'' a)"
      using n(4) by (auto simp: suffix_def)
    moreover have "enableHTTP2 f1 \<Longrightarrow> enableHTTP2 f \<or> n = ''enable-http2''"
      using set_own [OF n(2)] n(3) v' own_http2 by blast
    ultimately show ?thesis using n(1,5) by (auto intro: bexI [of _ "hd args"])
  qed (use less.prems assms(2) in \<open>auto simp: parse.simps [of _ args]\<close>)
qed

section \<open>Properties\<close>

text \<open>C36: Any setting of the flags of the program can be written on the command line and is read back as it
  was: whatever the strings contain, with one dash or two, with values after an equals sign or apart, and
  with bare bools, the program behaves as \<open>main\<close> on these flags, whatever the defaults are. Arguments after
  \<open>--\<close> are left alone. (No other package may define a flag of the same name.)\<close>
theorem command_line_roundtrip:
  assumes "distinct (map fst (all_flags others))"
  shows "parse (map_of (all_flags others)) (showFlags style f @ ''--'' # args) (f0, z) = Inr (args, (f, z)) \<and>
    program host scheme others z (showFlags style f) = main host scheme f"
  using parse_showFlags [OF assms, of style f "[]"]
  by (simp add: parse_showFlags [OF assms] program_def assms)

text \<open>The flag of another package in the witnesses.\<close>

definition demo_others :: "(string \<times> bool FlagValue) list" where
  "demo_others = [(''zap-devel'', boolVar (\<lambda>g b. g b))]"

lemma demo_distinct: "distinct (map fst (all_flags demo_others))"
  by (simp add: all_flags_def demo_others_def own_flags_def)

theorem command_line_roundtrip_witness:
  "parse (map_of (all_flags demo_others)) (showFlags (\<lambda>n. (True, n = ''enable-http2''))
     (defaultFlags\<lparr>enableHTTP2 := True, metricsAddr := ''--=''\<rparr>) @ [''--'', ''x'']) (defaultFlags, True) =
   Inr ([''x''], (defaultFlags\<lparr>enableHTTP2 := True, metricsAddr := ''--=''\<rparr>, True))"
  using command_line_roundtrip [OF demo_distinct,
      of "\<lambda>n. (True, n = ''enable-http2'')" "defaultFlags\<lparr>enableHTTP2 := True, metricsAddr := ''--=''\<rparr>"
        "[''x'']" defaultFlags True]
  by (rule conjunct1)

text \<open>Arguments that are a usage error (or a request for help), with the exit code they call for.\<close>

inductive usage_error :: "(string \<times> 'z FlagValue) list \<Rightarrow> nat \<Rightarrow> string list \<Rightarrow> bool"
  for others where
  unknown: "flag_name n \<Longrightarrow> n \<notin> fst ` set (all_flags others) \<Longrightarrow> n \<notin> {''h'', ''help''} \<Longrightarrow>
    usage_error others 2 ((dashes two @ n @ (case value of None \<Rightarrow> [] | Some x \<Rightarrow> CHR ''='' # x)) # args)"
| help_asked: "n \<notin> fst ` set (all_flags others) \<Longrightarrow> n \<in> {''h'', ''help''} \<Longrightarrow>
    usage_error others 0 ((dashes two @ n) # args)"
| no_bool: "(n, boolVar upd) \<in> set own_flags \<Longrightarrow> parseBool x = None \<Longrightarrow>
    usage_error others 2 ((dashes two @ n @ CHR ''='' # x) # args)"
| no_value: "(n, stringVar upd) \<in> set own_flags \<Longrightarrow> usage_error others 2 [dashes two @ n]"

lemma parse_usage_error:
  assumes "usage_error others code args" "distinct (map fst (all_flags others))"
  shows "\<exists>err. parse (map_of (all_flags others)) args v = Inl err \<and> code = (if err = ErrHelp then 0 else 2)"
  using assms
proof (induction rule: usage_error.induct)
  case (unknown n two val args)
  then show ?case
    using parse_unknown [of n "map_of (all_flags others)" two val args v]
    by (simp add: map_of_eq_None_iff)
next
  case (help_asked n two args)
  have "flag_name n" using help_asked(2) by (auto simp: flag_name_def)
  then show ?case
    using parse_unknown [of n "map_of (all_flags others)" two None args v] help_asked(1,2)
    by (simp add: map_of_eq_None_iff disj_commute)
next
  case (no_bool n upd x two args)
  have "flag_name n" using own_names [of n] no_bool(1) by force
  then show ?case
    using parseOne_named [of n "map_of (all_flags others)" two "Some x" args v]
      formal_own [OF no_bool(3,1)] no_bool(2)
    by (cases v) (simp add: parse.simps [of _ "_ # _"] onOwn_def boolVar_def setFlag_def)
next
  case (no_value n upd two)
  have "flag_name n" using own_names [of n] no_value(1) by force
  then show ?case
    using parseOne_named [of n "map_of (all_flags others)" two None "[]" v]
      formal_own [OF no_value(2,1)]
    by (simp add: parse.simps [of _ "_ # _"] onOwn_def stringVar_def)
qed

text \<open>A usage error starts nothing. After any flags that are in order, an argument that names no flag of
  the program or of the packages it uses, a bool flag of the program with a value that is no bool, or a
  string flag at the end without value makes the program exit with code 2, and \<open>-h\<close> or \<open>-help\<close> with code 0,
  before it takes any step.\<close>
theorem usage_error_starts_nothing:
  assumes "usage_error others code bad" "distinct (map fst (all_flags others))"
  shows "run_state (program host scheme others z (showFlags style f @ bad)) s = (code, s)"
  using parse_usage_error [OF assms, of "(f, z)"]
  by (auto simp: program_def assms(2) parse_showFlags [OF assms(2)])

theorem usage_error_starts_nothing_witness:
  "\<forall>host scheme w. run_state (program host scheme demo_others True
     (showFlags (\<lambda>n. (False, True)) defaultFlags @ [''--leader-elect=maybe''])) (w, []) = (2, (w, []))"
proof (intro allI)
  have "usage_error demo_others 2 ((dashes True @ ''leader-elect'' @ CHR ''='' # ''maybe'') # [])"
    by (rule usage_error.no_bool [where upd = enableLeaderElection_update])
      (simp_all add: own_flags_def parseBool_def)
  from usage_error_starts_nothing [OF this demo_distinct]
  show "run_state (program host scheme demo_others True
     (showFlags (\<lambda>n. (False, True)) defaultFlags @ [''--leader-elect=maybe''])) (w, []) = (2, (w, []))" for host scheme w
    by (simp add: dashes_def)
qed

text \<open>C37: HTTP/2 is only on when asked for: unless an argument names the flag \<open>enable-http2\<close>, every command
  line that the program accepts leaves the webhook server and the metrics server limited to HTTP/1.1,
  whatever TLS configuration they start from.\<close>
theorem http2_needs_its_flag:
  assumes "parse (map_of (all_flags others)) args (defaultFlags, z) = Inr (rest, (f, z'))"
    and "\<not> (\<exists>a \<in> set args. names_flag ''enable-http2'' a)"
  shows "NextProtos (configured (W_TLSOpts (webhookServerOptions f)) c) = Some [''http/1.1''] \<and>
    NextProtos (configured (M_TLSOpts (metricsServerOptions auth f)) c) = Some [''http/1.1'']"
proof -
  have "\<not> enableHTTP2 f"
    using parse_http2 [OF assms(1)] assms(2) by (auto simp: defaultFlags_def)
  then show ?thesis
    by (simp add: webhookServerOptions_def metricsServerOptions_def Let_def tlsOpts_def configured_def
        disableHTTP2_def append_slice_def)
qed

theorem http2_needs_its_flag_witness:
  "NextProtos (configured (W_TLSOpts (webhookServerOptions (defaultFlags\<lparr>probeAddr := ''enable-http2''\<rparr>)))
     \<lparr>NextProtos = None\<rparr>) = Some [''http/1.1'']"
  by (rule conjunct1 [OF http2_needs_its_flag [of demo_others
        "[''--health-probe-bind-address'', ''enable-http2'']" True "[]" _ True]])
    (simp_all add: names_flag_def dashes_def demo_others_def all_flags_def own_flags_def
      parse.simps parseOne_def setFlag_def onOwn_def stringVar_def defaultFlags_def)

end
