(* ===== verification/Initialization.thy ===== *)
theory Initialization
  imports CommandLine
begin

text \<open>
  What runs before \<open>main\<close>: the package variables and \<open>init\<close> functions of \<open>api/v1alpha1\<close>,
  \<open>internal/controller\<close> and \<open>cmd\<close>, in the order of Go's package initialization, and the whole process.
  The scheme builder of controller-runtime, the client-go types and the metrics registry are the parameter
  \<open>libs\<close>.
\<close>

section \<open>Group, version and kinds\<close>

record GroupVersion =
  Group :: string
  Version :: string

definition SchemeGroupVersion :: GroupVersion where
  "SchemeGroupVersion = \<lparr>Group = ''compute.nvcne-demo.io'', Version = ''v1alpha1''\<rparr>"

text \<open>The Go types that are handed to the scheme builder; it takes their name as the kind.\<close>

datatype ApiType = OCIInstanceT | OCIInstanceListT | OCISecurityPolicyT | OCISecurityPolicyListT

fun type_name :: "ApiType \<Rightarrow> string" where
  "type_name OCIInstanceT = ''OCIInstance''"
| "type_name OCIInstanceListT = ''OCIInstanceList''"
| "type_name OCISecurityPolicyT = ''OCISecurityPolicy''"
| "type_name OCISecurityPolicyListT = ''OCISecurityPolicyList''"

section \<open>Collectors\<close>

text \<open>The options of a Prometheus collector and the names of its labels.\<close>

record Collector =
  MetricName :: string
  MetricHelp :: string
  MetricLabels :: "string list"

definition reconcileTotalOpts :: Collector where
  "reconcileTotalOpts = \<lparr>MetricName = ''oci_operator_reconcile_total'',
     MetricHelp = ''Total number of reconciliations by controller and result.'',
     MetricLabels = [''controller'', ''result'']\<rparr>"

definition ociAPICallDurationOpts :: Collector where
  "ociAPICallDurationOpts = \<lparr>MetricName = ''oci_operator_oci_api_call_duration_seconds'',
     MetricHelp = ''Duration of OCI API calls in seconds.'',
     MetricLabels = [''controller'', ''operation'', ''result'']\<rparr>"

definition phaseTransitionsOpts :: Collector where
  "phaseTransitionsOpts = \<lparr>MetricName = ''oci_operator_phase_transitions_total'',
     MetricHelp = ''Total number of resource phase transitions by controller and target phase.'',
     MetricLabels = [''controller'', ''phase'']\<rparr>"

section \<open>The libraries\<close>

text \<open>\<open>'b\<close> is a scheme builder, \<open>'s\<close> a scheme, \<open>'g\<close> a registry; \<open>MustRegister\<close> panics with \<open>None\<close>.\<close>

record ('b, 's, 'g) Libs =
  NewBuilder :: "GroupVersion \<Rightarrow> 'b"
  Register :: "ApiType list \<Rightarrow> 'b \<Rightarrow> 'b"
  AddToScheme :: "'b \<Rightarrow> 's \<Rightarrow> go_error option \<times> 's"
  NewScheme :: 's
  AddClientGo :: "'s \<Rightarrow> go_error option \<times> 's"
  MustRegister :: "Collector list \<Rightarrow> 'g \<Rightarrow> 'g option"

section \<open>Package initialization\<close>

text \<open>\<open>SchemeBuilder\<close> after the \<open>init\<close> functions of both type files.\<close>

definition instanceInit :: "('b, 's, 'g) Libs \<Rightarrow> 'b \<Rightarrow> 'b" where
  "instanceInit libs b = Register libs [OCIInstanceT, OCIInstanceListT] b"

definition policyInit :: "('b, 's, 'g) Libs \<Rightarrow> 'b \<Rightarrow> 'b" where
  "policyInit libs b = Register libs [OCISecurityPolicyT, OCISecurityPolicyListT] b"

definition SchemeBuilder :: "('b, 's, 'g) Libs \<Rightarrow> 'b" where
  "SchemeBuilder libs = policyInit libs (instanceInit libs (NewBuilder libs SchemeGroupVersion))"

definition metricsInit :: "('b, 's, 'g) Libs \<Rightarrow> 'g \<Rightarrow> 'g option" where
  "metricsInit libs g =
     MustRegister libs [reconcileTotalOpts, ociAPICallDurationOpts, phaseTransitionsOpts] g"

text \<open>\<open>utilruntime.Must\<close> panics (\<open>None\<close>) on an error.\<close>

definition Must :: "go_error option \<times> 's \<Rightarrow> 's option" where
  "Must r = (case r of (Some err, s) \<Rightarrow> None | (None, s) \<Rightarrow> Some s)"

definition mainInit :: "('b, 's, 'g) Libs \<Rightarrow> 's option" where
  "mainInit libs = (case Must (AddClientGo libs (NewScheme libs)) of
     None \<Rightarrow> None
   | Some scheme \<Rightarrow> Must (AddToScheme libs (SchemeBuilder libs) scheme))"

text \<open>The process: a panic exits with 2.\<close>

definition process ::
    "('b, 's, 'g) Libs \<Rightarrow> 'g \<Rightarrow> ('w, 's, 'ws, 'f, 'm) Host \<Rightarrow> (string \<times> 'z FlagValue) list \<Rightarrow> 'z \<Rightarrow>
     string list \<Rightarrow> ('w \<times> (Step \<times> bool) list, nat) state" where
  "process libs g host others z args = (case metricsInit libs g of
     None \<Rightarrow> State_Monad.return 2
   | Some g' \<Rightarrow> (case mainInit libs of
       None \<Rightarrow> State_Monad.return 2
     | Some scheme \<Rightarrow> program host scheme others z args))"

section \<open>Properties\<close>

text \<open>
  The documented behaviour of the builder: \<open>contents\<close> is what it holds; a group version starts without
  types, \<open>Register\<close> adds types, and an \<open>AddToScheme\<close> without error makes the scheme recognize each of them
  under its name.
\<close>

definition builder_documented ::
    "('b, 's, 'g) Libs \<Rightarrow> ('b \<Rightarrow> GroupVersion \<times> ApiType list) \<Rightarrow>
     ('s \<Rightarrow> GroupVersion \<times> string \<Rightarrow> bool) \<Rightarrow> bool" where
  "builder_documented libs contents recognizes \<longleftrightarrow>
     (\<forall>gv. contents (NewBuilder libs gv) = (gv, [])) \<and>
     (\<forall>ts b. contents (Register libs ts b) = (fst (contents b), snd (contents b) @ ts)) \<and>
     (\<forall>b s s'. AddToScheme libs b s = (None, s') \<longrightarrow>
        (\<forall>t \<in> set (snd (contents b)). recognizes s' (fst (contents b), type_name t)))"

text \<open>C38: The manager is only ever built with a scheme that recognizes the four kinds of the API group,
  OCIInstance, OCISecurityPolicy and their lists: if initialization gives a scheme at all, it has them, and
  otherwise the process exits with code 2 and without a step, like when the collectors cannot be registered.\<close>
theorem scheme_recognizes_api_types:
  assumes "builder_documented libs contents recognizes"
  shows "(case (metricsInit libs g, mainInit libs) of
      (Some g', Some scheme) \<Rightarrow>
        (\<forall>t. recognizes scheme (SchemeGroupVersion, type_name t)) \<and>
        process libs g host others z args = program host scheme others z args
    | _ \<Rightarrow> run_state (process libs g host others z args) s = (2, s))"
proof -
  have "recognizes scheme (SchemeGroupVersion, type_name t)" if scheme: "mainInit libs = Some scheme" for scheme t
  proof -
    obtain s0 where "AddToScheme libs (SchemeBuilder libs) s0 = (None, scheme)"
      using scheme by (auto simp: mainInit_def Must_def split: option.splits prod.splits)
    moreover have "contents (SchemeBuilder libs) = (SchemeGroupVersion,
        [OCIInstanceT, OCIInstanceListT, OCISecurityPolicyT, OCISecurityPolicyListT])"
      using assms by (simp add: builder_documented_def SchemeBuilder_def policyInit_def instanceInit_def)
    ultimately show ?thesis
      using assms unfolding builder_documented_def by (cases t) fastforce+
  qed
  then show ?thesis
    by (simp add: process_def split: option.split)
qed

text \<open>A builder that keeps a list, and a scheme that is the set of what was added.\<close>

definition list_libs :: "(GroupVersion \<times> ApiType list, (GroupVersion \<times> string) list, unit) Libs" where
  "list_libs = \<lparr>NewBuilder = (\<lambda>gv. (gv, [])), Register = (\<lambda>ts (gv, us). (gv, us @ ts)),
     AddToScheme = (\<lambda>(gv, ts) s. (None, s @ map (\<lambda>t. (gv, type_name t)) ts)),
     NewScheme = [], AddClientGo = (\<lambda>s. (None, s)), MustRegister = (\<lambda>cs g. Some g)\<rparr>"

theorem scheme_recognizes_api_types_witness:
  "\<exists>scheme. mainInit list_libs = Some scheme \<and> (SchemeGroupVersion, ''OCISecurityPolicyList'') \<in> set scheme"
proof -
  have doc: "builder_documented list_libs (\<lambda>b. b) (\<lambda>s k. k \<in> set s)"
    by (auto simp: builder_documented_def list_libs_def)
  obtain scheme where "metricsInit list_libs () = Some ()" "mainInit list_libs = Some scheme"
    by (simp add: metricsInit_def mainInit_def Must_def list_libs_def SchemeBuilder_def policyInit_def
        instanceInit_def)
  then have "\<forall>t. (SchemeGroupVersion, type_name t) \<in> set scheme"
    using scheme_recognizes_api_types [OF doc, of "()" host others True "[]"]
    by simp (elim conjE, assumption)
  then have "(SchemeGroupVersion, type_name OCISecurityPolicyListT) \<in> set scheme" ..
  then show ?thesis using \<open>mainInit list_libs = Some scheme\<close> by simp
qed

end
