(* ===== verification/DeepCopyHeap.thy ===== *)
theory DeepCopyHeap
  imports InstanceTypes PolicyTypes "HOL-Library.DAList"
begin

text \<open>
  The memory that the generated deep copies (\<open>DeepCopy\<close>) work on, and the contract of a deep copy.

  A pointer, a map or the backing array of a slice is an address. The heap has one store for each
  type of cell and one allocation counter for all. A struct is a record of its fields, pointer
  fields as addresses, so \<open>*out = *in\<close> copies addresses and aliases. The locale \<open>deep_copier\<close> says what
  a deep copy promises; the copies of pointers and of slices keep that promise
  (\<open>cell_copier\<close>, \<open>array_copier\<close>), and so do structs whose fields do (\<open>copier_pair\<close>, \<open>copier_field\<close>).
\<close>

section \<open>Structs in memory\<close>

type_synonym addr = nat

record MetaCell =
  m_Name :: string
  m_Namespace :: string
  m_ResourceVersion :: string
  m_Generation :: int64
  m_DeletionTimestamp :: "addr option"
  m_Finalizers :: "addr option"

record ListMeta =
  ListResourceVersion :: string
  ListContinue :: string

record RuleCell =
  r_Description :: string
  r_Direction :: SecurityRuleDirection
  r_Protocol :: string
  r_Source :: string
  r_Destination :: string
  r_MinPort :: "addr option"
  r_MaxPort :: "addr option"

record InstanceSpecCell =
  i_CompartmentID :: string
  i_DisplayName :: string
  i_Shape :: string
  i_ImageID :: string
  i_AvailabilityDomain :: string
  i_SubnetID :: string
  i_OCPUs :: "addr option"
  i_MemoryInGBs :: "addr option"
  i_FreeformTags :: "addr option"

record InstanceStatusCell =
  i_InstanceID :: string
  i_Phase :: InstancePhase
  i_PrivateIP :: string
  i_PublicIP :: string
  i_FailureReason :: string
  i_ObservedGeneration :: int64
  i_Conditions :: "addr option"

record InstanceCell =
  i_TypeMeta :: TypeMeta
  i_ObjectMeta :: MetaCell
  i_Spec :: InstanceSpecCell
  i_Status :: InstanceStatusCell

record PolicySpecCell =
  p_CompartmentID :: string
  p_VcnID :: string
  p_DisplayName :: string
  p_Rules :: "addr option"
  p_FreeformTags :: "addr option"

record PolicyStatusCell =
  p_SecurityListID :: string
  p_Phase :: SecurityPolicyPhase
  p_FailureReason :: string
  p_ObservedGeneration :: int64
  p_Conditions :: "addr option"

record PolicyCell =
  p_TypeMeta :: TypeMeta
  p_ObjectMeta :: MetaCell
  p_Spec :: PolicySpecCell
  p_Status :: PolicyStatusCell

record ListCell =
  l_TypeMeta :: TypeMeta
  l_ListMeta :: ListMeta
  l_Items :: "addr option"

text \<open>A map of strings in memory: its entries in the order in which \<open>range\<close> happens to visit them.\<close>

type_synonym tag_map = "(string, string) alist"

record Heap =
  next_addr :: addr
  strings :: "addr \<Rightarrow> string"
  int32s :: "addr \<Rightarrow> int32"
  times :: "addr \<Rightarrow> Time"
  string_arrays :: "addr \<Rightarrow> string list"
  tag_maps :: "addr \<Rightarrow> tag_map"
  condition_arrays :: "addr \<Rightarrow> Condition list"
  rules :: "addr \<Rightarrow> RuleCell"
  rule_arrays :: "addr \<Rightarrow> RuleCell list"
  instance_specs :: "addr \<Rightarrow> InstanceSpecCell"
  instance_statuses :: "addr \<Rightarrow> InstanceStatusCell"
  instances :: "addr \<Rightarrow> InstanceCell"
  instance_arrays :: "addr \<Rightarrow> InstanceCell list"
  instance_lists :: "addr \<Rightarrow> ListCell"
  policy_specs :: "addr \<Rightarrow> PolicySpecCell"
  policy_statuses :: "addr \<Rightarrow> PolicyStatusCell"
  policies :: "addr \<Rightarrow> PolicyCell"
  policy_arrays :: "addr \<Rightarrow> PolicyCell list"
  policy_lists :: "addr \<Rightarrow> ListCell"

section \<open>Primitive steps\<close>

text \<open>\<open>rd\<close> reads a store at an address, \<open>wr\<close> writes one, \<open>new_addr\<close> takes the next free address.\<close>

type_synonym 'a getter = "Heap \<Rightarrow> addr \<Rightarrow> 'a"
type_synonym 'a setter = "((addr \<Rightarrow> 'a) \<Rightarrow> addr \<Rightarrow> 'a) \<Rightarrow> Heap \<Rightarrow> Heap"

definition rd :: "'a getter \<Rightarrow> addr \<Rightarrow> (Heap, 'a) state" where
  "rd get a = State (\<lambda>h. (get h a, h))"

definition wr :: "'a setter \<Rightarrow> addr \<Rightarrow> 'a \<Rightarrow> (Heap, unit) state" where
  "wr upd a v = State (\<lambda>h. ((), upd (\<lambda>f. f(a := v)) h))"

definition new_addr :: "(Heap, addr) state" where
  "new_addr = State (\<lambda>h. (next_addr h, h\<lparr>next_addr := Suc (next_addr h)\<rparr>))"

lemma post_rd [post_simps, simp]: "post (rd get a) Q = (\<lambda>h. Q (get h a) h)"
  by (simp add: rd_def post_State)

lemma post_wr [post_simps, simp]: "post (wr upd a v) Q = (\<lambda>h. Q () (upd (\<lambda>f. f(a := v)) h))"
  by (simp add: wr_def post_State)

lemma post_new [post_simps, simp]:
  "post new_addr Q = (\<lambda>h. Q (next_addr h) (h\<lparr>next_addr := Suc (next_addr h)\<rparr>))"
  by (simp add: new_addr_def post_State)

text \<open>\<open>if p != nil { *out = new(T); copyInto( *p, *out) }\<close>; the new cell holds a zero value first.\<close>

definition copyPointer ::
    "'x getter \<Rightarrow> 'x setter \<Rightarrow> 'x \<Rightarrow> ('x \<Rightarrow> (Heap, 'x) state) \<Rightarrow> addr option \<Rightarrow>
     (Heap, addr option) state" where
  "copyPointer get upd zero copyInto p = (case p of
     None \<Rightarrow> State_Monad.return None
   | Some a \<Rightarrow> do {
       out \<leftarrow> new_addr;
       wr upd out zero;
       x \<leftarrow> rd get a;
       y \<leftarrow> copyInto x;
       wr upd out y;
       State_Monad.return (Some out)
     })"

text \<open>
  \<open>if s != nil { *out = make([]T, len( *s)); for i := range *s { copyInto(( *s)[i], ( *out)[i]) } }\<close>.
\<close>

fun copyItems ::
    "'x list getter \<Rightarrow> 'x list setter \<Rightarrow> ('x \<Rightarrow> (Heap, 'x) state) \<Rightarrow> addr \<Rightarrow> nat \<Rightarrow> 'x list \<Rightarrow>
     (Heap, unit) state" where
  "copyItems get upd copyInto out i [] = State_Monad.return ()"
| "copyItems get upd copyInto out i (x # xs) = do {
     y \<leftarrow> copyInto x;
     ys \<leftarrow> rd get out;
     wr upd out (ys[i := y]);
     copyItems get upd copyInto out (Suc i) xs
   }"

definition copySlice ::
    "'x list getter \<Rightarrow> 'x list setter \<Rightarrow> 'x \<Rightarrow> ('x \<Rightarrow> (Heap, 'x) state) \<Rightarrow> addr option \<Rightarrow>
     (Heap, addr option) state" where
  "copySlice get upd zero copyInto s = (case s of
     None \<Rightarrow> State_Monad.return None
   | Some a \<Rightarrow> do {
       xs \<leftarrow> rd get a;
       out \<leftarrow> new_addr;
       wr upd out (replicate (length xs) zero);
       copyItems get upd copyInto out 0 xs;
       State_Monad.return (Some out)
     })"

text \<open>
  \<open>if m != nil { *out = make(map[string]string, len( *m)); for key, val := range *m { ( *out)[key] = val } }\<close>.
\<close>

fun copyEntries :: "addr \<Rightarrow> (string \<times> string) list \<Rightarrow> (Heap, unit) state" where
  "copyEntries out [] = State_Monad.return ()"
| "copyEntries out ((key, val) # kvs) = do {
     m \<leftarrow> rd tag_maps out;
     wr tag_maps_update out (DAList.update key val m);
     copyEntries out kvs
   }"

definition copyMap :: "addr option \<Rightarrow> (Heap, addr option) state" where
  "copyMap p = (case p of
     None \<Rightarrow> State_Monad.return None
   | Some a \<Rightarrow> do {
       out \<leftarrow> new_addr;
       wr tag_maps_update out DAList.empty;
       m \<leftarrow> rd tag_maps a;
       copyEntries out (DAList.impl_of m);
       State_Monad.return (Some out)
     })"

section \<open>Frames\<close>

definition allocated :: "Heap \<Rightarrow> addr set" where
  "allocated h = {..<next_addr h}"

definition same_at :: "addr \<Rightarrow> Heap \<Rightarrow> Heap \<Rightarrow> bool" where
  "same_at a h h' \<longleftrightarrow>
     strings h' a = strings h a \<and> int32s h' a = int32s h a \<and> times h' a = times h a \<and>
     string_arrays h' a = string_arrays h a \<and> tag_maps h' a = tag_maps h a \<and>
     condition_arrays h' a = condition_arrays h a \<and>
     rules h' a = rules h a \<and> rule_arrays h' a = rule_arrays h a \<and>
     instance_specs h' a = instance_specs h a \<and> instance_statuses h' a = instance_statuses h a \<and>
     instances h' a = instances h a \<and> instance_arrays h' a = instance_arrays h a \<and>
     instance_lists h' a = instance_lists h a \<and>
     policy_specs h' a = policy_specs h a \<and> policy_statuses h' a = policy_statuses h a \<and>
     policies h' a = policies h a \<and> policy_arrays h' a = policy_arrays h a \<and>
     policy_lists h' a = policy_lists h a"

text \<open>The two heaps agree on every cell at an address of the set.\<close>

definition same_on :: "addr set \<Rightarrow> Heap \<Rightarrow> Heap \<Rightarrow> bool" where
  "same_on S h h' \<longleftrightarrow> (\<forall>a\<in>S. same_at a h h')"

text \<open>What was allocated is still there, unchanged.\<close>

definition extends :: "Heap \<Rightarrow> Heap \<Rightarrow> bool" where
  "extends h h' \<longleftrightarrow> next_addr h \<le> next_addr h' \<and> same_on (allocated h) h h'"

lemma same_on_refl [simp]: "same_on S h h"
  by (simp add: same_on_def same_at_def)

lemma same_on_trans: "same_on S h h' \<Longrightarrow> same_on S h' h'' \<Longrightarrow> same_on S h h''"
  by (simp add: same_on_def same_at_def)

lemma same_on_mono: "same_on T h h' \<Longrightarrow> S \<subseteq> T \<Longrightarrow> same_on S h h'"
  by (auto simp: same_on_def)

lemma same_on_Un [simp]: "same_on (S \<union> T) h h' \<longleftrightarrow> same_on S h h' \<and> same_on T h h'"
  by (auto simp: same_on_def)

lemma same_on_new [simp]: "same_on S h (h'\<lparr>next_addr := n\<rparr>) = same_on S h h'"
  by (simp add: same_on_def same_at_def)

lemma allocated_mono: "next_addr h \<le> next_addr h' \<Longrightarrow> allocated h \<subseteq> allocated h'"
  by (auto simp: allocated_def)

lemma in_allocated [simp]: "a \<in> allocated h \<longleftrightarrow> a < next_addr h"
  by (simp add: allocated_def)

lemma extends_refl [simp]: "extends h h"
  by (simp add: extends_def)

lemma extends_trans: "extends h h' \<Longrightarrow> extends h' h'' \<Longrightarrow> extends h h''"
  unfolding extends_def by (meson allocated_mono order_trans same_on_mono same_on_trans)

lemma extends_allocated: "extends h h' \<Longrightarrow> allocated h \<subseteq> allocated h'"
  by (simp add: extends_def allocated_mono)

lemma extends_same: "extends h h' \<Longrightarrow> S \<subseteq> allocated h \<Longrightarrow> same_on S h h'"
  by (auto simp: extends_def intro: same_on_mono)

lemma extends_new [simp]: "extends h (h\<lparr>next_addr := Suc (next_addr h)\<rparr>)"
  by (simp add: extends_def)

section \<open>What a deep copy promises\<close>

text \<open>
  \<open>val h x\<close> is the value that \<open>x\<close> stands for in the heap, \<open>refs h x\<close> the cells it consists of.
  \<open>frame\<close>: both depend on these cells only. \<open>copied\<close>: the copy has the same value, all its cells are
  new, and no old cell has changed.
\<close>

definition copied :: "(Heap \<Rightarrow> 'x \<Rightarrow> 'v) \<Rightarrow> (Heap \<Rightarrow> 'x \<Rightarrow> addr set) \<Rightarrow> 'x \<Rightarrow> Heap \<Rightarrow> 'x \<Rightarrow> Heap \<Rightarrow> bool" where
  "copied val refs x h y h' \<longleftrightarrow>
     extends h h' \<and> val h' y = val h x \<and> refs h' y \<subseteq> allocated h' - allocated h"

lemma copiedD:
  assumes "copied val refs x h y h'"
  shows "extends h h'" and "val h' y = val h x" and "refs h' y \<subseteq> allocated h'"
    and "refs h' y \<inter> allocated h = {}"
  using assms by (auto simp: copied_def)

locale deep_copier =
  fixes copy :: "'x \<Rightarrow> (Heap, 'x) state"
    and val :: "Heap \<Rightarrow> 'x \<Rightarrow> 'v"
    and refs :: "Heap \<Rightarrow> 'x \<Rightarrow> addr set"
  assumes frame: "same_on (refs h x) h h' \<Longrightarrow> val h' x = val h x \<and> refs h' x = refs h x"
    and copies: "refs h x \<subseteq> allocated h \<Longrightarrow> post (copy x) (copied val refs x h) h"
begin

lemma frame_extends:
  assumes "extends h h'" and "refs h x \<subseteq> allocated h"
  shows "val h' x = val h x" and "refs h' x = refs h x" and "refs h' x \<subseteq> allocated h'"
  using assms frame [OF extends_same [OF assms]] extends_allocated [OF assms(1)] by auto

text \<open>Copies run one after the other, from a heap that has grown since \<open>h\<close>.\<close>

lemma copies_later:
  assumes "refs h x \<subseteq> allocated h" and "extends h h1"
    and "\<And>y h2. copied val refs x h y h2 \<Longrightarrow> extends h1 h2 \<Longrightarrow> refs h2 y \<inter> allocated h1 = {} \<Longrightarrow> Q y h2"
  shows "post (copy x) Q h1"
proof (rule post_mono [OF copies])
  show "refs h1 x \<subseteq> allocated h1" using frame_extends [OF assms(2,1)] by simp
  fix y h2
  assume c: "copied val refs x h1 y h2"
  have "allocated h \<subseteq> allocated h1" using assms(2) by (rule extends_allocated)
  with c have "copied val refs x h y h2"
    using frame_extends [OF assms(2,1)] extends_trans [OF assms(2)] by (auto simp: copied_def)
  with c show "Q y h2" by (intro assms(3)) (auto simp: copied_def)
qed

text \<open>
  After the copy, whatever is written outside the copy leaves the copy as it is, and whatever is
  written outside the original, new cells and all of the copy included, leaves the original.
\<close>

lemma separate:
  assumes "refs h x \<subseteq> allocated h"
  shows "post (copy x) (\<lambda>y h'. \<forall>h''.
     (same_on (allocated h) h' h'' \<longrightarrow> val h'' x = val h x) \<and>
     (same_on (- allocated h) h' h'' \<longrightarrow> val h'' y = val h x)) h"
proof (rule post_mono [OF copies [OF assms]], intro allI conjI impI)
  fix y h' h''
  assume c: "copied val refs x h y h'"
  note x = frame_extends [OF copiedD(1) [OF c] assms]
  show "val h'' x = val h x" if "same_on (allocated h) h' h''"
    using frame [of h' x h''] same_on_mono [OF that, of "refs h' x"] assms x by simp
  show "val h'' y = val h x" if "same_on (- allocated h) h' h''"
    using frame [of h' y h''] same_on_mono [OF that, of "refs h' y"] copiedD [OF c] by auto
qed

end

section \<open>Structs\<close>

definition copyPair ::
    "('x \<Rightarrow> (Heap, 'x) state) \<Rightarrow> ('y \<Rightarrow> (Heap, 'y) state) \<Rightarrow> 'x \<times> 'y \<Rightarrow> (Heap, 'x \<times> 'y) state" where
  "copyPair c d z = do { x \<leftarrow> c (fst z); y \<leftarrow> d (snd z); State_Monad.return (x, y) }"

text \<open>Two fields that are copied one after the other.\<close>

lemma copier_pair:
  assumes "deep_copier c v r" and "deep_copier d w s"
  shows "deep_copier (copyPair c d) (\<lambda>h z. (v h (fst z), w h (snd z)))
     (\<lambda>h z. r h (fst z) \<union> s h (snd z))"
proof (unfold_locales, goal_cases)
  case (1 h z h')
  thus ?case
    using deep_copier.frame [OF assms(1), of h "fst z" h'] deep_copier.frame [OF assms(2), of h "snd z" h']
    by simp
next
  case (2 h z)
  have "post (d (snd z)) (\<lambda>y h2. copied (\<lambda>h z. (v h (fst z), w h (snd z)))
      (\<lambda>h z. r h (fst z) \<union> s h (snd z)) z h (x, y) h2) h1"
    if c: "copied v r (fst z) h x h1" for x h1
  proof (rule deep_copier.copies_later [OF assms(2), of h])
    show "s h (snd z) \<subseteq> allocated h" "extends h h1" using 2 c by (auto simp: copied_def)
    fix y h2
    assume d: "copied w s (snd z) h y h2" "extends h1 h2"
    have "r h1 x \<subseteq> allocated h1" using c by (auto simp: copied_def)
    from deep_copier.frame_extends [OF assms(1) d(2) this]
    show "copied (\<lambda>h z. (v h (fst z), w h (snd z))) (\<lambda>h z. r h (fst z) \<union> s h (snd z)) z h (x, y) h2"
      using c d by (auto simp: copied_def)
  qed
  thus ?case
    using 2 by (auto simp: copyPair_def intro!: post_mono [OF deep_copier.copies [OF assms(1)]])
qed

text \<open>A struct whose pointers all lie in one part of it, which is copied and put back.\<close>

lemma copier_field:
  assumes "deep_copier c v r"
    and "\<And>x. copy x = do { t \<leftarrow> c (sel x); State_Monad.return (upd x t) }"
    and "\<And>x t. sel (upd x t) = t" and "\<And>x. upd x (sel x) = x"
    and "\<And>h h' x t. v h' t = v h (sel x) \<Longrightarrow> val h' (upd x t) = val h x"
    and "\<And>h x. refs h x = r h (sel x)"
  shows "deep_copier copy val refs"
proof (unfold_locales, goal_cases)
  case (1 h x h')
  thus ?case
    using deep_copier.frame [OF assms(1), of h "sel x" h'] assms(5) [of h' "sel x" h x] assms(4,6) by simp
next
  case (2 h x)
  hence "post (c (sel x)) (copied v r (sel x) h) h"
    by (intro deep_copier.copies [OF assms(1)]) (simp add: assms(6))
  hence "post (c (sel x)) (\<lambda>t h'. copied val refs x h (upd x t) h') h"
    by (rule post_mono) (simp add: copied_def assms(3,5,6))
  thus ?case by (simp add: assms(2))
qed

text \<open>A value without pointers.\<close>

lemma copier_value: "deep_copier State_Monad.return (\<lambda>h x. x) (\<lambda>h x. {})"
  by unfold_locales (simp_all add: copied_def)

section \<open>Stores\<close>

definition pointer_val :: "'x getter \<Rightarrow> (Heap \<Rightarrow> 'x \<Rightarrow> 'v) \<Rightarrow> Heap \<Rightarrow> addr option \<Rightarrow> 'v option" where
  "pointer_val get val h p = map_option (\<lambda>a. val h (get h a)) p"

definition pointer_refs ::
    "'x getter \<Rightarrow> (Heap \<Rightarrow> 'x \<Rightarrow> addr set) \<Rightarrow> Heap \<Rightarrow> addr option \<Rightarrow> addr set" where
  "pointer_refs get refs h p = (case p of None \<Rightarrow> {} | Some a \<Rightarrow> insert a (refs h (get h a)))"

definition slice_val ::
    "'x list getter \<Rightarrow> (Heap \<Rightarrow> 'x \<Rightarrow> 'v) \<Rightarrow> Heap \<Rightarrow> addr option \<Rightarrow> 'v list option" where
  "slice_val get val h p = map_option (\<lambda>a. map (val h) (get h a)) p"

definition slice_refs ::
    "'x list getter \<Rightarrow> (Heap \<Rightarrow> 'x \<Rightarrow> addr set) \<Rightarrow> Heap \<Rightarrow> addr option \<Rightarrow> addr set" where
  "slice_refs get refs h p =
     (case p of None \<Rightarrow> {} | Some a \<Rightarrow> insert a (\<Union>x \<in> set (get h a). refs h x))"

locale store =
  fixes get :: "'a getter" and upd :: "'a setter"
  assumes get_upd [simp]: "get (upd f h) = f (get h)"
    and next_upd [simp]: "next_addr (upd f h) = next_addr h"
    and same_upd: "a \<notin> S \<Longrightarrow> same_on S h (upd (\<lambda>f. f(a := v)) h)"
    and get_same: "same_at a h h' \<Longrightarrow> get h' a = get h a"
begin

lemma get_same_on: "same_on S h h' \<Longrightarrow> a \<in> S \<Longrightarrow> get h' a = get h a"
  by (simp add: same_on_def get_same)

lemma extends_upd: "extends h h' \<Longrightarrow> next_addr h \<le> a \<Longrightarrow> extends h (upd (\<lambda>f. f(a := v)) h')"
  by (auto simp: extends_def intro!: same_on_trans [OF _ same_upd])

lemma get_extends: "extends h h' \<Longrightarrow> a < next_addr h \<Longrightarrow> get h' a = get h a"
  by (auto simp: extends_def intro: get_same_on)

end

locale cell_copier = store get upd + deep_copier copy val refs
  for get :: "'x getter" and upd and copy :: "'x \<Rightarrow> (Heap, 'x) state"
    and val :: "Heap \<Rightarrow> 'x \<Rightarrow> 'v" and refs
begin

lemma pointer_copier:
  "deep_copier (copyPointer get upd zero copy) (pointer_val get val) (pointer_refs get refs)"
proof (unfold_locales, goal_cases)
  case (1 h p h')
  thus ?case
    using get_same_on [OF 1] frame [of h _ h']
    by (auto simp: pointer_val_def pointer_refs_def same_on_def split: option.splits)
next
  case (2 h p)
  show ?case
  proof (cases p)
    case None
    thus ?thesis by (simp add: copyPointer_def copied_def pointer_val_def pointer_refs_def)
  next
    case (Some a)
    let ?out = "next_addr h"
    let ?h1 = "upd (\<lambda>f. f(?out := zero)) (h\<lparr>next_addr := Suc ?out\<rparr>)"
    have a: "a < ?out" "refs h (get h a) \<subseteq> allocated h"
      using 2 Some by (auto simp: pointer_refs_def)
    have e: "extends h ?h1" by (simp add: extends_upd)
    have "get ?h1 a = get h a" using get_extends [OF e a(1)] .
    moreover have "post (copy (get h a)) (\<lambda>y h2. copied (pointer_val get val) (pointer_refs get refs)
        p h (Some ?out) (upd (\<lambda>f. f(?out := y)) h2)) ?h1"
    proof (rule copies_later [OF a(2) e])
      fix y h2
      assume c: "copied val refs (get h a) h y h2" "extends ?h1 h2" "refs h2 y \<inter> allocated ?h1 = {}"
      let ?h3 = "upd (\<lambda>f. f(?out := y)) h2"
      have "?out < next_addr h2" using extends_allocated [OF c(2)] by (auto simp: allocated_def)
      moreover have "?out \<notin> refs h2 y" using c(3) by auto
      hence "val ?h3 y = val h2 y \<and> refs ?h3 y = refs h2 y" by (intro frame same_upd)
      ultimately show "copied (pointer_val get val) (pointer_refs get refs) p h (Some ?out) ?h3"
        using copiedD [OF c(1)] Some
        by (auto simp: copied_def pointer_val_def pointer_refs_def extends_upd)
    qed
    ultimately show ?thesis by (simp add: Some copyPointer_def)
  qed
qed

end

locale array_copier = store get upd + deep_copier copy val refs
  for get :: "'x list getter" and upd and copy :: "'x \<Rightarrow> (Heap, 'x) state"
    and val :: "Heap \<Rightarrow> 'x \<Rightarrow> 'v" and refs
begin

text \<open>The loop, from a heap where the first items \<open>dn\<close> of the new array are done.\<close>

lemma copyItems_copies:
  assumes "\<forall>x \<in> set xs. refs h x \<subseteq> allocated h" and "next_addr h \<le> out"
    and "extends h h1" and "out < next_addr h1"
    and "get h1 out = dn @ rest" and "length rest = length xs"
    and "\<forall>y \<in> set dn. refs h1 y \<subseteq> allocated h1 - allocated h - {out}"
  shows "post (copyItems get upd copy out (length dn) xs) (\<lambda>_ h'. extends h h' \<and> out < next_addr h' \<and>
     map (val h') (get h' out) = map (val h1) dn @ map (val h) xs \<and>
     (\<forall>y \<in> set (get h' out). refs h' y \<subseteq> allocated h' - allocated h)) h1"
  using assms
proof (induction xs arbitrary: dn rest h1)
  case Nil
  thus ?case by auto
next
  case (Cons x xs)
  obtain r rest' where rest: "rest = r # rest'" "length rest' = length xs"
    using Cons.prems(6) by (cases rest) auto
  have x: "refs h x \<subseteq> allocated h" using Cons.prems(1) by simp
  have step: "post (copyItems get upd copy out (Suc (length dn)) xs) (\<lambda>_ h'. extends h h' \<and>
      out < next_addr h' \<and> map (val h') (get h' out) = map (val h1) dn @ val h x # map (val h) xs \<and>
      (\<forall>y \<in> set (get h' out). refs h' y \<subseteq> allocated h' - allocated h))
      (upd (\<lambda>f. f(out := (get h2 out)[length dn := y])) h2)"
    if c: "copied val refs x h y h2" "extends h1 h2" "refs h2 y \<inter> allocated h1 = {}" for y h2
  proof -
    have ys: "(get h2 out)[length dn := y] = (dn @ [y]) @ rest'"
      using get_extends [OF c(2) Cons.prems(4)] Cons.prems(5) rest by simp
    define h3 where "h3 = upd (\<lambda>f. f(out := (dn @ [y]) @ rest')) h2"
    have y: "val h3 y = val h x \<and> refs h3 y \<subseteq> allocated h3 - allocated h - {out}"
    proof -
      have "out \<notin> refs h2 y" using c(3) Cons.prems(4) by auto
      hence "val h3 y = val h2 y \<and> refs h3 y = refs h2 y"
        unfolding h3_def by (intro frame same_upd)
      moreover have "allocated h3 = allocated h2" by (simp add: h3_def allocated_def)
      ultimately show ?thesis using copiedD(2-4) [OF c(1)] \<open>out \<notin> refs h2 y\<close> by auto
    qed
    have dn: "val h3 z = val h1 z \<and> refs h3 z \<subseteq> allocated h3 - allocated h - {out}"
      if "z \<in> set dn" for z
    proof -
      have z: "refs h1 z \<subseteq> allocated h1 - allocated h - {out}" using Cons.prems(7) that by blast
      hence "same_on (refs h1 z) h1 h3"
        unfolding h3_def by (intro same_on_trans [OF extends_same [OF c(2)] same_upd]) auto
      from frame [OF this] z extends_allocated [OF c(2)] show ?thesis by (auto simp: h3_def allocated_def)
    qed
    have "extends h h3"
      unfolding h3_def by (rule extends_upd [OF extends_trans [OF Cons.prems(3) c(2)] Cons.prems(2)])
    moreover have "out < next_addr h3" "get h3 out = (dn @ [y]) @ rest'"
      using Cons.prems(4) c(2) by (auto simp: h3_def extends_def)
    moreover have map_dn: "map (val h3) dn = map (val h1) dn" using dn by simp
    ultimately show ?thesis
      using Cons.IH [of h3 "dn @ [y]" rest'] Cons.prems(1,2) rest(2) y dn unfolding ys h3_def [symmetric]
      by (simp add: map_dn)
  qed
  show ?case
    using copies_later [OF x Cons.prems(3) step] by simp
qed

lemma slice_copier:
  "deep_copier (copySlice get upd zero copy) (slice_val get val) (slice_refs get refs)"
proof (unfold_locales, goal_cases)
  case (1 h p h')
  show ?case
  proof (cases p)
    case (Some a)
    hence "get h' a = get h a" and "\<forall>x \<in> set (get h a). same_on (refs h x) h h'"
      using 1 get_same_on [OF 1] by (auto simp: slice_refs_def same_on_def)
    thus ?thesis using Some frame [of h _ h'] by (simp add: slice_val_def slice_refs_def)
  qed (simp add: slice_val_def slice_refs_def)
next
  case (2 h p)
  show ?case
  proof (cases p)
    case None
    thus ?thesis by (simp add: copySlice_def copied_def slice_val_def slice_refs_def)
  next
    case (Some a)
    let ?out = "next_addr h"
    let ?h1 = "upd (\<lambda>f. f(?out := replicate (length (get h a)) zero)) (h\<lparr>next_addr := Suc ?out\<rparr>)"
    have a: "a < ?out" "\<forall>x \<in> set (get h a). refs h x \<subseteq> allocated h"
      using 2 Some by (auto simp: slice_refs_def)
    have e: "extends h ?h1" by (simp add: extends_upd)
    have "post (copyItems get upd copy ?out (length ([] :: 'x list)) (get h a)) (\<lambda>_ h'. extends h h' \<and>
        ?out < next_addr h' \<and> map (val h') (get h' ?out) = map (val ?h1) ([] :: 'x list) @ map (val h) (get h a) \<and>
        (\<forall>y \<in> set (get h' ?out). refs h' y \<subseteq> allocated h' - allocated h)) ?h1"
      by (rule copyItems_copies [OF a(2) _ e, where rest = "replicate (length (get h a)) zero"])
        simp_all
    hence "post (copyItems get upd copy ?out (length ([] :: 'x list)) (get h a)) (\<lambda>_ h'. copied (slice_val get val)
        (slice_refs get refs) p h (Some ?out) h') ?h1"
      by (rule post_mono) (use Some in \<open>auto simp: copied_def slice_val_def slice_refs_def\<close>)
    thus ?thesis by (simp add: Some copySlice_def)
  qed
qed

end

section \<open>Maps\<close>

interpretation map_store: store tag_maps tag_maps_update
  by unfold_locales (auto simp: same_on_def same_at_def)

definition map_val :: "Heap \<Rightarrow> addr option \<Rightarrow> string_map" where
  "map_val h p = map_option (\<lambda>a. DAList.impl_of (tag_maps h a)) p"

definition map_refs :: "Heap \<Rightarrow> addr option \<Rightarrow> addr set" where
  "map_refs h p = set_option p"

lemma update_new_key: "k \<notin> fst ` set m \<Longrightarrow> AList.update k v m = m @ [(k, v)]"
  by (induction m) auto

text \<open>Entries with new and distinct keys are added at the end.\<close>

lemma copyEntries_copies:
  assumes "distinct (map fst (DAList.impl_of (tag_maps h out) @ kvs))"
  shows "post (copyEntries out kvs) (\<lambda>_ h'. next_addr h' = next_addr h \<and> same_on (- {out}) h h' \<and>
     DAList.impl_of (tag_maps h' out) = DAList.impl_of (tag_maps h out) @ kvs) h"
  using assms
proof (induction kvs arbitrary: h)
  case (Cons kv kvs)
  obtain k v where kv: "kv = (k, v)" by (cases kv)
  let ?h1 = "tag_maps_update (\<lambda>f. f(out := DAList.update k v (tag_maps h out))) h"
  have u: "DAList.impl_of (tag_maps ?h1 out) = DAList.impl_of (tag_maps h out) @ [(k, v)]"
    using Cons.prems by (auto simp: update.rep_eq kv intro!: update_new_key)
  have s: "same_on (- {out}) h ?h1" by (auto simp: same_on_def same_at_def)
  from Cons.IH [of ?h1] u Cons.prems
  have "post (copyEntries out kvs) (\<lambda>_ h'. next_addr h' = next_addr h \<and> same_on (- {out}) ?h1 h' \<and>
     DAList.impl_of (tag_maps h' out) = DAList.impl_of (tag_maps h out) @ kv # kvs) ?h1"
    by (simp add: kv)
  hence "post (copyEntries out kvs) (\<lambda>_ h'. next_addr h' = next_addr h \<and> same_on (- {out}) h h' \<and>
     DAList.impl_of (tag_maps h' out) = DAList.impl_of (tag_maps h out) @ kv # kvs) ?h1"
    by (rule post_mono) (use same_on_trans [OF s] in blast)
  thus ?case by (simp add: kv)
qed simp

lemma map_copier: "deep_copier copyMap map_val map_refs"
proof (unfold_locales, goal_cases)
  case (1 h p h')
  thus ?case using map_store.get_same_on [OF 1] by (cases p) (auto simp: map_val_def map_refs_def)
next
  case (2 h p)
  show ?case
  proof (cases p)
    case None
    thus ?thesis by (simp add: copyMap_def copied_def map_val_def map_refs_def)
  next
    case (Some a)
    let ?out = "next_addr h"
    let ?h1 = "tag_maps_update (\<lambda>f. f(?out := DAList.empty)) (h\<lparr>next_addr := Suc ?out\<rparr>)"
    have a: "a < ?out" using 2 Some by (simp add: map_refs_def)
    have e: "extends h ?h1" by (rule map_store.extends_upd) simp_all
    have "post (copyEntries ?out (DAList.impl_of (tag_maps h a))) (\<lambda>_ h'. next_addr h' = next_addr ?h1 \<and>
        same_on (- {?out}) ?h1 h' \<and>
        DAList.impl_of (tag_maps h' ?out) = DAList.impl_of (tag_maps ?h1 ?out) @ DAList.impl_of (tag_maps h a)) ?h1"
      by (rule copyEntries_copies) (simp add: empty.rep_eq)
    hence "post (copyEntries ?out (DAList.impl_of (tag_maps h a)))
        (\<lambda>_. copied map_val map_refs p h (Some ?out)) ?h1"
    proof (rule post_mono)
      fix u h'
      assume c: "next_addr h' = next_addr ?h1 \<and> same_on (- {?out}) ?h1 h' \<and>
        DAList.impl_of (tag_maps h' ?out) = DAList.impl_of (tag_maps ?h1 ?out) @ DAList.impl_of (tag_maps h a)"
      have "same_on (allocated h) ?h1 h'" by (rule same_on_mono [of "- {?out}"]) (use c in auto)
      moreover have "same_on (allocated h) h ?h1" using e by (simp add: extends_def)
      ultimately have "same_on (allocated h) h h'" by (metis same_on_trans)
      thus "copied map_val map_refs p h (Some ?out) h'"
        using c Some by (auto simp: copied_def extends_def map_val_def map_refs_def empty.rep_eq)
    qed
    thus ?thesis using a by (simp add: Some copyMap_def)
  qed
qed

end
