(* ===== verification/DeepCopy.thy ===== *)
theory DeepCopy
  imports DeepCopyHeap
begin

text \<open>
  \<open>api/v1alpha1/zz_generated.deepcopy.go\<close>: the deep copies of the two resources, their lists and
  their parts. \<open>T_DeepCopyInto x\<close> takes \<open>*in\<close> and returns what is left in \<open>*out\<close>; it starts from
  \<open>*out = *in\<close>, which copies the addresses in \<open>x\<close>, and replaces them one by one. \<open>T_DeepCopy\<close> works on
  pointers. The deep copies of \<open>ObjectMeta\<close>, \<open>ListMeta\<close> and \<open>Condition\<close> belong to apimachinery and are a
  parameter (\<open>Copiers\<close>), with their documented behaviour as the hypothesis \<open>apimachinery_copies\<close>.
\<close>

section \<open>Zero values\<close>

definition zeroMeta :: MetaCell where
  "zeroMeta = \<lparr>m_Name = '''', m_Namespace = '''', m_ResourceVersion = '''', m_Generation = 0,
     m_DeletionTimestamp = None, m_Finalizers = None\<rparr>"

definition zeroCondition :: Condition where
  "zeroCondition = \<lparr>CondType = '''', CondStatus = '''', CondObservedGeneration = 0, CondReason = '''',
     CondMessage = ''''\<rparr>"

definition zeroRule :: RuleCell where
  "zeroRule = \<lparr>r_Description = '''', r_Direction = '''', r_Protocol = '''', r_Source = '''',
     r_Destination = '''', r_MinPort = None, r_MaxPort = None\<rparr>"

definition zeroInstanceSpec :: InstanceSpecCell where
  "zeroInstanceSpec = \<lparr>i_CompartmentID = '''', i_DisplayName = '''', i_Shape = '''', i_ImageID = '''',
     i_AvailabilityDomain = '''', i_SubnetID = '''', i_OCPUs = None, i_MemoryInGBs = None,
     i_FreeformTags = None\<rparr>"

definition zeroInstanceStatus :: InstanceStatusCell where
  "zeroInstanceStatus = \<lparr>i_InstanceID = '''', i_Phase = '''', i_PrivateIP = '''', i_PublicIP = '''',
     i_FailureReason = '''', i_ObservedGeneration = 0, i_Conditions = None\<rparr>"

definition zeroPolicySpec :: PolicySpecCell where
  "zeroPolicySpec = \<lparr>p_CompartmentID = '''', p_VcnID = '''', p_DisplayName = '''', p_Rules = None,
     p_FreeformTags = None\<rparr>"

definition zeroPolicyStatus :: PolicyStatusCell where
  "zeroPolicyStatus = \<lparr>p_SecurityListID = '''', p_Phase = '''', p_FailureReason = '''',
     p_ObservedGeneration = 0, p_Conditions = None\<rparr>"

definition zeroTypeMeta :: TypeMeta where
  "zeroTypeMeta = \<lparr>Kind = '''', APIVersion = ''''\<rparr>"

definition zeroInstance :: InstanceCell where
  "zeroInstance = \<lparr>i_TypeMeta = zeroTypeMeta, i_ObjectMeta = zeroMeta, i_Spec = zeroInstanceSpec,
     i_Status = zeroInstanceStatus\<rparr>"

definition zeroPolicy :: PolicyCell where
  "zeroPolicy = \<lparr>p_TypeMeta = zeroTypeMeta, p_ObjectMeta = zeroMeta, p_Spec = zeroPolicySpec,
     p_Status = zeroPolicyStatus\<rparr>"

definition zeroList :: ListCell where
  "zeroList = \<lparr>l_TypeMeta = zeroTypeMeta,
     l_ListMeta = \<lparr>ListResourceVersion = '''', ListContinue = ''''\<rparr>, l_Items = None\<rparr>"

section \<open>The copies\<close>

record Copiers =
  CopyObjectMeta :: "MetaCell \<Rightarrow> (Heap, MetaCell) state"
  CopyListMeta :: "ListMeta \<Rightarrow> ListMeta"
  CopyCondition :: "Condition \<Rightarrow> Condition"

text \<open>\<open>*out = new(string); **out = **in\<close>, and the same for an \<open>int32\<close> and for the conditions.\<close>

definition copyString :: "addr option \<Rightarrow> (Heap, addr option) state" where
  "copyString = copyPointer strings strings_update '''' State_Monad.return"

definition copyInt32 :: "addr option \<Rightarrow> (Heap, addr option) state" where
  "copyInt32 = copyPointer int32s int32s_update 0 State_Monad.return"

definition copyConditions :: "Copiers \<Rightarrow> addr option \<Rightarrow> (Heap, addr option) state" where
  "copyConditions cp = copySlice condition_arrays condition_arrays_update zeroCondition
     (\<lambda>c. State_Monad.return (CopyCondition cp c))"

definition SecurityRule_DeepCopyInto :: "RuleCell \<Rightarrow> (Heap, RuleCell) state" where
  "SecurityRule_DeepCopyInto x = do {
     minPort \<leftarrow> copyInt32 (r_MinPort x);
     maxPort \<leftarrow> copyInt32 (r_MaxPort x);
     State_Monad.return (x\<lparr>r_MinPort := minPort, r_MaxPort := maxPort\<rparr>)
   }"

definition SecurityRule_DeepCopy :: "addr option \<Rightarrow> (Heap, addr option) state" where
  "SecurityRule_DeepCopy = copyPointer rules rules_update zeroRule SecurityRule_DeepCopyInto"

definition OCIInstanceSpec_DeepCopyInto :: "InstanceSpecCell \<Rightarrow> (Heap, InstanceSpecCell) state" where
  "OCIInstanceSpec_DeepCopyInto x = do {
     ocpus \<leftarrow> copyString (i_OCPUs x);
     memory \<leftarrow> copyString (i_MemoryInGBs x);
     tags \<leftarrow> copyMap (i_FreeformTags x);
     State_Monad.return (x\<lparr>i_OCPUs := ocpus, i_MemoryInGBs := memory, i_FreeformTags := tags\<rparr>)
   }"

definition OCIInstanceSpec_DeepCopy :: "addr option \<Rightarrow> (Heap, addr option) state" where
  "OCIInstanceSpec_DeepCopy =
     copyPointer instance_specs instance_specs_update zeroInstanceSpec OCIInstanceSpec_DeepCopyInto"

definition OCIInstanceStatus_DeepCopyInto ::
    "Copiers \<Rightarrow> InstanceStatusCell \<Rightarrow> (Heap, InstanceStatusCell) state" where
  "OCIInstanceStatus_DeepCopyInto cp x = do {
     conditions \<leftarrow> copyConditions cp (i_Conditions x);
     State_Monad.return (x\<lparr>i_Conditions := conditions\<rparr>)
   }"

definition OCIInstanceStatus_DeepCopy :: "Copiers \<Rightarrow> addr option \<Rightarrow> (Heap, addr option) state" where
  "OCIInstanceStatus_DeepCopy cp = copyPointer instance_statuses instance_statuses_update
     zeroInstanceStatus (OCIInstanceStatus_DeepCopyInto cp)"

definition OCIInstance_DeepCopyInto :: "Copiers \<Rightarrow> InstanceCell \<Rightarrow> (Heap, InstanceCell) state" where
  "OCIInstance_DeepCopyInto cp x = do {
     meta \<leftarrow> CopyObjectMeta cp (i_ObjectMeta x);
     spec \<leftarrow> OCIInstanceSpec_DeepCopyInto (i_Spec x);
     status \<leftarrow> OCIInstanceStatus_DeepCopyInto cp (i_Status x);
     State_Monad.return (x\<lparr>i_TypeMeta := i_TypeMeta x, i_ObjectMeta := meta, i_Spec := spec,
       i_Status := status\<rparr>)
   }"

definition OCIInstance_DeepCopy :: "Copiers \<Rightarrow> addr option \<Rightarrow> (Heap, addr option) state" where
  "OCIInstance_DeepCopy cp =
     copyPointer instances instances_update zeroInstance (OCIInstance_DeepCopyInto cp)"

definition OCIInstanceList_DeepCopyInto :: "Copiers \<Rightarrow> ListCell \<Rightarrow> (Heap, ListCell) state" where
  "OCIInstanceList_DeepCopyInto cp x = do {
     items \<leftarrow> copySlice instance_arrays instance_arrays_update zeroInstance
       (OCIInstance_DeepCopyInto cp) (l_Items x);
     State_Monad.return (x\<lparr>l_TypeMeta := l_TypeMeta x, l_ListMeta := CopyListMeta cp (l_ListMeta x),
       l_Items := items\<rparr>)
   }"

definition OCIInstanceList_DeepCopy :: "Copiers \<Rightarrow> addr option \<Rightarrow> (Heap, addr option) state" where
  "OCIInstanceList_DeepCopy cp =
     copyPointer instance_lists instance_lists_update zeroList (OCIInstanceList_DeepCopyInto cp)"

definition OCISecurityPolicySpec_DeepCopyInto :: "PolicySpecCell \<Rightarrow> (Heap, PolicySpecCell) state" where
  "OCISecurityPolicySpec_DeepCopyInto x = do {
     rs \<leftarrow> copySlice rule_arrays rule_arrays_update zeroRule SecurityRule_DeepCopyInto (p_Rules x);
     tags \<leftarrow> copyMap (p_FreeformTags x);
     State_Monad.return (x\<lparr>p_Rules := rs, p_FreeformTags := tags\<rparr>)
   }"

definition OCISecurityPolicySpec_DeepCopy :: "addr option \<Rightarrow> (Heap, addr option) state" where
  "OCISecurityPolicySpec_DeepCopy =
     copyPointer policy_specs policy_specs_update zeroPolicySpec OCISecurityPolicySpec_DeepCopyInto"

definition OCISecurityPolicyStatus_DeepCopyInto ::
    "Copiers \<Rightarrow> PolicyStatusCell \<Rightarrow> (Heap, PolicyStatusCell) state" where
  "OCISecurityPolicyStatus_DeepCopyInto cp x = do {
     conditions \<leftarrow> copyConditions cp (p_Conditions x);
     State_Monad.return (x\<lparr>p_Conditions := conditions\<rparr>)
   }"

definition OCISecurityPolicyStatus_DeepCopy ::
    "Copiers \<Rightarrow> addr option \<Rightarrow> (Heap, addr option) state" where
  "OCISecurityPolicyStatus_DeepCopy cp = copyPointer policy_statuses policy_statuses_update
     zeroPolicyStatus (OCISecurityPolicyStatus_DeepCopyInto cp)"

definition OCISecurityPolicy_DeepCopyInto :: "Copiers \<Rightarrow> PolicyCell \<Rightarrow> (Heap, PolicyCell) state" where
  "OCISecurityPolicy_DeepCopyInto cp x = do {
     meta \<leftarrow> CopyObjectMeta cp (p_ObjectMeta x);
     spec \<leftarrow> OCISecurityPolicySpec_DeepCopyInto (p_Spec x);
     status \<leftarrow> OCISecurityPolicyStatus_DeepCopyInto cp (p_Status x);
     State_Monad.return (x\<lparr>p_TypeMeta := p_TypeMeta x, p_ObjectMeta := meta, p_Spec := spec,
       p_Status := status\<rparr>)
   }"

definition OCISecurityPolicy_DeepCopy :: "Copiers \<Rightarrow> addr option \<Rightarrow> (Heap, addr option) state" where
  "OCISecurityPolicy_DeepCopy cp =
     copyPointer policies policies_update zeroPolicy (OCISecurityPolicy_DeepCopyInto cp)"

definition OCISecurityPolicyList_DeepCopyInto :: "Copiers \<Rightarrow> ListCell \<Rightarrow> (Heap, ListCell) state" where
  "OCISecurityPolicyList_DeepCopyInto cp x = do {
     items \<leftarrow> copySlice policy_arrays policy_arrays_update zeroPolicy
       (OCISecurityPolicy_DeepCopyInto cp) (l_Items x);
     State_Monad.return (x\<lparr>l_TypeMeta := l_TypeMeta x, l_ListMeta := CopyListMeta cp (l_ListMeta x),
       l_Items := items\<rparr>)
   }"

definition OCISecurityPolicyList_DeepCopy :: "Copiers \<Rightarrow> addr option \<Rightarrow> (Heap, addr option) state" where
  "OCISecurityPolicyList_DeepCopy cp =
     copyPointer policy_lists policy_lists_update zeroList (OCISecurityPolicyList_DeepCopyInto cp)"

text \<open>
  \<open>runtime.Object\<close> is an interface: a value of it is nil (\<open>None\<close>), or a pointer with its type, and a nil
  pointer with a type is not a nil interface.
\<close>

datatype RuntimeObject =
    InstanceObject "addr option" | InstanceListObject "addr option"
  | PolicyObject "addr option" | PolicyListObject "addr option"

definition asObject ::
    "(addr option \<Rightarrow> RuntimeObject) \<Rightarrow> addr option \<Rightarrow> RuntimeObject option" where
  "asObject wrap c = (if c \<noteq> None then Some (wrap c) else None)"

definition OCIInstance_DeepCopyObject ::
    "Copiers \<Rightarrow> addr option \<Rightarrow> (Heap, RuntimeObject option) state" where
  "OCIInstance_DeepCopyObject cp p =
     do { c \<leftarrow> OCIInstance_DeepCopy cp p; State_Monad.return (asObject InstanceObject c) }"

definition OCIInstanceList_DeepCopyObject ::
    "Copiers \<Rightarrow> addr option \<Rightarrow> (Heap, RuntimeObject option) state" where
  "OCIInstanceList_DeepCopyObject cp p =
     do { c \<leftarrow> OCIInstanceList_DeepCopy cp p; State_Monad.return (asObject InstanceListObject c) }"

definition OCISecurityPolicy_DeepCopyObject ::
    "Copiers \<Rightarrow> addr option \<Rightarrow> (Heap, RuntimeObject option) state" where
  "OCISecurityPolicy_DeepCopyObject cp p =
     do { c \<leftarrow> OCISecurityPolicy_DeepCopy cp p; State_Monad.return (asObject PolicyObject c) }"

definition OCISecurityPolicyList_DeepCopyObject ::
    "Copiers \<Rightarrow> addr option \<Rightarrow> (Heap, RuntimeObject option) state" where
  "OCISecurityPolicyList_DeepCopyObject cp p =
     do { c \<leftarrow> OCISecurityPolicyList_DeepCopy cp p; State_Monad.return (asObject PolicyListObject c) }"

section \<open>Values and cells\<close>

text \<open>
  The API object that a struct in memory stands for. A nil slice of rules and an empty one are the same
  list, so the value of a policy spec also says which of the two it is.
\<close>

definition meta_val :: "Heap \<Rightarrow> MetaCell \<Rightarrow> ObjectMeta" where
  "meta_val h x = \<lparr>Name = m_Name x, Namespace = m_Namespace x, ResourceVersion = m_ResourceVersion x,
     Generation = m_Generation x,
     DeletionTimestamp = pointer_val times (\<lambda>h t. t) h (m_DeletionTimestamp x),
     Finalizers = elems (slice_val string_arrays (\<lambda>h f. f) h (m_Finalizers x))\<rparr>"

definition meta_refs :: "Heap \<Rightarrow> MetaCell \<Rightarrow> addr set" where
  "meta_refs h x = pointer_refs times (\<lambda>h t. {}) h (m_DeletionTimestamp x) \<union>
     slice_refs string_arrays (\<lambda>h f. {}) h (m_Finalizers x)"

definition conditions_val :: "Heap \<Rightarrow> addr option \<Rightarrow> Condition list option" where
  "conditions_val = slice_val condition_arrays (\<lambda>h c. c)"

definition conditions_refs :: "Heap \<Rightarrow> addr option \<Rightarrow> addr set" where
  "conditions_refs = slice_refs condition_arrays (\<lambda>h c. {})"

definition string_val :: "Heap \<Rightarrow> addr option \<Rightarrow> string option" where
  "string_val = pointer_val strings (\<lambda>h s. s)"

definition string_refs :: "Heap \<Rightarrow> addr option \<Rightarrow> addr set" where
  "string_refs = pointer_refs strings (\<lambda>h s. {})"

definition int32_val :: "Heap \<Rightarrow> addr option \<Rightarrow> int32 option" where
  "int32_val = pointer_val int32s (\<lambda>h i. i)"

definition int32_refs :: "Heap \<Rightarrow> addr option \<Rightarrow> addr set" where
  "int32_refs = pointer_refs int32s (\<lambda>h i. {})"

definition rule_val :: "Heap \<Rightarrow> RuleCell \<Rightarrow> SecurityRule" where
  "rule_val h x = \<lparr>Description = r_Description x, Direction = r_Direction x, Protocol = r_Protocol x,
     Source = r_Source x, Destination = r_Destination x, MinPort = int32_val h (r_MinPort x),
     MaxPort = int32_val h (r_MaxPort x)\<rparr>"

definition rule_refs :: "Heap \<Rightarrow> RuleCell \<Rightarrow> addr set" where
  "rule_refs h x = int32_refs h (r_MinPort x) \<union> int32_refs h (r_MaxPort x)"

definition instance_spec_val :: "Heap \<Rightarrow> InstanceSpecCell \<Rightarrow> OCIInstanceSpec" where
  "instance_spec_val h x = \<lparr>OCIInstanceSpec.CompartmentID = i_CompartmentID x,
     DisplayName = i_DisplayName x, Shape = i_Shape x, ImageID = i_ImageID x,
     AvailabilityDomain = i_AvailabilityDomain x, SubnetID = i_SubnetID x,
     OCPUs = string_val h (i_OCPUs x), MemoryInGBs = string_val h (i_MemoryInGBs x),
     FreeformTags = map_val h (i_FreeformTags x)\<rparr>"

definition instance_spec_refs :: "Heap \<Rightarrow> InstanceSpecCell \<Rightarrow> addr set" where
  "instance_spec_refs h x =
     string_refs h (i_OCPUs x) \<union> (string_refs h (i_MemoryInGBs x) \<union> map_refs h (i_FreeformTags x))"

definition instance_status_val :: "Heap \<Rightarrow> InstanceStatusCell \<Rightarrow> OCIInstanceStatus" where
  "instance_status_val h x = \<lparr>OCIInstanceStatus.InstanceID = i_InstanceID x, Phase = i_Phase x,
     PrivateIP = i_PrivateIP x, PublicIP = i_PublicIP x, FailureReason = i_FailureReason x,
     ObservedGeneration = i_ObservedGeneration x, Conditions = conditions_val h (i_Conditions x)\<rparr>"

definition instance_status_refs :: "Heap \<Rightarrow> InstanceStatusCell \<Rightarrow> addr set" where
  "instance_status_refs h x = conditions_refs h (i_Conditions x)"

definition instance_val :: "Heap \<Rightarrow> InstanceCell \<Rightarrow> OCIInstance" where
  "instance_val h x = \<lparr>InstTypeMeta = i_TypeMeta x, InstMeta = meta_val h (i_ObjectMeta x),
     Spec = instance_spec_val h (i_Spec x), Status = instance_status_val h (i_Status x)\<rparr>"

definition instance_refs :: "Heap \<Rightarrow> InstanceCell \<Rightarrow> addr set" where
  "instance_refs h x = meta_refs h (i_ObjectMeta x) \<union>
     (instance_spec_refs h (i_Spec x) \<union> instance_status_refs h (i_Status x))"

definition policy_spec_val :: "Heap \<Rightarrow> PolicySpecCell \<Rightarrow> OCISecurityPolicySpec \<times> bool" where
  "policy_spec_val h x = (let rs = slice_val rule_arrays rule_val h (p_Rules x) in
     (\<lparr>OCISecurityPolicySpec.CompartmentID = p_CompartmentID x, VcnID = p_VcnID x,
       DisplayName = p_DisplayName x, Rules = elems rs,
       FreeformTags = map_val h (p_FreeformTags x)\<rparr>, rs = None))"

definition policy_spec_refs :: "Heap \<Rightarrow> PolicySpecCell \<Rightarrow> addr set" where
  "policy_spec_refs h x =
     slice_refs rule_arrays rule_refs h (p_Rules x) \<union> map_refs h (p_FreeformTags x)"

definition policy_status_val :: "Heap \<Rightarrow> PolicyStatusCell \<Rightarrow> OCISecurityPolicyStatus" where
  "policy_status_val h x = \<lparr>OCISecurityPolicyStatus.SecurityListID = p_SecurityListID x,
     Phase = p_Phase x, FailureReason = p_FailureReason x,
     ObservedGeneration = p_ObservedGeneration x, Conditions = conditions_val h (p_Conditions x)\<rparr>"

definition policy_status_refs :: "Heap \<Rightarrow> PolicyStatusCell \<Rightarrow> addr set" where
  "policy_status_refs h x = conditions_refs h (p_Conditions x)"

definition policy_val :: "Heap \<Rightarrow> PolicyCell \<Rightarrow> OCISecurityPolicy \<times> bool" where
  "policy_val h x = (case policy_spec_val h (p_Spec x) of (spec, nil_rules) \<Rightarrow>
     (\<lparr>PolTypeMeta = p_TypeMeta x, PolMeta = meta_val h (p_ObjectMeta x), Spec = spec,
       Status = policy_status_val h (p_Status x)\<rparr>, nil_rules))"

definition policy_refs :: "Heap \<Rightarrow> PolicyCell \<Rightarrow> addr set" where
  "policy_refs h x = meta_refs h (p_ObjectMeta x) \<union>
     (policy_spec_refs h (p_Spec x) \<union> policy_status_refs h (p_Status x))"

definition instance_list_val :: "Heap \<Rightarrow> ListCell \<Rightarrow> TypeMeta \<times> ListMeta \<times> OCIInstance list option" where
  "instance_list_val h x =
     (l_TypeMeta x, l_ListMeta x, slice_val instance_arrays instance_val h (l_Items x))"

definition instance_list_refs :: "Heap \<Rightarrow> ListCell \<Rightarrow> addr set" where
  "instance_list_refs h x = slice_refs instance_arrays instance_refs h (l_Items x)"

definition policy_list_val ::
    "Heap \<Rightarrow> ListCell \<Rightarrow> TypeMeta \<times> ListMeta \<times> (OCISecurityPolicy \<times> bool) list option" where
  "policy_list_val h x =
     (l_TypeMeta x, l_ListMeta x, slice_val policy_arrays policy_val h (l_Items x))"

definition policy_list_refs :: "Heap \<Rightarrow> ListCell \<Rightarrow> addr set" where
  "policy_list_refs h x = slice_refs policy_arrays policy_refs h (l_Items x)"

section \<open>What the copies of apimachinery promise\<close>

definition apimachinery_copies :: "Copiers \<Rightarrow> bool" where
  "apimachinery_copies cp \<longleftrightarrow> deep_copier (CopyObjectMeta cp) meta_val meta_refs \<and>
     (\<forall>m. CopyListMeta cp m = m) \<and> (\<forall>c. CopyCondition cp c = c)"

section \<open>Every copy keeps the contract\<close>

interpretation string_cell:
  cell_copier strings strings_update State_Monad.return "\<lambda>h s. s" "\<lambda>h s. {}"
  by (intro cell_copier.intro copier_value store.intro) (auto simp: same_on_def same_at_def)

interpretation int32_cell:
  cell_copier int32s int32s_update State_Monad.return "\<lambda>h i. i" "\<lambda>h i. {}"
  by (intro cell_copier.intro copier_value store.intro) (auto simp: same_on_def same_at_def)

interpretation time_cell:
  cell_copier times times_update State_Monad.return "\<lambda>h t. t" "\<lambda>h t. {}"
  by (intro cell_copier.intro copier_value store.intro) (auto simp: same_on_def same_at_def)

interpretation string_array:
  array_copier string_arrays string_arrays_update State_Monad.return "\<lambda>h s. s" "\<lambda>h s. {}"
  by (intro array_copier.intro copier_value store.intro) (auto simp: same_on_def same_at_def)

interpretation condition_array:
  array_copier condition_arrays condition_arrays_update State_Monad.return "\<lambda>h c. c" "\<lambda>h c. {}"
  by (intro array_copier.intro copier_value store.intro) (auto simp: same_on_def same_at_def)

lemma string_copier: "deep_copier copyString string_val string_refs"
  unfolding copyString_def string_val_def string_refs_def by (rule string_cell.pointer_copier)

lemma int32_copier: "deep_copier copyInt32 int32_val int32_refs"
  unfolding copyInt32_def int32_val_def int32_refs_def by (rule int32_cell.pointer_copier)

lemma conditions_copier:
  assumes "apimachinery_copies cp"
  shows "deep_copier (copyConditions cp) conditions_val conditions_refs"
proof -
  have "copyConditions cp =
      copySlice condition_arrays condition_arrays_update zeroCondition State_Monad.return"
    using assms by (simp add: copyConditions_def apimachinery_copies_def)
  thus ?thesis
    unfolding conditions_val_def conditions_refs_def by (simp add: condition_array.slice_copier)
qed

text \<open>The two copies of structs that need no help from apimachinery.\<close>

interpretation rule: deep_copier SecurityRule_DeepCopyInto rule_val rule_refs
  by (rule copier_field [OF copier_pair [OF int32_copier int32_copier],
        where sel = "\<lambda>x. (r_MinPort x, r_MaxPort x)"
          and upd = "\<lambda>x t. x\<lparr>r_MinPort := fst t, r_MaxPort := snd t\<rparr>"])
    (simp_all add: SecurityRule_DeepCopyInto_def copyPair_def rule_val_def rule_refs_def)

interpretation instance_spec:
  deep_copier OCIInstanceSpec_DeepCopyInto instance_spec_val instance_spec_refs
  by (rule copier_field [OF copier_pair [OF string_copier copier_pair [OF string_copier map_copier]],
        where sel = "\<lambda>x. (i_OCPUs x, i_MemoryInGBs x, i_FreeformTags x)"
          and upd = "\<lambda>x t. x\<lparr>i_OCPUs := fst t, i_MemoryInGBs := fst (snd t),
            i_FreeformTags := snd (snd t)\<rparr>"])
    (simp_all add: OCIInstanceSpec_DeepCopyInto_def copyPair_def instance_spec_val_def
      instance_spec_refs_def)

interpretation rule_array:
  array_copier rule_arrays rule_arrays_update SecurityRule_DeepCopyInto rule_val rule_refs
  by (intro array_copier.intro rule.deep_copier_axioms store.intro)
    (auto simp: same_on_def same_at_def)

interpretation policy_spec:
  deep_copier OCISecurityPolicySpec_DeepCopyInto policy_spec_val policy_spec_refs
  by (rule copier_field [OF copier_pair [OF rule_array.slice_copier map_copier],
        where sel = "\<lambda>x. (p_Rules x, p_FreeformTags x)"
          and upd = "\<lambda>x t. x\<lparr>p_Rules := fst t, p_FreeformTags := snd t\<rparr>"])
    (simp_all add: OCISecurityPolicySpec_DeepCopyInto_def copyPair_def policy_spec_val_def
      policy_spec_refs_def)

lemma instance_status_copier:
  assumes "apimachinery_copies cp"
  shows "deep_copier (OCIInstanceStatus_DeepCopyInto cp) instance_status_val instance_status_refs"
  by (rule copier_field [OF conditions_copier [OF assms],
        where sel = i_Conditions and upd = "\<lambda>x t. x\<lparr>i_Conditions := t\<rparr>"])
    (simp_all add: OCIInstanceStatus_DeepCopyInto_def instance_status_val_def
      instance_status_refs_def)

lemma policy_status_copier:
  assumes "apimachinery_copies cp"
  shows "deep_copier (OCISecurityPolicyStatus_DeepCopyInto cp) policy_status_val policy_status_refs"
  by (rule copier_field [OF conditions_copier [OF assms],
        where sel = p_Conditions and upd = "\<lambda>x t. x\<lparr>p_Conditions := t\<rparr>"])
    (simp_all add: OCISecurityPolicyStatus_DeepCopyInto_def policy_status_val_def
      policy_status_refs_def)

lemma meta_copier:
  "apimachinery_copies cp \<Longrightarrow> deep_copier (CopyObjectMeta cp) meta_val meta_refs"
  by (simp add: apimachinery_copies_def)

lemma instance_copier:
  assumes "apimachinery_copies cp"
  shows "deep_copier (OCIInstance_DeepCopyInto cp) instance_val instance_refs"
  by (rule copier_field [OF copier_pair [OF meta_copier copier_pair [OF
          instance_spec.deep_copier_axioms instance_status_copier]], OF assms assms,
        where sel = "\<lambda>x. (i_ObjectMeta x, i_Spec x, i_Status x)"
          and upd = "\<lambda>x t. x\<lparr>i_ObjectMeta := fst t, i_Spec := fst (snd t), i_Status := snd (snd t)\<rparr>"])
    (simp_all add: OCIInstance_DeepCopyInto_def copyPair_def instance_val_def instance_refs_def)

lemma policy_copier:
  assumes "apimachinery_copies cp"
  shows "deep_copier (OCISecurityPolicy_DeepCopyInto cp) policy_val policy_refs"
  by (rule copier_field [OF copier_pair [OF meta_copier copier_pair [OF
          policy_spec.deep_copier_axioms policy_status_copier]], OF assms assms,
        where sel = "\<lambda>x. (p_ObjectMeta x, p_Spec x, p_Status x)"
          and upd = "\<lambda>x t. x\<lparr>p_ObjectMeta := fst t, p_Spec := fst (snd t), p_Status := snd (snd t)\<rparr>"])
    (simp_all add: OCISecurityPolicy_DeepCopyInto_def copyPair_def policy_val_def policy_refs_def)

lemma instance_array_copier:
  assumes "apimachinery_copies cp"
  shows "array_copier instance_arrays instance_arrays_update (OCIInstance_DeepCopyInto cp)
    instance_val instance_refs"
  by (intro array_copier.intro instance_copier assms store.intro)
    (auto simp: same_on_def same_at_def)

lemma policy_array_copier:
  assumes "apimachinery_copies cp"
  shows "array_copier policy_arrays policy_arrays_update (OCISecurityPolicy_DeepCopyInto cp)
    policy_val policy_refs"
  by (intro array_copier.intro policy_copier assms store.intro)
    (auto simp: same_on_def same_at_def)

lemma instance_list_copier:
  assumes "apimachinery_copies cp"
  shows "deep_copier (OCIInstanceList_DeepCopyInto cp) instance_list_val instance_list_refs"
proof -
  have "CopyListMeta cp m = m" for m using assms by (simp add: apimachinery_copies_def)
  thus ?thesis
    by (intro copier_field [OF array_copier.slice_copier [OF instance_array_copier [OF assms]],
          where sel = l_Items and upd = "\<lambda>x t. x\<lparr>l_Items := t\<rparr>"])
      (simp_all add: OCIInstanceList_DeepCopyInto_def instance_list_val_def instance_list_refs_def)
qed

lemma policy_list_copier:
  assumes "apimachinery_copies cp"
  shows "deep_copier (OCISecurityPolicyList_DeepCopyInto cp) policy_list_val policy_list_refs"
proof -
  have "CopyListMeta cp m = m" for m using assms by (simp add: apimachinery_copies_def)
  thus ?thesis
    by (intro copier_field [OF array_copier.slice_copier [OF policy_array_copier [OF assms]],
          where sel = l_Items and upd = "\<lambda>x t. x\<lparr>l_Items := t\<rparr>"])
      (simp_all add: OCISecurityPolicyList_DeepCopyInto_def policy_list_val_def policy_list_refs_def)
qed

section \<open>Copies of whole objects\<close>

text \<open>The object a pointer stands for and its cells, the pointer's own cell included.\<close>

definition instance_at :: "Heap \<Rightarrow> addr option \<Rightarrow> OCIInstance option" where
  "instance_at = pointer_val instances instance_val"

definition instance_cells :: "Heap \<Rightarrow> addr option \<Rightarrow> addr set" where
  "instance_cells = pointer_refs instances instance_refs"

definition instance_list_at ::
    "Heap \<Rightarrow> addr option \<Rightarrow> (TypeMeta \<times> ListMeta \<times> OCIInstance list option) option" where
  "instance_list_at = pointer_val instance_lists instance_list_val"

definition instance_list_cells :: "Heap \<Rightarrow> addr option \<Rightarrow> addr set" where
  "instance_list_cells = pointer_refs instance_lists instance_list_refs"

definition policy_at :: "Heap \<Rightarrow> addr option \<Rightarrow> (OCISecurityPolicy \<times> bool) option" where
  "policy_at = pointer_val policies policy_val"

definition policy_cells :: "Heap \<Rightarrow> addr option \<Rightarrow> addr set" where
  "policy_cells = pointer_refs policies policy_refs"

definition policy_list_at ::
    "Heap \<Rightarrow> addr option \<Rightarrow> (TypeMeta \<times> ListMeta \<times> (OCISecurityPolicy \<times> bool) list option) option" where
  "policy_list_at = pointer_val policy_lists policy_list_val"

definition policy_list_cells :: "Heap \<Rightarrow> addr option \<Rightarrow> addr set" where
  "policy_list_cells = pointer_refs policy_lists policy_list_refs"

lemma instance_object_copier:
  assumes "apimachinery_copies cp"
  shows "deep_copier (OCIInstance_DeepCopy cp) instance_at instance_cells"
  unfolding OCIInstance_DeepCopy_def instance_at_def instance_cells_def
  by (intro cell_copier.pointer_copier cell_copier.intro instance_copier assms store.intro)
    (auto simp: same_on_def same_at_def)

lemma instance_list_object_copier:
  assumes "apimachinery_copies cp"
  shows "deep_copier (OCIInstanceList_DeepCopy cp) instance_list_at instance_list_cells"
  unfolding OCIInstanceList_DeepCopy_def instance_list_at_def instance_list_cells_def
  by (intro cell_copier.pointer_copier cell_copier.intro instance_list_copier assms store.intro)
    (auto simp: same_on_def same_at_def)

lemma policy_object_copier:
  assumes "apimachinery_copies cp"
  shows "deep_copier (OCISecurityPolicy_DeepCopy cp) policy_at policy_cells"
  unfolding OCISecurityPolicy_DeepCopy_def policy_at_def policy_cells_def
  by (intro cell_copier.pointer_copier cell_copier.intro policy_copier assms store.intro)
    (auto simp: same_on_def same_at_def)

lemma policy_list_object_copier:
  assumes "apimachinery_copies cp"
  shows "deep_copier (OCISecurityPolicyList_DeepCopy cp) policy_list_at policy_list_cells"
  unfolding OCISecurityPolicyList_DeepCopy_def policy_list_at_def policy_list_cells_def
  by (intro cell_copier.pointer_copier cell_copier.intro policy_list_copier assms store.intro)
    (auto simp: same_on_def same_at_def)

section \<open>A concrete heap\<close>

text \<open>A deep copy of \<open>ObjectMeta\<close> that keeps apimachinery's promise.\<close>

definition copyMeta :: "MetaCell \<Rightarrow> (Heap, MetaCell) state" where
  "copyMeta x = do {
     t \<leftarrow> copyPointer times times_update 0 State_Monad.return (m_DeletionTimestamp x);
     f \<leftarrow> copySlice string_arrays string_arrays_update '''' State_Monad.return (m_Finalizers x);
     State_Monad.return (x\<lparr>m_DeletionTimestamp := t, m_Finalizers := f\<rparr>)
   }"

definition plain_copiers :: Copiers where
  "plain_copiers = \<lparr>CopyObjectMeta = copyMeta, CopyListMeta = (\<lambda>m. m), CopyCondition = (\<lambda>c. c)\<rparr>"

lemma plain_copiers_copy: "apimachinery_copies plain_copiers"
proof -
  have "deep_copier copyMeta meta_val meta_refs"
    by (rule copier_field [OF copier_pair [OF time_cell.pointer_copier string_array.slice_copier],
          where sel = "\<lambda>x. (m_DeletionTimestamp x, m_Finalizers x)"
            and upd = "\<lambda>x t. x\<lparr>m_DeletionTimestamp := fst t, m_Finalizers := snd t\<rparr>"])
      (simp_all add: copyMeta_def copyPair_def meta_val_def meta_refs_def)
  thus ?thesis by (simp add: apimachinery_copies_def plain_copiers_def)
qed

text \<open>
  An instance at address 0 with its memory size at 1 and its finalizers at 2; a list at 3 whose one
  item, in the array at 4, is that instance; a list of policies at 5 whose one item, in the array at 6,
  has one rule, in the array at 7, with a port at 8.
\<close>

definition demo_instance :: InstanceCell where
  "demo_instance = zeroInstance
     \<lparr>i_ObjectMeta := zeroMeta\<lparr>m_Name := ''vm'', m_Finalizers := Some 2\<rparr>,
      i_Spec := zeroInstanceSpec\<lparr>i_MemoryInGBs := Some 1\<rparr>\<rparr>"

definition demo_policy :: PolicyCell where
  "demo_policy = zeroPolicy\<lparr>p_Spec := zeroPolicySpec\<lparr>p_Rules := Some 7\<rparr>\<rparr>"

definition demo_heap :: Heap where
  "demo_heap = \<lparr>next_addr = 9, strings = (\<lambda>a. ''16''), int32s = (\<lambda>a. 22), times = (\<lambda>a. 0),
     string_arrays = (\<lambda>a. [''finalizer'']), tag_maps = (\<lambda>a. DAList.empty),
     condition_arrays = (\<lambda>a. []), rules = (\<lambda>a. zeroRule),
     rule_arrays = (\<lambda>a. [zeroRule\<lparr>r_MinPort := Some 8\<rparr>]),
     instance_specs = (\<lambda>a. zeroInstanceSpec), instance_statuses = (\<lambda>a. zeroInstanceStatus),
     instances = (\<lambda>a. demo_instance), instance_arrays = (\<lambda>a. [demo_instance]),
     instance_lists = (\<lambda>a. zeroList\<lparr>l_Items := Some 4\<rparr>),
     policy_specs = (\<lambda>a. zeroPolicySpec), policy_statuses = (\<lambda>a. zeroPolicyStatus),
     policies = (\<lambda>a. demo_policy), policy_arrays = (\<lambda>a. [demo_policy]),
     policy_lists = (\<lambda>a. zeroList\<lparr>l_Items := Some 6\<rparr>)\<rparr>"

lemmas zero_defs =
  zeroMeta_def zeroCondition_def zeroRule_def zeroInstanceSpec_def zeroInstanceStatus_def
  zeroPolicySpec_def zeroPolicyStatus_def zeroTypeMeta_def zeroInstance_def zeroPolicy_def zeroList_def

lemmas cell_defs =
  pointer_val_def pointer_refs_def slice_val_def slice_refs_def map_val_def map_refs_def
  meta_val_def meta_refs_def conditions_val_def conditions_refs_def string_val_def string_refs_def
  int32_val_def int32_refs_def rule_val_def rule_refs_def
  instance_spec_val_def instance_spec_refs_def instance_status_val_def instance_status_refs_def
  instance_val_def instance_refs_def policy_spec_val_def policy_spec_refs_def
  policy_status_val_def policy_status_refs_def policy_val_def policy_refs_def
  instance_list_val_def instance_list_refs_def policy_list_val_def policy_list_refs_def
  instance_at_def instance_cells_def instance_list_at_def instance_list_cells_def
  policy_list_at_def policy_list_cells_def

lemma demo_facts:
  "instance_cells demo_heap (Some 0) = {0, 1, 2}"
  "instance_list_cells demo_heap (Some 3) = {1, 2, 3, 4}"
  "policy_list_cells demo_heap (Some 5) = {5, 6, 7, 8}"
  "allocated demo_heap = {..<9}"
  "map_option (\<lambda>x. MemoryInGBs (InstanceTypes.Spec x)) (instance_at demo_heap (Some 0)) = Some (Some ''16'')"
  by (auto simp: demo_heap_def demo_instance_def demo_policy_def zero_defs cell_defs allocated_def)

section \<open>Properties\<close>

text \<open>C25: A deep copy of an OCIInstance has the value of the original, is made of new cells only, none of which the original reaches, and
  leaves every cell that was there as it was. A nil pointer gives a nil pointer. It takes what is
  documented of the copies of ObjectMeta and Condition, and an original without dangling pointers.\<close>
theorem instance_deep_copy:
  assumes "apimachinery_copies cp" and "instance_cells h p \<subseteq> allocated h"
  shows "post (OCIInstance_DeepCopy cp p) (\<lambda>q h'. instance_at h' q = instance_at h p \<and>
     instance_cells h' q \<inter> allocated h = {} \<and> instance_cells h' q \<inter> instance_cells h' p = {} \<and>
     same_on (allocated h) h h') h"
proof (rule post_mono [OF deep_copier.copies [OF instance_object_copier [OF assms(1)] assms(2)]])
  fix q h'
  assume c: "copied instance_at instance_cells p h q h'"
  from deep_copier.frame_extends [OF instance_object_copier [OF assms(1)] copiedD(1) [OF c] assms(2)]
  show "instance_at h' q = instance_at h p \<and> instance_cells h' q \<inter> allocated h = {} \<and>
     instance_cells h' q \<inter> instance_cells h' p = {} \<and> same_on (allocated h) h h'"
    using c assms(2) by (auto simp: copied_def extends_def)
qed

theorem instance_deep_copy_witness:
  "post (OCIInstance_DeepCopy plain_copiers (Some 0)) (\<lambda>q h'.
     map_option (\<lambda>x. MemoryInGBs (InstanceTypes.Spec x)) (instance_at h' q) = Some (Some ''16'') \<and>
     instance_cells h' q \<inter> {..<9} = {}) demo_heap"
  by (rule post_mono [OF instance_deep_copy [OF plain_copiers_copy]])
    (auto simp: demo_facts)

text \<open>C26: After a deep copy of a list of policies, original and copy live apart, however deep the write
  goes (an item, one of its rules, a port, a tag): whatever is written later to cells that did not
  exist before the copy leaves the original's value as it was, and whatever is written to cells that
  did, leaves the copy's.\<close>
theorem policy_list_deep_copy_separate:
  assumes "apimachinery_copies cp" and "policy_list_cells h p \<subseteq> allocated h"
  shows "post (OCISecurityPolicyList_DeepCopy cp p) (\<lambda>q h'. \<forall>h''.
     (same_on (allocated h) h' h'' \<longrightarrow> policy_list_at h'' p = policy_list_at h p) \<and>
     (same_on (- allocated h) h' h'' \<longrightarrow> policy_list_at h'' q = policy_list_at h p)) h"
  by (rule deep_copier.separate [OF policy_list_object_copier [OF assms(1)] assms(2)])

text \<open>The port of the original rule is overwritten after the copy.\<close>

theorem policy_list_deep_copy_separate_witness:
  "post (OCISecurityPolicyList_DeepCopy plain_copiers (Some 5)) (\<lambda>q h'.
     policy_list_at (int32s_update (\<lambda>f. f(8 := 80)) h') q = policy_list_at demo_heap (Some 5)) demo_heap"
proof (rule post_mono [OF policy_list_deep_copy_separate [OF plain_copiers_copy, of demo_heap "Some 5"]])
  show "policy_list_cells demo_heap (Some 5) \<subseteq> allocated demo_heap" by (auto simp: demo_facts)
  fix q h'
  assume a: "\<forall>h''. (same_on (allocated demo_heap) h' h'' \<longrightarrow>
      policy_list_at h'' (Some 5) = policy_list_at demo_heap (Some 5)) \<and>
    (same_on (- allocated demo_heap) h' h'' \<longrightarrow>
      policy_list_at h'' q = policy_list_at demo_heap (Some 5))"
  have "same_on (- allocated demo_heap) h' (int32s_update (\<lambda>f. f(8 := 80)) h')"
    by (auto simp: same_on_def same_at_def demo_facts)
  with a show "policy_list_at (int32s_update (\<lambda>f. f(8 := 80)) h') q =
      policy_list_at demo_heap (Some 5)"
    by blast
qed

text \<open>DeepCopyObject of a nil list pointer is the nil runtime.Object, not an interface that holds a
  nil pointer, and touches no memory; of any other it is an OCIInstanceList at a new address with the
  original's value.\<close>
theorem list_deep_copy_object:
  assumes "apimachinery_copies cp" and "instance_list_cells h p \<subseteq> allocated h"
  shows "post (OCIInstanceList_DeepCopyObject cp p) (\<lambda>r h'. case p of
       None \<Rightarrow> r = None \<and> h' = h
     | Some a \<Rightarrow> \<exists>q. r = Some (InstanceListObject (Some q)) \<and> q \<notin> allocated h \<and>
         instance_list_at h' (Some q) = instance_list_at h p) h"
proof (cases p)
  case None
  thus ?thesis
    by (simp add: OCIInstanceList_DeepCopyObject_def OCIInstanceList_DeepCopy_def copyPointer_def
        asObject_def)
next
  case (Some a)
  show ?thesis
    unfolding OCIInstanceList_DeepCopyObject_def post_bind post_return
  proof (rule post_mono
      [OF deep_copier.copies [OF instance_list_object_copier [OF assms(1)] assms(2)]])
    fix q h'
    assume c: "copied instance_list_at instance_list_cells p h q h'"
    have "q \<noteq> None" using copiedD(2) [OF c] Some by (cases q) (auto simp: cell_defs)
    thus "case p of None \<Rightarrow> asObject InstanceListObject q = None \<and> h' = h
      | Some a \<Rightarrow> \<exists>r. asObject InstanceListObject q = Some (InstanceListObject (Some r)) \<and>
          r \<notin> allocated h \<and> instance_list_at h' (Some r) = instance_list_at h p"
      using copiedD(2,4) [OF c] Some
      by (auto simp: asObject_def instance_list_cells_def pointer_refs_def)
  qed
qed

theorem list_deep_copy_object_witness:
  "post (OCIInstanceList_DeepCopyObject plain_copiers (Some 3)) (\<lambda>r h'.
     \<exists>q. r = Some (InstanceListObject (Some q)) \<and> 9 \<le> q) demo_heap"
  by (rule post_mono [OF list_deep_copy_object [OF plain_copiers_copy, of demo_heap "Some 3"]])
    (auto simp: demo_facts)

end
