(* ===== verification/TestUtils.thy ===== *)
theory TestUtils
  imports Prelude
begin

text \<open>
  \<open>test/utils/utils.go\<close>, what the end-to-end tests share: text functions, and functions that run external
  commands. The functions of the \<open>strings\<close> package and the line scanner of \<open>bufio\<close> are Go's, written out;
  files, directories, environment and commands are parameters. Output to \<open>GinkgoWriter\<close> is left out.
\<close>

section \<open>Go's strings\<close>

text \<open>\<open>strings.Index(s, sep)\<close>, with \<open>None\<close> for -1.\<close>

fun Index :: "string \<Rightarrow> string \<Rightarrow> nat option" where
  "Index s sep = (if take (length sep) s = sep then Some 0
     else case s of [] \<Rightarrow> None | c # cs \<Rightarrow> map_option Suc (Index cs sep))"

declare Index.simps [simp del]

definition Contains :: "string \<Rightarrow> string \<Rightarrow> bool" where
  "Contains s sep \<longleftrightarrow> Index s sep \<noteq> None"

text \<open>\<open>strings.ReplaceAll\<close> for a text that is not empty.\<close>

function ReplaceAll :: "string \<Rightarrow> string \<Rightarrow> string \<Rightarrow> string" where
  "ReplaceAll s old new = (if old = [] \<or> s = [] then s
     else if take (length old) s = old then new @ ReplaceAll (drop (length old) s) old new
     else hd s # ReplaceAll (tl s) old new)"
  by pat_completeness auto
termination by (relation "measure (\<lambda>(s, old, new). length s)") auto

definition newline :: char where "newline = CHR 0x0A"

text \<open>\<open>strings.SplitSeq(s, "\n")\<close>: one part more than there are line ends.\<close>

fun splitLines :: "string \<Rightarrow> string list" where
  "splitLines [] = [[]]"
| "splitLines (c # cs) = (if c = newline then [] # splitLines cs
     else case splitLines cs of [] \<Rightarrow> [[c]] | l # ls \<Rightarrow> (c # l) # ls)"

text \<open>\<open>strings.TrimPrefix\<close>\<close>

definition TrimPrefix :: "string \<Rightarrow> string \<Rightarrow> string" where
  "TrimPrefix s p = (if take (length p) s = p then drop (length p) s else s)"

section \<open>Go's line scanner\<close>

text \<open>
  The tokens of a \<open>bufio.Scanner\<close> over a text: lines without their end, a carriage return before it
  dropped, no empty line after the last line end. The scanner stops at a line that does not fit its buffer of
  64 KB.
\<close>

definition MaxScanTokenSize :: nat where "MaxScanTokenSize = 64 * 1024"

definition dropCR :: "string \<Rightarrow> string" where
  "dropCR l = (if l \<noteq> [] \<and> last l = CHR 0x0D then butlast l else l)"

function scanLines :: "string \<Rightarrow> string list" where
  "scanLines s = (if s = [] then []
     else let l = takeWhile (\<lambda>c. c \<noteq> newline) s in
       if MaxScanTokenSize \<le> length l then []
       else dropCR l # scanLines (drop (Suc (length l)) s))"
  by pat_completeness auto
termination by (relation "measure length") auto

declare ReplaceAll.simps [simp del] scanLines.simps [simp del]

section \<open>Text functions of the tests\<close>

text \<open>\<open>GetNonEmptyLines\<close>: the loop appends to a slice that starts out nil.\<close>

fun nonEmptyLoop :: "string list \<Rightarrow> string slice \<Rightarrow> string slice" where
  "nonEmptyLoop [] res = res"
| "nonEmptyLoop (element # elements) res =
     nonEmptyLoop elements (if element \<noteq> '''' then append_slice res element else res)"

definition GetNonEmptyLines :: "string \<Rightarrow> string slice" where
  "GetNonEmptyLines output = nonEmptyLoop (splitLines output) None"

text \<open>The files; the write replaces the content of the file.\<close>

record 'w Files =
  ReadFile :: "string \<Rightarrow> 'w \<Rightarrow> (go_error + string) \<times> 'w"
  WriteFile :: "string \<Rightarrow> string \<Rightarrow> 'w \<Rightarrow> go_error option \<times> 'w"

datatype UncommentError = ReadFailed string go_error | TargetNotFound string | WriteFailed string go_error

text \<open>The \<open>for\<close> loop over the lines scanned: \<open>l\<close> is the line at hand.\<close>

fun uncommentLoop :: "string \<Rightarrow> string \<Rightarrow> string list \<Rightarrow> string \<Rightarrow> string" where
  "uncommentLoop prefix l [] out = out @ TrimPrefix l prefix"
| "uncommentLoop prefix l (l' # ls) out = uncommentLoop prefix l' ls (out @ TrimPrefix l prefix @ [newline])"

definition UncommentCode ::
    "'w Files \<Rightarrow> string \<Rightarrow> string \<Rightarrow> string \<Rightarrow> ('w, UncommentError option) state" where
  "UncommentCode fs filename target prefix = do {
     r \<leftarrow> State (ReadFile fs filename);
     case r of
       Inl err \<Rightarrow> State_Monad.return (Some (ReadFailed filename err))
     | Inr content \<Rightarrow>
         (case Index content target of
            None \<Rightarrow> State_Monad.return (Some (TargetNotFound target))
          | Some idx \<Rightarrow>
              (case scanLines target of
                 [] \<Rightarrow> State_Monad.return None
               | l # ls \<Rightarrow> do {
                   let out = uncommentLoop prefix l ls (take idx content);
                   err \<leftarrow> State (WriteFile fs filename (out @ drop (idx + length target) content));
                   State_Monad.return (map_option (WriteFailed filename) err)
                 }))
   }"

section \<open>External commands\<close>

text \<open>
  The process: working directory, environment, and commands, which return their output and an error.
  (A working directory that cannot be read is returned with the error, as \<open>os.Getwd\<close> does.)
\<close>

record 'w Shell =
  Getwd :: "'w \<Rightarrow> (string \<times> go_error option) \<times> 'w"
  Chdir :: "string \<Rightarrow> 'w \<Rightarrow> go_error option \<times> 'w"
  Environ :: "'w \<Rightarrow> string list \<times> 'w"
  LookupEnv :: "string \<Rightarrow> 'w \<Rightarrow> string option \<times> 'w"
  CombinedOutput :: "string list \<Rightarrow> string \<Rightarrow> string list \<Rightarrow> 'w \<Rightarrow> (string \<times> go_error option) \<times> 'w"

text \<open>The error of \<open>Run\<close>: the command as it was printed, its output, and the error it wraps.\<close>

datatype RunError = RunFailed string string go_error

fun joinWith :: "string \<Rightarrow> string list \<Rightarrow> string" where
  "joinWith sep [] = []"
| "joinWith sep [l] = l"
| "joinWith sep (l # l' # ls) = l @ sep @ joinWith sep (l' # ls)"

definition GetProjectDir :: "'w Shell \<Rightarrow> ('w, string \<times> go_error option) state" where
  "GetProjectDir sh = do {
     (wd, err) \<leftarrow> State (Getwd sh);
     State_Monad.return (case err of
       Some e \<Rightarrow> (wd, Some (Wrapped ''failed to get current working directory: '' e))
     | None \<Rightarrow> (ReplaceAll wd ''/test/e2e'' '''', None))
   }"

definition Run :: "'w Shell \<Rightarrow> string list \<Rightarrow> ('w, string \<times> RunError option) state" where
  "Run sh args = do {
     (dir, _) \<leftarrow> GetProjectDir sh;
     _ \<leftarrow> State (Chdir sh dir);
     env \<leftarrow> State (Environ sh);
     (output, err) \<leftarrow> State (CombinedOutput sh args dir (env @ [''GO111MODULE=on'']));
     State_Monad.return (output, map_option (RunFailed (joinWith '' '' args) output) err)
   }"

definition certmanagerURL :: string where
  "certmanagerURL = ''https://github.com/cert-manager/cert-manager/releases/download/'' @ ''v1.20.0'' @ ''/cert-manager.yaml''"

text \<open>Errors are only printed.\<close>

fun deleteLeases :: "'w Shell \<Rightarrow> string list \<Rightarrow> ('w, unit) state" where
  "deleteLeases sh [] = State_Monad.return ()"
| "deleteLeases sh (lease # leases) = do {
     _ \<leftarrow> Run sh [''kubectl'', ''delete'', ''lease'', lease, ''-n'', ''kube-system'', ''--ignore-not-found'',
       ''--force'', ''--grace-period=0''];
     deleteLeases sh leases
   }"

definition UninstallCertManager :: "'w Shell \<Rightarrow> ('w, unit) state" where
  "UninstallCertManager sh = do {
     _ \<leftarrow> Run sh [''kubectl'', ''delete'', ''-f'', certmanagerURL];
     deleteLeases sh [''cert-manager-cainjector-leader-election'', ''cert-manager-controller'']
   }"

definition InstallCertManager :: "'w Shell \<Rightarrow> ('w, RunError option) state" where
  "InstallCertManager sh = do {
     (_, err) \<leftarrow> Run sh [''kubectl'', ''apply'', ''-f'', certmanagerURL];
     case err of
       Some e \<Rightarrow> State_Monad.return (Some e)
     | None \<Rightarrow> do {
         (_, err) \<leftarrow> Run sh [''kubectl'', ''wait'', ''deployment.apps/cert-manager-webhook'', ''--for'',
           ''condition=Available'', ''--namespace'', ''cert-manager'', ''--timeout'', ''5m''];
         State_Monad.return err
       }
   }"

definition certManagerCRDs :: "string list" where
  "certManagerCRDs = [''certificates.cert-manager.io'', ''issuers.cert-manager.io'', ''clusterissuers.cert-manager.io'',
     ''certificaterequests.cert-manager.io'', ''orders.acme.cert-manager.io'', ''challenges.acme.cert-manager.io'']"

definition IsCertManagerCRDsInstalled :: "'w Shell \<Rightarrow> ('w, bool) state" where
  "IsCertManagerCRDsInstalled sh = do {
     (output, err) \<leftarrow> Run sh [''kubectl'', ''get'', ''crds''];
     State_Monad.return (err = None \<and>
       list_ex (\<lambda>crd. list_ex (\<lambda>line. Contains line crd) (elems (GetNonEmptyLines output))) certManagerCRDs)
   }"

definition LoadImageToKindClusterWithName :: "'w Shell \<Rightarrow> string \<Rightarrow> ('w, RunError option) state" where
  "LoadImageToKindClusterWithName sh name = do {
     v \<leftarrow> State (LookupEnv sh ''KIND_CLUSTER'');
     let cluster = (case v of Some v \<Rightarrow> v | None \<Rightarrow> ''kind'');
     v \<leftarrow> State (LookupEnv sh ''KIND'');
     let kindBinary = (case v of Some v \<Rightarrow> v | None \<Rightarrow> ''kind'');
     (_, err) \<leftarrow> Run sh [kindBinary, ''load'', ''docker-image'', name, ''--name'', cluster];
     State_Monad.return err
   }"

section \<open>Lines\<close>

abbreviation joinLines :: "string list \<Rightarrow> string" where
  "joinLines \<equiv> joinWith [newline]"

lemma nonEmptyLoop_elems: "elems (nonEmptyLoop es res) = elems res @ filter (\<lambda>l. l \<noteq> []) es"
  by (induction es arbitrary: res) auto

text \<open>A line that the scanner gives back as it is.\<close>

definition plain_line :: "string \<Rightarrow> bool" where
  "plain_line l \<longleftrightarrow> newline \<notin> set l \<and> length l < MaxScanTokenSize \<and> dropCR l = l"

lemma plain_takeWhile [simp]:
  "plain_line l \<Longrightarrow> takeWhile (\<lambda>c. c \<noteq> newline) l = l"
  "plain_line l \<Longrightarrow> takeWhile (\<lambda>c. c \<noteq> newline) (l @ newline # rest) = l"
  by (auto simp: plain_line_def takeWhile_append intro!: takeWhile_eq_all_conv [THEN iffD2])

lemma scan_last: "plain_line l \<Longrightarrow> l \<noteq> [] \<Longrightarrow> scanLines l = [l]"
  using scanLines.simps [of l] scanLines.simps [of "[]"] by (auto simp: plain_line_def Let_def)

lemma scan_line: "plain_line l \<Longrightarrow> scanLines (l @ newline # rest) = l # scanLines rest"
  using scanLines.simps [of "l @ newline # rest"] by (auto simp: plain_line_def Let_def)

lemma scan_joined:
  "list_all plain_line ls \<Longrightarrow> ls \<noteq> [] \<Longrightarrow> last ls \<noteq> [] \<Longrightarrow> scanLines (joinLines ls) = ls"
  by (induction "[newline]" ls rule: joinWith.induct) (simp_all add: scan_last scan_line)

lemma scan_joined_newline:
  "list_all plain_line ls \<Longrightarrow> ls \<noteq> [] \<Longrightarrow> scanLines (joinLines ls @ [newline]) = ls"
  by (induction "[newline]" ls rule: joinWith.induct)
    (simp_all add: scan_line, simp add: scanLines.simps)

lemma uncommentLoop_join:
  "uncommentLoop prefix l ls out = out @ joinLines (map (\<lambda>l. TrimPrefix l prefix) (l # ls))"
  by (induction prefix l ls out rule: uncommentLoop.induct) simp_all

lemma trim_prefixed [simp]: "map (\<lambda>l. TrimPrefix l prefix) (map ((@) prefix) ls) = ls"
  by (simp add: comp_def TrimPrefix_def)

section \<open>Properties\<close>

text \<open>C40: \<open>UncommentCode\<close> does what it says. When the target is the lines \<open>ls\<close> with the comment prefix before
  each, the file written is the file read with the first occurrence of the target replaced by \<open>ls\<close>, and
  only the error of the write is returned. A line end after the last line of the target is dropped with it.\<close>
theorem uncomment_code:
  assumes "run_state (State (ReadFile fs f)) w = (Inr content, w')"
    and "Index content target = Some (length pre)" "content = pre @ target @ rest"
    and "list_all (\<lambda>l. plain_line (prefix @ l)) ls" "ls \<noteq> []"
    and "target = joinLines (map ((@) prefix) ls) \<and> prefix @ last ls \<noteq> [] \<or>
      target = joinLines (map ((@) prefix) ls) @ [newline]"
  shows "run_state (UncommentCode fs f target prefix) w =
    (case WriteFile fs f (pre @ joinLines ls @ rest) w' of (err, v) \<Rightarrow> (map_option (WriteFailed f) err, v))"
proof -
  have plain: "list_all plain_line (map ((@) prefix) ls)" using assms(4) by (simp add: list.pred_map comp_def)
  have scan: "scanLines target = map ((@) prefix) ls"
    using assms(5,6) scan_joined [OF plain] scan_joined_newline [OF plain] by (auto simp: last_map)
  obtain l ls' where ls: "ls = l # ls'" using assms(5) by (cases ls) auto
  have "uncommentLoop prefix (prefix @ l) (map ((@) prefix) ls') pre = pre @ joinLines ls"
    using trim_prefixed [of prefix ls] unfolding uncommentLoop_join ls by (simp del: trim_prefixed)
  then show ?thesis
    using assms(1-3) scan ls by (simp add: UncommentCode_def Let_def split: prod.splits)
qed

section \<open>On a file\<close>

text \<open>A disk with one file.\<close>

definition one_file :: "string Files" where
  "one_file = \<lparr>ReadFile = (\<lambda>f w. (Inr w, w)), WriteFile = (\<lambda>f c w. (None, c))\<rparr>"

lemmas index_code = Index.simps newline_def

lemma plain_demo: "plain_line ''# a''" "plain_line ''# b''"
  by (simp_all add: plain_line_def newline_def MaxScanTokenSize_def dropCR_def)

theorem uncomment_code_witness:
  "run_state (UncommentCode one_file ''file'' (joinLines [''# a'', ''# b'']) ''# '') (joinLines [''x'', ''# a'', ''# b'', ''y'']) =
     (None, joinLines [''x'', ''a'', ''b'', ''y''])"
  using uncomment_code [of one_file "''file''" "joinLines [''x'', ''# a'', ''# b'', ''y'']" _ _
      "joinLines [''# a'', ''# b'']" "''x'' @ [newline]" "[newline] @ ''y''" "''# ''" "[''a'', ''b'']"]
  by (simp add: one_file_def plain_demo, simp add: index_code)

text \<open>\<open>UncommentCode\<close> loses a line end. When the target ends with one, as a block of whole lines does, the line
  after the block is glued to its last line: uncommenting the line \<open># a\<close>, line end included, between the
  lines \<open>x\<close> and \<open>y\<close> leaves \<open>x\<close> and \<open>ay\<close>.\<close>
theorem uncommented_line_is_glued:
  "run_state (UncommentCode one_file f (''# a'' @ [newline]) ''# '') (joinLines [''x'', ''# a'', ''y'']) =
     (None, joinLines [''x'', ''ay''])"
proof -
  have "scanLines (''# a'' @ [newline]) = [''# a'']"
    using scan_joined_newline [of "[''# a'']"] plain_demo by simp
  then show ?thesis
    by (simp add: UncommentCode_def one_file_def) (simp add: index_code TrimPrefix_def)
qed

end
