(* ===== verification/UnitTests.thy ===== *)
theory UnitTests
  imports InstanceProperties PolicyProperties "HOL-Library.Sublist"
begin

text \<open>
  The scenarios of the repository's unit tests, run on the model: \<open>ociinstance_controller_oci_test.go\<close>,
  \<open>ocisecuritypolicy_controller_oci_test.go\<close>, and the cases of \<open>ociinstance_controller_test.go\<close> and
  \<open>ocisecuritypolicy_controller_test.go\<close>. The test environment's API server is the one of \<open>Fixtures\<close>, the mocks
  are those of \<open>OciClients\<close>; what a test captures in a mock function is read off the events of the run. The
  lemmas carry the names of the tests. They say that the model does what the tests expect of the code.
\<close>

section \<open>The bench\<close>

type_synonym InstBench = "(OCIInstance, unit) World"
type_synonym PolBench = "(OCISecurityPolicy, unit) World"

definition test_meta :: "string \<Rightarrow> string \<Rightarrow> ObjectMeta" where
  "test_meta name namespace = \<lparr>Name = name, Namespace = namespace, ResourceVersion = '''', Generation = 0,
     DeletionTimestamp = None, Finalizers = []\<rparr>"

definition newTestOCIInstance :: "string \<Rightarrow> string \<Rightarrow> OCIInstance" where
  "newTestOCIInstance name namespace =
     \<lparr>InstTypeMeta = \<lparr>Kind = '''', APIVersion = ''''\<rparr>, InstMeta = test_meta name namespace,
      OCIInstance.Spec = \<lparr>OCIInstanceSpec.CompartmentID = ''ocid1.compartment.oc1..test'', DisplayName = ''test-instance'',
        Shape = ''VM.Standard.E4.Flex'', ImageID = ''ocid1.image.oc1..test'', AvailabilityDomain = ''AD-1'',
        SubnetID = ''ocid1.subnet.oc1..test'', OCPUs = None, MemoryInGBs = None, OCIInstanceSpec.FreeformTags = None\<rparr>,
      Status = \<lparr>InstanceID = '''', Phase = '''', PrivateIP = '''', PublicIP = '''', FailureReason = '''',
        ObservedGeneration = 0, Conditions = None\<rparr>\<rparr>"

definition newTestOCISecurityPolicy :: "string \<Rightarrow> string \<Rightarrow> OCISecurityPolicy" where
  "newTestOCISecurityPolicy name namespace =
     \<lparr>PolTypeMeta = \<lparr>Kind = '''', APIVersion = ''''\<rparr>, PolMeta = test_meta name namespace,
      Spec = \<lparr>CompartmentID = ''ocid1.compartment.oc1..test'', VcnID = ''ocid1.vcn.oc1..test'',
        DisplayName = ''test-security-policy'',
        Rules = [\<lparr>Description = ''Allow HTTPS inbound'', Direction = SecurityRuleDirectionIngress, Protocol = ''6'',
          Source = ''0.0.0.0/0'', Destination = '''', MinPort = Some 443, MaxPort = Some 443\<rparr>],
        FreeformTags = None\<rparr>,
      Status = \<lparr>SecurityListID = '''', Phase = '''', FailureReason = '''', ObservedGeneration = 0, Conditions = None\<rparr>\<rparr>"

text \<open>What the API server adds to a created object, and what the tests prepare before they reconcile.\<close>

definition created_meta :: "nat \<Rightarrow> string list \<Rightarrow> Time option \<Rightarrow> ObjectMeta \<Rightarrow> ObjectMeta" where
  "created_meta n fins deleted m = \<lparr>Name = Name m, Namespace = Namespace m, ResourceVersion = version_text n,
     Generation = 1, DeletionTimestamp = deleted, Finalizers = fins\<rparr>"

definition test_instance :: "nat \<Rightarrow> string list \<Rightarrow> Time option \<Rightarrow> string \<Rightarrow> InstancePhase \<Rightarrow> OCIInstance \<Rightarrow> OCIInstance" where
  "test_instance n fins deleted iid phase x =
     \<lparr>InstTypeMeta = InstTypeMeta x, InstMeta = created_meta n fins deleted (InstMeta x), OCIInstance.Spec = OCIInstance.Spec x,
      Status = \<lparr>InstanceID = iid, Phase = phase, PrivateIP = '''', PublicIP = '''', FailureReason = '''',
        ObservedGeneration = 0, Conditions = None\<rparr>\<rparr>"

definition test_policy :: "nat \<Rightarrow> string list \<Rightarrow> Time option \<Rightarrow> string \<Rightarrow> SecurityPolicyPhase \<Rightarrow> OCISecurityPolicy \<Rightarrow> OCISecurityPolicy" where
  "test_policy n fins deleted lid phase x =
     \<lparr>PolTypeMeta = PolTypeMeta x, PolMeta = created_meta n fins deleted (PolMeta x), Spec = OCISecurityPolicy.Spec x,
      Status = \<lparr>SecurityListID = lid, Phase = phase, FailureReason = '''', ObservedGeneration = 0, Conditions = None\<rparr>\<rparr>"

definition bench :: "nat \<Rightarrow> 'r \<Rightarrow> ('r, unit) World" where
  "bench n x = \<lparr>w_object = Some x, w_version = n, w_faults = [], w_cloud = [], w_clock = 0\<rparr>"

text \<open>The test environment has no OCI configuration: the SDK constructor fails.\<close>

definition sdk_error :: go_error where "sdk_error = Opaque 1 ''did not find a proper configuration''"

definition inst_test_ext :: "InstBench InstanceExt" where
  "inst_test_ext = world_ext inst_parts (\<lambda>w. (Inl sdk_error, w))"

definition pol_test_ext :: "PolBench PolicyExt" where
  "pol_test_ext = world_ext pol_parts (\<lambda>w. (Inl sdk_error, w))"

text \<open>One reconcile with a new reconciler must succeed, and then the rest of the test must hold.\<close>

definition succeeds :: "(('w, 'r, 'o, 'c) Sys, Outcome) state \<Rightarrow> 'c option \<Rightarrow> 'w \<Rightarrow> (('r, 'o) Event list \<Rightarrow> 'w \<Rightarrow> bool) \<Rightarrow> bool" where
  "succeeds m c w rest \<longleftrightarrow> post m (\<lambda>out s. (case out of Returned r None \<Rightarrow> rest (calls s) (world s) | _ \<Rightarrow> False)) (fresh_sys w c)"

definition reconcileWithMock :: "InstBench MockComputeClient \<Rightarrow> InstBench \<Rightarrow>
    ((OCIInstance, ComputeCall) Event list \<Rightarrow> InstBench \<Rightarrow> bool) \<Rightarrow> bool" where
  "reconcileWithMock mock = succeeds (Reconcile inst_test_ext demo_request) (Some (mock_compute_client mock))"

definition reconcileOnce :: "InstBench \<Rightarrow> ((OCIInstance, ComputeCall) Event list \<Rightarrow> InstBench \<Rightarrow> bool) \<Rightarrow> bool" where
  "reconcileOnce = succeeds (Reconcile inst_test_ext demo_request) None"

definition reconcileSPWithMock :: "PolBench MockVirtualNetworkClient \<Rightarrow> PolBench \<Rightarrow>
    ((OCISecurityPolicy, VcnCall) Event list \<Rightarrow> PolBench \<Rightarrow> bool) \<Rightarrow> bool" where
  "reconcileSPWithMock mock = succeeds (ReconcilePolicy pol_test_ext demo_request) (Some (mock_vcn_client mock))"

definition reconcileSPOnce :: "PolBench \<Rightarrow> ((OCISecurityPolicy, VcnCall) Event list \<Rightarrow> PolBench \<Rightarrow> bool) \<Rightarrow> bool" where
  "reconcileSPOnce = succeeds (ReconcilePolicy pol_test_ext demo_request) None"

definition fetched :: "('r, 'l) World \<Rightarrow> ('r \<Rightarrow> bool) \<Rightarrow> bool" where
  "fetched w P \<longleftrightarrow> (case w_object w of None \<Rightarrow> False | Some x \<Rightarrow> P x)"

text \<open>The mocks: a zero mock, and answers that change nothing else.\<close>

definition inst_mock :: "InstBench MockComputeClient" where
  "inst_mock = \<lparr>LaunchInstanceFn = None, GetInstanceFn = None, TerminateInstanceFn = None\<rparr>"

definition pol_mock :: "PolBench MockVirtualNetworkClient" where
  "pol_mock = \<lparr>CreateSecurityListFn = None, GetSecurityListFn = None, DeleteSecurityListFn = None\<rparr>"

abbreviation answering :: "go_error + 'a \<Rightarrow> ('b \<Rightarrow> 'w \<Rightarrow> (go_error + 'a) \<times> 'w) option" where
  "answering r \<equiv> Some (\<lambda>req w. (r, w))"

abbreviation fakeID :: string where "fakeID \<equiv> ''ocid1.fake''"

abbreviation core_inst :: "InstanceLifecycleState \<Rightarrow> go_error + CoreInstance" where
  "core_inst l \<equiv> Inr \<lparr>InstId = Some fakeID, InstLifecycleState = l\<rparr>"

abbreviation core_list :: "SecurityListLifecycleState \<Rightarrow> go_error + SecurityList" where
  "core_list l \<equiv> Inr \<lparr>ListId = Some fakeID, ListLifecycleState = l\<rparr>"

definition out_of_capacity :: go_error where "out_of_capacity = Opaque 500 ''OCI: out of capacity''"
definition quota_exceeded :: go_error where "quota_exceeded = Opaque 500 ''OCI: quota exceeded''"

lemmas bench_defs = reconcileWithMock_def reconcileOnce_def reconcileSPWithMock_def reconcileSPOnce_def succeeds_def
  fetched_def inst_mock_def pol_mock_def test_instance_def test_policy_def bench_def inst_test_ext_def pol_test_ext_def world_defs
  newTestOCIInstance_def newTestOCISecurityPolicy_def test_meta_def created_meta_def mock_compute_client_def
  mock_vcn_client_def Mock_LaunchInstance_def Mock_GetInstance_def Mock_TerminateInstance_def
  Mock_CreateSecurityList_def Mock_GetSecurityList_def Mock_DeleteSecurityList_def inst_parts_def pol_parts_def
  instance_phase_defs policy_phase_defs inst_setter_defs pol_setter_defs

lemmas inst_test_defs = bench_defs inst_run_defs failed_and_observed_def phase_of_lifecycle_def still_provisioning_def
lemmas pol_test_defs = bench_defs pol_run_defs policy_failed_and_observed_def phase_of_list_lifecycle_def

section \<open>Instances with a mock\<close>

text \<open>The first reconcile of a new object adds the finalizer.\<close>

lemma first_reconcile:
  "reconcileWithMock mock (bench 1 (test_instance 1 [] None '''' '''' x)) rest \<longleftrightarrow>
   rest [KGet demo_request (Inr (test_instance 1 [] None '''' '''' x)),
      KUpdate (test_instance 1 [ociInstanceFinalizer] None '''' '''' x)
        (Inr (test_instance 2 [ociInstanceFinalizer] None '''' '''' x))]
     (bench 2 (test_instance 2 [ociInstanceFinalizer] None '''' '''' x))"
  by (simp add: inst_test_defs)

definition settled_instance :: "nat \<Rightarrow> string \<Rightarrow> InstancePhase \<Rightarrow> string \<Rightarrow> OCIInstance \<Rightarrow> OCIInstance" where
  "settled_instance n iid phase reason x = (test_instance n [ociInstanceFinalizer] None iid phase x)
     \<lparr>OCIInstance.Status := \<lparr>InstanceID = iid, Phase = phase, PrivateIP = '''', PublicIP = '''', FailureReason = reason,
        ObservedGeneration = 1, Conditions = None\<rparr>\<rparr>"

definition launch_requests :: "(OCIInstance, ComputeCall) Event list \<Rightarrow> LaunchInstanceDetails list" where
  "launch_requests evs = List.map_filter (\<lambda>c. case c of LaunchCall d r \<Rightarrow> Some d | _ \<Rightarrow> None) (oci_calls evs)"

abbreviation launching_mock :: "go_error + CoreInstance \<Rightarrow> InstBench MockComputeClient" where
  "launching_mock r \<equiv> inst_mock\<lparr>LaunchInstanceFn := answering r\<rparr>"

lemmas inst_settled_defs = mark_failed_def instanceFailable_def InstanceTypes.SetFailedStatus_def settled_instance_def
  launch_requests_def map_filter_simps

lemma successful_launch:
  assumes "\<And>evs w. launch_requests evs = [launchDetails (OCIInstance.Spec x)] \<Longrightarrow>
    w_object w = Some (settled_instance 4 fakeID InstancePhaseProvisioning '''' x) \<Longrightarrow> rest evs w"
  shows "reconcileWithMock (launching_mock (core_inst l)) (bench 2 (test_instance 2 [ociInstanceFinalizer] None '''' '''' x)) rest"
  by (simp add: inst_test_defs, rule assms) (simp_all add: inst_test_defs inst_settled_defs)

lemma failing_launch:
  assumes "\<And>evs w. launch_requests evs = [launchDetails (OCIInstance.Spec x)] \<Longrightarrow> w_object w =
    Some (settled_instance 4 '''' InstancePhaseFailed (''Failed to launch instance: '' @ Error err) x) \<Longrightarrow> rest evs w"
  shows "reconcileWithMock (launching_mock (Inl err)) (bench 2 (test_instance 2 [ociInstanceFinalizer] None '''' '''' x)) rest"
  by (simp add: inst_test_defs inst_settled_defs, rule assms) (simp_all add: inst_test_defs inst_settled_defs)

lemma failed_instance_is_left:
  "w_object w = Some (settled_instance n iid InstancePhaseFailed reason x) \<Longrightarrow>
   reconcileWithMock mock w rest \<longleftrightarrow> rest [KGet demo_request (Inr (settled_instance n iid InstancePhaseFailed reason x))] w"
  by (simp add: reconcileWithMock_def succeeds_def inst_run_defs failed_and_observed_def fresh_sys_def inst_test_ext_def
      world_ext_def api_client_def api_get_def settled_instance_def test_instance_def created_meta_def inst_parts_def
      instance_phase_defs)

abbreviation "new_inst \<equiv> newTestOCIInstance ''demo'' ''ns''"

abbreviation inst_created :: "OCIInstance \<Rightarrow> InstBench" where
  "inst_created x \<equiv> bench 1 (test_instance 1 [] None '''' '''' x)"

lemma should_set_InstanceID_and_phase_to_Provisioning_after_launch:
  "reconcileWithMock inst_mock (inst_created new_inst) (\<lambda>_ w1.
   reconcileWithMock (launching_mock (core_inst InstanceLifecycleStateProvisioning)) w1 (\<lambda>_ w2.
   fetched w2 (\<lambda>x. InstanceID (OCIInstance.Status x) = fakeID \<and>
     OCIInstanceStatus.Phase (OCIInstance.Status x) = InstancePhaseProvisioning)))"
  unfolding first_reconcile by (rule successful_launch) (simp add: fetched_def settled_instance_def)

lemma should_set_phase_to_Failed_with_failure_reason:
  "reconcileWithMock inst_mock (inst_created new_inst) (\<lambda>_ w1.
   reconcileWithMock (launching_mock (Inl out_of_capacity)) w1 (\<lambda>_ w2.
   fetched w2 (\<lambda>x. OCIInstanceStatus.Phase (OCIInstance.Status x) = InstancePhaseFailed \<and>
     sublist ''out of capacity'' (OCIInstanceStatus.FailureReason (OCIInstance.Status x)))))"
  unfolding first_reconcile
  by (rule failing_launch) (simp add: fetched_def settled_instance_def out_of_capacity_def sublist_Cons_right)

lemma should_not_retry_after_entering_Failed_phase:
  "reconcileWithMock inst_mock (inst_created new_inst) (\<lambda>_ w1.
   reconcileWithMock (launching_mock (Inl out_of_capacity)) w1 (\<lambda>evs2 w2.
   reconcileWithMock (launching_mock (Inl out_of_capacity)) w2 (\<lambda>evs3 w3.
   length (launch_requests evs2 @ launch_requests evs3) = 1)))"
  unfolding first_reconcile
  by (rule failing_launch, subst failed_instance_is_left) (simp_all add: launch_requests_def map_filter_simps)

text \<open>Running, Provisioning, Terminating and Terminated, and any other state.\<close>

lemma should_set_phase_when_OCI_reports_state:
  "reconcileWithMock (inst_mock\<lparr>GetInstanceFn := answering (core_inst l)\<rparr>)
     (bench 3 (test_instance 3 [ociInstanceFinalizer] None fakeID InstancePhaseProvisioning x)) (\<lambda>_ w.
   fetched w (\<lambda>x. OCIInstanceStatus.Phase (OCIInstance.Status x) = phase_of_lifecycle l))"
  by (cases l) (simp_all add: inst_test_defs)

lemma should_call_TerminateInstance_and_remove_finalizer_on_deletion:
  "reconcileWithMock (inst_mock\<lparr>TerminateInstanceFn := answering (Inr ())\<rparr>)
     (bench 4 (test_instance 4 [ociInstanceFinalizer] (Some 7) fakeID InstancePhaseRunning x)) (\<lambda>evs w.
   oci_calls evs = [TerminateCall (Some fakeID) (Inr ())] \<and> w_object w = None)"
  by (simp add: inst_test_defs)

lemma should_remove_finalizer_without_calling_TerminateInstance:
  "reconcileWithMock (inst_mock\<lparr>TerminateInstanceFn := answering (Inr ())\<rparr>)
     (bench 3 (test_instance 3 [ociInstanceFinalizer] (Some 7) '''' '''' x)) (\<lambda>evs w.
   oci_calls evs = [] \<and> w_object w = None)"
  by (simp add: inst_test_defs)

lemma should_pass_ShapeConfig_with_OCPUs_and_MemoryInGBs_to_OCI:
  "reconcileWithMock inst_mock (inst_created (new_inst\<lparr>OCIInstance.Spec :=
      (OCIInstance.Spec new_inst)\<lparr>OCPUs := Some ''2'', MemoryInGBs := Some ''16''\<rparr>\<rparr>)) (\<lambda>_ w1.
   reconcileWithMock (launching_mock (core_inst InstanceLifecycleStateProvisioning)) w1 (\<lambda>evs w2.
   \<exists>o' g. map ShapeConfig (launch_requests evs) = [Some \<lparr>Ocpus = Some o', ShapeMemoryInGBs = Some g\<rparr>] \<and>
     f32_is_nat o' 2 \<and> f32_is_nat g 16))"
  unfolding first_reconcile
  by (rule successful_launch)
    (use ParseFloat32_decimal [of 2] ParseFloat32_decimal [of 16] in
      \<open>auto simp: launchDetails_def shapeConfig_def decimal_demo split: prod.splits\<close>)

section \<open>Instances without a mock, and their validation\<close>

lemma should_add_a_finalizer_on_first_reconcile:
  "reconcileOnce (inst_created x) (\<lambda>_ w. fetched w (\<lambda>x. Finalizers (InstMeta x) = [ociInstanceFinalizer]))"
  by (simp add: inst_test_defs)

text \<open>There is no client in the test environment: the second reconcile marks the instance as failed.\<close>

lemma should_not_add_duplicate_finalizers_on_subsequent_reconciles:
  "reconcileOnce (bench 2 (test_instance 2 [ociInstanceFinalizer] None '''' '''' x)) (\<lambda>_ w.
   fetched w (\<lambda>x. count_list (Finalizers (InstMeta x)) ociInstanceFinalizer = 1))"
  by (simp add: inst_test_defs inst_settled_defs)

lemma should_reject_an_empty_or_long_field:
  assumes "s = '''' \<or> length s = 256"
  shows "\<not> instance_spec_ok (sp\<lparr>OCIInstanceSpec.DisplayName := s\<rparr>)" "\<not> instance_spec_ok (sp\<lparr>OCIInstanceSpec.CompartmentID := s\<rparr>)"
    "\<not> instance_spec_ok (sp\<lparr>ImageID := s\<rparr>)" "\<not> instance_spec_ok (sp\<lparr>SubnetID := s\<rparr>)"
    "\<not> instance_spec_ok (sp\<lparr>AvailabilityDomain := s\<rparr>)" "\<not> instance_spec_ok (sp\<lparr>Shape := s\<rparr>)"
  using assms by (auto simp: instance_spec_ok_def InstanceTypes.id_field_ok_def)

lemma should_accept_a_resource_with_all_required_fields:
  "instance_spec_ok (OCIInstance.Spec new_inst)"
  "instance_spec_ok ((OCIInstance.Spec new_inst)\<lparr>OCIInstanceSpec.FreeformTags := Some [(''env'', ''test''), (''team'', ''nvcne'')]\<rparr>)"
  by (simp_all add: instance_spec_ok_def InstanceTypes.id_field_ok_def newTestOCIInstance_def)

section \<open>Policies with a mock\<close>

lemma first_policy_reconcile:
  "reconcileSPWithMock mock (bench 1 (test_policy 1 [] None '''' '''' x)) rest \<longleftrightarrow>
   rest [KGet demo_request (Inr (test_policy 1 [] None '''' '''' x)),
      KUpdate (test_policy 1 [ociSecurityPolicyFinalizer] None '''' '''' x)
        (Inr (test_policy 2 [ociSecurityPolicyFinalizer] None '''' '''' x))]
     (bench 2 (test_policy 2 [ociSecurityPolicyFinalizer] None '''' '''' x))"
  by (simp add: pol_test_defs)

definition settled_policy :: "nat \<Rightarrow> string \<Rightarrow> SecurityPolicyPhase \<Rightarrow> string \<Rightarrow> OCISecurityPolicy \<Rightarrow> OCISecurityPolicy" where
  "settled_policy n lid phase reason x = (test_policy n [ociSecurityPolicyFinalizer] None lid phase x)
     \<lparr>Status := \<lparr>SecurityListID = lid, Phase = phase, FailureReason = reason, ObservedGeneration = 1, Conditions = None\<rparr>\<rparr>"

definition create_requests :: "(OCISecurityPolicy, VcnCall) Event list \<Rightarrow> CreateSecurityListDetails list" where
  "create_requests evs = List.map_filter (\<lambda>c. case c of CreateListCall d r \<Rightarrow> Some d | _ \<Rightarrow> None) (oci_calls evs)"

abbreviation creating_mock :: "go_error + SecurityList \<Rightarrow> PolBench MockVirtualNetworkClient" where
  "creating_mock r \<equiv> pol_mock\<lparr>CreateSecurityListFn := answering r\<rparr>"

lemmas pol_settled_defs = mark_failed_def policyFailable_def PolicyTypes.SetFailedStatus_def settled_policy_def
  create_requests_def map_filter_simps

lemma successful_creation:
  assumes "\<And>evs w. create_requests evs = [createListDetails (OCISecurityPolicy.Spec x)] \<Longrightarrow>
    w_object w = Some (settled_policy 4 fakeID SecurityPolicyPhaseActive '''' x) \<Longrightarrow> rest evs w"
  shows "reconcileSPWithMock (creating_mock (core_list l)) (bench 2 (test_policy 2 [ociSecurityPolicyFinalizer] None '''' '''' x)) rest"
  by (simp add: pol_test_defs, rule assms) (simp_all add: pol_test_defs pol_settled_defs)

lemma failing_creation:
  assumes "\<And>evs w. create_requests evs = [createListDetails (OCISecurityPolicy.Spec x)] \<Longrightarrow> w_object w =
    Some (settled_policy 4 '''' SecurityPolicyPhaseFailed (''Failed to create security list: '' @ Error err) x) \<Longrightarrow> rest evs w"
  shows "reconcileSPWithMock (creating_mock (Inl err)) (bench 2 (test_policy 2 [ociSecurityPolicyFinalizer] None '''' '''' x)) rest"
  by (simp add: pol_test_defs pol_settled_defs, rule assms) (simp_all add: pol_test_defs pol_settled_defs)

lemma failed_policy_is_left:
  "w_object w = Some (settled_policy n lid SecurityPolicyPhaseFailed reason x) \<Longrightarrow>
   reconcileSPWithMock mock w rest \<longleftrightarrow> rest [KGet demo_request (Inr (settled_policy n lid SecurityPolicyPhaseFailed reason x))] w"
  by (simp add: reconcileSPWithMock_def succeeds_def pol_run_defs policy_failed_and_observed_def fresh_sys_def
      pol_test_ext_def world_ext_def api_client_def api_get_def settled_policy_def test_policy_def created_meta_def
      pol_parts_def policy_phase_defs)

abbreviation "new_policy \<equiv> newTestOCISecurityPolicy ''demo'' ''ns''"

abbreviation pol_created :: "OCISecurityPolicy \<Rightarrow> PolBench" where
  "pol_created x \<equiv> bench 1 (test_policy 1 [] None '''' '''' x)"

lemma should_set_SecurityListID_and_phase_to_Active_after_creation:
  "reconcileSPWithMock pol_mock (pol_created new_policy) (\<lambda>_ w1.
   reconcileSPWithMock (creating_mock (core_list SecurityListLifecycleStateAvailable)) w1 (\<lambda>_ w2.
   fetched w2 (\<lambda>x. SecurityListID (OCISecurityPolicy.Status x) = fakeID \<and>
     OCISecurityPolicyStatus.Phase (OCISecurityPolicy.Status x) = SecurityPolicyPhaseActive)))"
  unfolding first_policy_reconcile by (rule successful_creation) (simp add: fetched_def settled_policy_def)

lemma should_pass_correct_compartmentId_and_vcnId_to_OCI:
  "reconcileSPWithMock pol_mock (pol_created new_policy) (\<lambda>_ w1.
   reconcileSPWithMock (creating_mock (core_list SecurityListLifecycleStateAvailable)) w1 (\<lambda>evs w2.
   map (\<lambda>d. (ListCompartmentId d, ListVcnId d)) (create_requests evs) =
     [(Some ''ocid1.compartment.oc1..test'', Some ''ocid1.vcn.oc1..test'')]))"
  unfolding first_policy_reconcile
  by (rule successful_creation) (simp add: createListDetails_def newTestOCISecurityPolicy_def split: prod.split)

lemma should_set_policy_phase_to_Failed_with_failure_reason:
  "reconcileSPWithMock pol_mock (pol_created new_policy) (\<lambda>_ w1.
   reconcileSPWithMock (creating_mock (Inl quota_exceeded)) w1 (\<lambda>_ w2.
   fetched w2 (\<lambda>x. OCISecurityPolicyStatus.Phase (OCISecurityPolicy.Status x) = SecurityPolicyPhaseFailed \<and>
     sublist ''quota exceeded'' (OCISecurityPolicyStatus.FailureReason (OCISecurityPolicy.Status x)))))"
  unfolding first_policy_reconcile
  by (rule failing_creation) (simp add: fetched_def settled_policy_def quota_exceeded_def sublist_Cons_right)

lemma should_not_retry_policy_after_entering_Failed_phase:
  "reconcileSPWithMock pol_mock (pol_created new_policy) (\<lambda>_ w1.
   reconcileSPWithMock (creating_mock (Inl quota_exceeded)) w1 (\<lambda>evs2 w2.
   reconcileSPWithMock (creating_mock (Inl quota_exceeded)) w2 (\<lambda>evs3 w3.
   length (create_requests evs2 @ create_requests evs3) = 1)))"
  unfolding first_policy_reconcile
  by (rule failing_creation, subst failed_policy_is_left) (simp_all add: create_requests_def map_filter_simps)

text \<open>Available, Provisioning, Terminating and Terminated, and any other state.\<close>

lemma should_set_policy_phase_when_OCI_reports_state:
  "reconcileSPWithMock (pol_mock\<lparr>GetSecurityListFn := answering (core_list l)\<rparr>)
     (bench 3 (test_policy 3 [ociSecurityPolicyFinalizer] None fakeID SecurityPolicyPhaseCreating x)) (\<lambda>_ w.
   fetched w (\<lambda>x. OCISecurityPolicyStatus.Phase (OCISecurityPolicy.Status x) = phase_of_list_lifecycle l))"
  by (cases l) (simp_all add: pol_test_defs)

lemma should_call_DeleteSecurityList_and_remove_finalizer_on_deletion:
  "reconcileSPWithMock (pol_mock\<lparr>DeleteSecurityListFn := answering (Inr ())\<rparr>)
     (bench 4 (test_policy 4 [ociSecurityPolicyFinalizer] (Some 7) fakeID SecurityPolicyPhaseActive x)) (\<lambda>evs w.
   oci_calls evs = [DeleteListCall (Some fakeID) (Inr ())] \<and> w_object w = None)"
  by (simp add: pol_test_defs)

lemma should_remove_finalizer_without_calling_DeleteSecurityList:
  "reconcileSPWithMock (pol_mock\<lparr>DeleteSecurityListFn := answering (Inr ())\<rparr>)
     (bench 3 (test_policy 3 [ociSecurityPolicyFinalizer] (Some 7) '''' '''' x)) (\<lambda>evs w.
   oci_calls evs = [] \<and> w_object w = None)"
  by (simp add: pol_test_defs)

definition egress_test_rule :: SecurityRule where
  "egress_test_rule = \<lparr>Description = ''Allow HTTPS outbound'', Direction = SecurityRuleDirectionEgress, Protocol = ''6'',
     Source = '''', Destination = ''0.0.0.0/0'', MinPort = Some 443, MaxPort = Some 443\<rparr>"

lemma should_pass_egress_rules_correctly_to_OCI:
  "reconcileSPWithMock pol_mock (pol_created (new_policy\<lparr>OCISecurityPolicy.Spec :=
      (OCISecurityPolicy.Spec new_policy)\<lparr>Rules := [egress_test_rule]\<rparr>\<rparr>)) (\<lambda>_ w1.
   reconcileSPWithMock (creating_mock (core_list SecurityListLifecycleStateAvailable)) w1 (\<lambda>evs w2.
   map (\<lambda>d. (IngressSecurityRules d, map_option (map (\<lambda>r. (EgressDestination r, EgressProtocol r))) (EgressSecurityRules d)))
     (create_requests evs) = [(None, Some [(Some ''0.0.0.0/0'', Some ''6'')])]))"
  unfolding first_policy_reconcile
  by (rule successful_creation)
    (simp add: createListDetails_def convertRules_def append_slice_def egressRule_def egress_test_rule_def
      SecurityRuleDirectionIngress_def SecurityRuleDirectionEgress_def)

section \<open>Policies without a mock, and their validation\<close>

lemma should_add_a_finalizer_to_policy_on_first_reconcile:
  "reconcileSPOnce (pol_created x) (\<lambda>_ w. fetched w (\<lambda>x. Finalizers (PolMeta x) = [ociSecurityPolicyFinalizer]))"
  by (simp add: pol_test_defs)

lemma should_not_add_duplicate_finalizers_to_policy_on_subsequent_reconciles:
  "reconcileSPOnce (bench 2 (test_policy 2 [ociSecurityPolicyFinalizer] None '''' '''' x)) (\<lambda>_ w.
   fetched w (\<lambda>x. count_list (Finalizers (PolMeta x)) ociSecurityPolicyFinalizer = 1))"
  by (simp add: pol_test_defs pol_settled_defs)

lemma should_reject_an_empty_or_long_policy_field:
  assumes "s = '''' \<or> length s = 256"
  shows "\<not> policy_spec_ok (sp\<lparr>DisplayName := s\<rparr>)" "\<not> policy_spec_ok (sp\<lparr>CompartmentID := s\<rparr>)"
    "\<not> policy_spec_ok (sp\<lparr>VcnID := s\<rparr>)"
  using assms by (auto simp: policy_spec_ok_def PolicyTypes.id_field_ok_def)

lemma should_reject_bad_rules:
  "\<not> policy_spec_ok (sp\<lparr>Rules := []\<rparr>)"
  "\<not> policy_spec_ok (sp\<lparr>Rules := [r\<lparr>Direction := ''INVALID''\<rparr>]\<rparr>)"
  "\<not> policy_spec_ok (sp\<lparr>Rules := [r\<lparr>MinPort := Some 0, MaxPort := Some 443\<rparr>]\<rparr>)"
  "\<not> policy_spec_ok (sp\<lparr>Rules := [r\<lparr>MinPort := Some 443, MaxPort := Some 65536\<rparr>]\<rparr>)"
  by (simp_all add: policy_spec_ok_def rule_ok_def direction_ok_def port_ok_def)

definition all_egress_rule :: SecurityRule where
  "all_egress_rule = \<lparr>Description = '''', Direction = SecurityRuleDirectionEgress, Protocol = ''all'', Source = '''',
     Destination = ''0.0.0.0/0'', MinPort = None, MaxPort = None\<rparr>"

lemma should_accept_a_policy_with_all_required_fields:
  "policy_spec_ok (OCISecurityPolicy.Spec new_policy)"
  "policy_spec_ok ((OCISecurityPolicy.Spec new_policy)\<lparr>OCISecurityPolicySpec.FreeformTags := Some [(''env'', ''test''), (''team'', ''nvcne'')]\<rparr>)"
  "policy_spec_ok ((OCISecurityPolicy.Spec new_policy)\<lparr>Rules := Rules (OCISecurityPolicy.Spec new_policy) @ [all_egress_rule]\<rparr>)"
  by (simp_all add: policy_spec_ok_def PolicyTypes.id_field_ok_def newTestOCISecurityPolicy_def rule_ok_def direction_ok_def
      port_ok_def all_egress_rule_def SecurityRuleDirectionIngress_def SecurityRuleDirectionEgress_def)

end
