(* ===== verification/Spec2Isabelle.thy ===== *)
theory Spec2Isabelle
  imports ClusterProperties OperatorProgress Retries Rounding Injection Convergence Initialization DeepCopy TestUtils UnitTests
begin

text \<open>
  A verification development for the OCI compute operator: a Kubernetes operator in Go that drives
  OCIInstance and OCISecurityPolicy resources to compute instances and security lists of Oracle Cloud.

  THE PROGRAM. \<open>api/v1alpha1\<close> declares the two resources. \<open>internal/controller\<close> has one reconciler for
  each (\<open>ociinstance_controller.go\<close>, \<open>ocisecuritypolicy_controller.go\<close>), the helper both use to mark a
  resource as failed (\<open>failable_resource.go\<close>), the interfaces of the OCI clients with their mocks
  (\<open>oci_client.go\<close>, \<open>mock_oci_clients.go\<close>) and the metrics (\<open>metrics.go\<close>). \<open>cmd/main.go\<close> builds the
  manager, registers the reconcilers and starts it. A reconciler is called with a key, reads the object
  from the API server, and takes one step: release the finalizer of a deleted object after asking the
  cloud to destroy what it records, add the finalizer, do nothing for an object whose failure was already
  recorded at this generation, read the state of the recorded remote object and sync the phase, or create
  the remote object and record its id.

  HOW IT IS MODELLED. Handlers are commands of the state monad over the record \<open>Sys\<close> (theory \<open>Kube\<close>):
  the outside world, the reconciler's client field, the three collectors, and a ghost list \<open>calls\<close> of
  all calls that left the process with their answers. The Kubernetes client, the controller-runtime
  helpers, the OCI SDK and the clock are the parameter \<open>ext\<close>, functions on an arbitrary state of the
  outside world, which may change at every call; so stale caches, foreign writers and a cloud with a life
  of its own are covered. A Go error is a value of \<open>go_error\<close>, a result with error a sum, a nil pointer
  \<open>None\<close>, and a panic the outcome \<open>Panicked\<close>. Ports are \<open>32 word\<close> and \<open>64 word\<close>, generations
  \<open>64 word\<close>. \<open>strconv.ParseFloat\<close> is modelled down to its rounding. Recursion is structural everywhere,
  so no fuel is needed. Log calls are left out.

  THE THEORIES.
  \<open>Prelude\<close>: errors, slices, the postcondition calculus \<open>post\<close> that executes a command symbolically.
  \<open>Kube\<close>: the parameters, the state, and the events of a run. \<open>Metrics\<close>: \<open>metrics.go\<close>.
  \<open>InstanceTypes\<close>, \<open>PolicyTypes\<close>: the two API types with the constraints of their markers.
  \<open>Strconv\<close>: \<open>ParseFloat(s, 32)\<close>; range, exactness on small decimals. \<open>Rounding\<close>: what correct rounding is,
  over the reals, and that \<open>ParseFloat\<close>, and so the launch request, has it.
  \<open>OciClients\<close>: client interfaces and mocks. \<open>Failable\<close>: \<open>failable_resource.go\<close>, with the locale
  \<open>failable_resource\<close> interpreted on both types.
  \<open>InstanceController\<close>, \<open>PolicyController\<close>, \<open>ConvertRules\<close>: the two reconcilers, one definition per
  Go function (the policy's carry the suffix Policy), named guards and requests split off.
  \<open>Protocol\<close>: the contract of a reconciler as inductive relations over outcomes and events, with no
  reference to the code, and the locale \<open>reconciler\<close> that derives safety facts from it once.
  \<open>Histories\<close>: sequences of reconciles against an API server with optimistic concurrency, as a law on
  histories (reads may be stale, others may write, a failed write may have gone through), and the locale
  \<open>tracked_reconciler\<close> that bounds the number of remote objects created.
  \<open>InstanceContract\<close>, \<open>PolicyContract\<close>: every handler refines its relation of \<open>Protocol\<close>; both locales
  are interpreted on both reconcilers.
  \<open>Fixtures\<close>: a computing outside world that instantiates the parameters in the witnesses.
  \<open>InstanceProperties\<close>, \<open>PolicyProperties\<close>: the properties of runs and of sequences of runs.
  \<open>Convergence\<close>: in a world where nothing fails, a new instance reaches Running and stays there.
  \<open>Patience\<close>: worlds in which only \<open>left\<close> calls fail or find nothing yet, in any order (on the way to a
  new remote object: reads, writes and polls only, never its creation or the client's); the record \<open>Goal\<close>
  of what a reconciler works for, and the locale \<open>goal\<close>, interpreted on both types in \<open>InstanceProgress\<close> and
  \<open>PolicyProgress\<close>: all but \<open>left\<close> reconciles (and two, for a new object) end there. \<open>PatientWorlds\<close> has
  such worlds, and \<open>SharedWorlds\<close> puts two of them side by side (locale \<open>part\<close>).
  \<open>Retries\<close>: the loop that calls a reconciler again while its outcome asks for it (a \<open>while_option\<close>, \<open>None\<close>
  if it did not end); for deletions it ends.
  \<open>Operator\<close>: both reconcilers in one process over many objects, with shared collectors and restarts.
  \<open>Lifecycle\<close>: the state machines of the two statuses, as inductive relations, and the locale \<open>lifecycle\<close> over
  \<open>tracked_reconciler\<close>: the versions of an object that the API server stores follow its machine.
  \<open>Orphans\<close>: the accounts of the remote objects made and destroyed, up to the release of the finalizer.
  \<open>Bystanders\<close>: what a run does to the outside world, call by call; so what it leaves alone.
  \<open>OtherWork\<close>: the work of the operator that is not about a given object. \<open>Cluster\<close>: the law of
  \<open>Histories\<close> on the single calls, and that in a cluster whose calls obey it all histories of the operator do.
  \<open>StoreWorlds\<close>: such a cluster that computes, scripted, with the laws proved once in the locale \<open>store\<close>.
  \<open>ClusterProperties\<close>: what holds of the operator in every cluster. \<open>OperatorProgress\<close>: the bounds of progress for one object among
  others, in the whole operator.
  \<open>Injection\<close>: a reconciler with an injected client against one that makes its client.
  \<open>TestUtils\<close>: \<open>test/utils/utils.go\<close>, what the end-to-end tests share. \<open>UnitTests\<close>: the unit tests of both
  controllers, run on the model.
  \<open>Startup\<close>: \<open>cmd/main.go\<close>: options from flags, start sequence and exit codes. \<open>CommandLine\<close>: its flags,
  with the flag package of Go's standard library. \<open>Initialization\<close>: the package variables and \<open>init\<close>
  functions (\<open>groupversion_info.go\<close>, the type files, \<open>metrics.go\<close>, \<open>main.go\<close>), and the whole process.
  \<open>DeepCopyHeap\<close>, \<open>DeepCopy\<close>: \<open>zz_generated.deepcopy.go\<close> on a heap with pointers, maps and arrays; the locale
  \<open>deep_copier\<close> says what a deep copy promises, and every generated copy is shown to keep it, given
  that the copies of apimachinery do.

  WHAT IS SHOWN. Each run of a reconciler makes at most one call to the cloud, in an order fixed by the
  protocol; creation and destruction are guarded; a finalizer is released only after the cloud accepted the
  destruction; ids are recorded or the run returns an error; over any history, remote objects created
  beyond the first are paid for by failed status writes, in the whole operator with its other work and its
  restarts, and for every number of such writes there is a cluster in which this bound is met; when the finalizer is released, no more remote objects are left over than
  status writes failed, so that the finalizer prevents orphans but for those whose id was lost. All that is
  asked of the cluster for this is how single calls behave. The collectors agree with the runs and the calls that were made; failed objects stay quiet
  until their generation changes or they are deleted; what is written and returned for every state the cloud
  reports is that of a table (\<open>instance_report\<close>, \<open>policy_report\<close>) written down without the code; status writes keep everything but the status and stay within the CRD's
  phases; requests are built from the spec as documented, with the exceptions the properties state (lone
  ports, malformed numbers, changed specs). The statuses of an object follow a small machine in which a phase
  that needs a remote object comes with its id. A new object whose creation the cloud accepts becomes Running or Active, and
  an object under deletion disappears, in a number of reconciles bounded by the setbacks of the outside world, whatever else
  the operator does in between, and the retries of a deletion end. What tests with an injected client see is
  what happens without. The command line read back gives the options it was written from, and a usage error
  starts nothing; the scheme recognizes the four API types; deep copies are equal to their originals and share no cell with them.

  NOT MODELLED. The end-to-end tests, and the set-up and clean-up of the unit tests; the manifests (YAML, the Makefile and the Dockerfile have no behaviour of the
  operator in them beyond the constraints that the markers of the types repeat); log output, and the doc
  comments of the types that no marker enforces. The watches and the work queue belong to controller-runtime:
  which keys are worked on, and when, is a parameter of every property. Runs of the two controllers that
  overlap in time are covered as changes of the outside world during a call of the other. A remote object
  counts as created when the cloud answers with it: one that was made although the call failed or its answer
  was lost is outside the accounts (the operator sends no retry token, so it cannot know of it).
\<close>

end
